(* ===== verification/Prelude.thy ===== *)
theory Prelude
  imports Main "HOL-Library.Word" "HOL-Library.Char_ord"
begin

text \<open>
  Shared vocabulary of the development: fixed-width integer types, byte strings, the
  exceptions of the program as values, the result monad that models \<open>throw\<close> and early
  return, and little-endian codecs with the lemmas every component uses.
\<close>

unbundle bit_operations_syntax

section \<open>Types\<close>

type_synonym byte = "8 word"
type_synonym u16 = "16 word"
type_synonym u32 = "32 word"
type_synonym u64 = "64 word"
type_synonym bytes = "byte list"

section \<open>Fact collections\<close>

named_theorems res_simps \<open>inversion and computation rules of the result monad\<close>
named_theorems length_simps \<open>lengths of fixed-size byte strings and arrays\<close>

section \<open>Exceptions as values\<close>

text \<open>
  One constructor per exception class that the program throws, holding \<open>what()\<close>.
  \<open>RpcCancelledException\<close> derives from \<open>RpcException\<close>; both derive, like all the
  others, from \<open>std::exception\<close>. \<open>JsonException\<close> stands for the exceptions of the JSON library.
\<close>

datatype exn =
    CoinbaseException string
  | BlockBuildException string
  | MiningJobException string
  | TemplateException string
  | NetworkException string
  | PayoutAddressException string
  | MinerConfigException string
  | RpcException string "int option"
  | RpcCancelledException string
  | RpcConnectionException string
  | InvalidArgument string
  | RuntimeError string
  | JsonException string

type_synonym 'a res = "exn + 'a"

definition throw :: "exn \<Rightarrow> 'a res" where
  "throw e = Inl e"

definition ok :: "'a \<Rightarrow> 'a res" where
  "ok x = Inr x"

definition rbind :: "'a res \<Rightarrow> ('a \<Rightarrow> 'b res) \<Rightarrow> 'b res" where
  "rbind m f = (case m of Inl e \<Rightarrow> Inl e | Inr x \<Rightarrow> f x)"

definition throw_if :: "bool \<Rightarrow> exn \<Rightarrow> unit res" where
  "throw_if c e = (if c then Inl e else Inr ())"

definition of_option :: "exn \<Rightarrow> 'a option \<Rightarrow> 'a res" where
  "of_option e m = (case m of None \<Rightarrow> Inl e | Some x \<Rightarrow> Inr x)"

fun rmap :: "('a \<Rightarrow> 'b res) \<Rightarrow> 'a list \<Rightarrow> 'b list res" where
  "rmap f [] = Inr []"
| "rmap f (x # xs) = rbind (f x) (\<lambda>y. rbind (rmap f xs) (\<lambda>ys. Inr (y # ys)))"

lemma rbind_simps [simp, res_simps]:
  "rbind (Inl e) f = Inl e"
  "rbind (Inr x) f = f x"
  by (simp_all add: rbind_def)

lemma rbind_Inr_iff [res_simps]:
  "rbind m f = Inr y \<longleftrightarrow> (\<exists>x. m = Inr x \<and> f x = Inr y)"
  by (cases m) simp_all

lemma rbind_Inl_iff [res_simps]:
  "rbind m f = Inl e \<longleftrightarrow> m = Inl e \<or> (\<exists>x. m = Inr x \<and> f x = Inl e)"
  by (cases m) simp_all

lemma throw_if_simps [simp, res_simps]:
  "throw_if c e = Inr u \<longleftrightarrow> \<not> c"
  "throw_if c e = Inl e' \<longleftrightarrow> c \<and> e = e'"
  "throw_if True e = Inl e"
  "throw_if False e = Inr ()"
  by (auto simp: throw_if_def)

lemma throw_ok_simps [simp, res_simps]:
  "throw e = Inl e" "ok x = Inr x"
  by (simp_all add: throw_def ok_def)

lemma of_option_simps [simp, res_simps]:
  "of_option e (Some x) = Inr x"
  "of_option e None = Inl e"
  "of_option e m = Inr y \<longleftrightarrow> m = Some y"
  "of_option e m = Inl e' \<longleftrightarrow> m = None \<and> e = e'"
  by (auto simp: of_option_def split: option.splits)

lemma rmap_Inr_iff [res_simps]:
  "rmap f xs = Inr ys \<longleftrightarrow> list_all2 (\<lambda>x y. f x = Inr y) xs ys"
  by (induction xs arbitrary: ys) (auto simp: rbind_Inr_iff list_all2_Cons1)

lemma rmap_Inr_set:
  "rmap f xs = Inr ys \<Longrightarrow> y \<in> set ys \<Longrightarrow> \<exists>x. f x = Inr y"
  by (induction xs arbitrary: ys) (auto simp: rbind_Inr_iff)

lemma rmap_length: "rmap f xs = Inr ys \<Longrightarrow> length ys = length xs"
  by (auto simp: rmap_Inr_iff dest: list_all2_lengthD)

lemma rmap_total: "(\<And>x. x \<in> set xs \<Longrightarrow> f x = Inr (g x)) \<Longrightarrow> rmap f xs = Inr (map g xs)"
  by (induction xs) simp_all

section \<open>Numbers as text\<close>

text \<open>\<open>std::to_string\<close> of an unsigned and of a signed number.\<close>

fun to_string :: "nat \<Rightarrow> string" where
  "to_string n = (if n < 10 then [char_of (48 + n)] else to_string (n div 10) @ [char_of (48 + n mod 10)])"

declare to_string.simps [simp del]

definition to_string_int :: "int \<Rightarrow> string" where
  "to_string_int n = (if n < 0 then CHR ''-'' # to_string (nat (- n)) else to_string (nat n))"

section \<open>Lists as fixed-size arrays\<close>

lemma list_eq_iff_nth_eq': "length xs = n \<Longrightarrow> length ys = n \<Longrightarrow>
    (\<And>i. i < n \<Longrightarrow> xs ! i = ys ! i) \<Longrightarrow> xs = ys"
  by (simp add: list_eq_iff_nth_eq)

text \<open>Overwriting a block of an array at an offset, as \<open>memcpy\<close> and \<open>std::copy\<close> do.\<close>

definition splice :: "nat \<Rightarrow> 'a list \<Rightarrow> 'a list \<Rightarrow> 'a list" where
  "splice off ys xs = take off xs @ ys @ drop (off + length ys) xs"

lemma length_splice [simp, length_simps]:
  "off + length ys \<le> length xs \<Longrightarrow> length (splice off ys xs) = length xs"
  by (simp add: splice_def)

lemma nth_splice:
  assumes "off + length ys \<le> length xs"
  shows "splice off ys xs ! i = (if off \<le> i \<and> i < off + length ys then ys ! (i - off) else xs ! i)"
proof -
  have l: "length (take off xs) = off" using assms by simp
  consider "i < off" | "off \<le> i" "i < off + length ys" | "off + length ys \<le> i" by linarith
  then show ?thesis
  proof cases
    case 1
    with l show ?thesis by (simp add: splice_def nth_append)
  next
    case 2
    then have "i - off < length ys" "\<not> i < off" by linarith+
    with 2 l show ?thesis by (simp only: splice_def nth_append) simp
  next
    case 3
    then have "drop (off + length ys) xs ! (i - off - length ys) = xs ! i"
      using assms by simp
    moreover have "\<not> i - off < length ys" "\<not> i < off" using 3 by linarith+
    ultimately show ?thesis using 3 l by (simp add: splice_def nth_append)
  qed
qed

lemma splice_Nil [simp]: "splice off [] xs = xs"
  by (simp add: splice_def)

definition slice :: "nat \<Rightarrow> nat \<Rightarrow> 'a list \<Rightarrow> 'a list" where
  "slice off n xs = take n (drop off xs)"

lemma length_slice [simp, length_simps]: "off + n \<le> length xs \<Longrightarrow> length (slice off n xs) = n"
  by (simp add: slice_def)

lemma nth_slice [simp]: "off + n \<le> length xs \<Longrightarrow> i < n \<Longrightarrow> slice off n xs ! i = xs ! (off + i)"
  by (simp add: slice_def)

lemma slice_splice_same:
  "off + length ys \<le> length xs \<Longrightarrow> n = length ys \<Longrightarrow> slice off n (splice off ys xs) = ys"
  by (simp add: slice_def splice_def)

lemma slice_splice_other:
  assumes "off + length ys \<le> length xs" "p + n \<le> length xs"
    and "p + n \<le> off \<or> off + length ys \<le> p"
  shows "slice p n (splice off ys xs) = slice p n xs"
proof (rule list_eq_iff_nth_eq' [where n = n])
  fix i assume "i < n"
  then have "\<not> (off \<le> p + i \<and> p + i < off + length ys)" using assms(3) by linarith
  then show "slice p n (splice off ys xs) ! i = slice p n xs ! i"
    using assms \<open>i < n\<close> by (simp only: nth_slice length_splice nth_splice if_False)
qed (use assms in simp_all)

lemma slice_append_right:
  "length xs \<le> p \<Longrightarrow> slice p n (xs @ ys) = slice (p - length xs) n ys"
  by (simp add: slice_def)

lemma slice_0_append: "n = length xs \<Longrightarrow> slice 0 n (xs @ ys) = xs"
  by (simp add: slice_def)

lemma slice_take: "p + n \<le> k \<Longrightarrow> slice p n (take k xs) = slice p n xs"
proof -
  assume "p + n \<le> k"
  then have "min n (k - p) = n" by simp
  then show ?thesis by (simp only: slice_def drop_take take_take)
qed

lemma splice_splice_adjacent:
  assumes "n = length ys" "off + n + length zs \<le> length xs"
  shows "splice (off + n) zs (splice off ys xs) = splice off (ys @ zs) xs"
  using assms by (simp add: splice_def ac_simps)

lemma slice_slice: "p + n \<le> m \<Longrightarrow> slice p n (slice off m xs) = slice (off + p) n xs"
  by (simp add: slice_def drop_take add.commute)

section \<open>Little-endian codecs\<close>

text \<open>
  \<open>le_bytes n x\<close> is the \<open>n\<close> low bytes of \<open>x\<close>, least significant first;
  \<open>le_word\<close> reads such a string back, \<open>le_nat\<close> reads it as a number.
\<close>

primrec le_bytes :: "nat \<Rightarrow> 'a::len word \<Rightarrow> bytes" where
  "le_bytes 0 x = []"
| "le_bytes (Suc n) x = ucast x # le_bytes n (drop_bit 8 x)"

primrec le_word :: "bytes \<Rightarrow> 'a::len word" where
  "le_word [] = 0"
| "le_word (b # bs) = ucast b OR push_bit 8 (le_word bs)"

primrec le_nat :: "bytes \<Rightarrow> nat" where
  "le_nat [] = 0"
| "le_nat (b # bs) = unat b + 256 * le_nat bs"

lemma length_le_bytes [simp, length_simps]: "length (le_bytes n x) = n"
  by (induction n arbitrary: x) simp_all

lemma le_bytes_nth: "i < n \<Longrightarrow> le_bytes n x ! i = ucast (drop_bit (8 * i) x)"
proof (induction n arbitrary: x i)
  case (Suc n)
  then show ?case by (cases i) (simp_all add: drop_bit_drop_bit algebra_simps)
qed simp

lemma bit_le_word:
  "bit (le_word bs :: 'a::len word) n \<longleftrightarrow> n < LENGTH('a) \<and> n < 8 * length bs \<and> bit (bs ! (n div 8)) (n mod 8)"
proof (induction bs arbitrary: n)
  case (Cons b bs)
  show ?case
  proof (cases "n < 8")
    case True
    then show ?thesis
      by (auto simp: bit_or_iff bit_ucast_iff bit_push_bit_iff)
  next
    case False
    then obtain m where m: "n = m + 8" by (metis add.commute le_Suc_ex not_less)
    have "bit b (m + 8) = False" using bit_imp_le_length [of b "m + 8"] by auto
    moreover have "(m + 8) div 8 - Suc 0 = m div 8" by presburger
    ultimately show ?thesis using m Cons [of m]
      by (auto simp: bit_or_iff bit_ucast_iff bit_push_bit_iff)
  qed
qed simp

lemma le_word_replicate_0 [simp]: "le_word (replicate n 0) = 0"
  by (induction n) simp_all

lemma le_word_le_bytes:
  "le_word (le_bytes n (x :: 'a::len word)) = take_bit (8 * n) x"
proof (induction n arbitrary: x)
  case (Suc n)
  show ?case
    by (rule bit_word_eqI)
      (auto simp: Suc bit_simps algebra_simps not_le not_less dest: bit_imp_le_length)
qed simp

lemma le_word_le_bytes_id:
  "LENGTH('a) \<le> 8 * n \<Longrightarrow> le_word (le_bytes n (x :: 'a::len word)) = x"
  by (simp add: le_word_le_bytes take_bit_word_eq_self)

lemma le_bytes_le_word:
  "8 * length bs \<le> LENGTH('a) \<Longrightarrow> le_bytes (length bs) (le_word bs :: 'a::len word) = bs"
proof (induction bs)
  case (Cons b bs)
  have b: "ucast (ucast b OR push_bit 8 (le_word bs) :: 'a word) = b"
    using Cons.prems by (intro bit_word_eqI) (auto simp: bit_simps)
  have r: "drop_bit 8 (ucast b OR push_bit 8 (le_word bs) :: 'a word)
      = take_bit (LENGTH('a) - 8) (le_word bs)"
    by (rule bit_word_eqI) (auto simp: bit_simps dest: bit_imp_le_length)
  have t: "take_bit (LENGTH('a) - 8) (le_word bs :: 'a word) = le_word bs"
  proof -
    have "take_bit (8 * length bs) (le_word bs :: 'a word) = le_word bs"
      using Cons le_word_le_bytes [of "length bs" "le_word bs :: 'a word"] by simp
    moreover have "min (LENGTH('a) - 8) (8 * length bs) = 8 * length bs"
      using Cons.prems by simp
    ultimately show ?thesis by (metis take_bit_take_bit)
  qed
  show ?case using Cons b r t by simp
qed simp

lemma le_bytes_le_word_eq:
  "length bs = n \<Longrightarrow> 8 * n \<le> LENGTH('a) \<Longrightarrow> le_bytes n (le_word bs :: 'a::len word) = bs"
  using le_bytes_le_word [of bs, where 'a = 'a] by simp

lemma le_bytes_ucast:
  "8 * n \<le> LENGTH('b) \<Longrightarrow> le_bytes n (ucast (x :: 'a::len word) :: 'b::len word) = le_bytes n x"
proof (rule list_eq_iff_nth_eq' [where n = n])
  fix i assume "8 * n \<le> LENGTH('b)" "i < n"
  then show "le_bytes n (ucast x :: 'b word) ! i = le_bytes n x ! i"
    by (auto simp: le_bytes_nth bit_simps intro!: bit_word_eqI)
qed simp_all

lemma take_bit_word_small:
  "unat x < 2 ^ n \<Longrightarrow> take_bit n (x :: 'a::len word) = x"
  by (simp add: word_unat_eq_iff unsigned_take_bit_eq take_bit_nat_eq_self)

lemma unat_ucast_mod: "unat (ucast (x :: 'a::len word) :: 'b::len word) = unat x mod 2 ^ LENGTH('b)"
  by (simp only: unsigned_ucast_eq unsigned_take_bit_eq take_bit_eq_mod)

lemma unat_of_nat_small: "n < 2 ^ LENGTH('a) \<Longrightarrow> unat (of_nat n :: 'a::len word) = n"
  by (simp add: unat_of_nat)

lemma ucast_byte_small:
  assumes "unat (x :: 'a::len word) < 256"
  shows "unat (ucast x :: byte) = unat x"
    and "unat (ucast (ucast x :: byte) :: 'a word) = unat x"
proof -
  show b: "unat (ucast x :: byte) = unat x" using assms by (simp add: unat_ucast_mod)
  have "unat x < 2 ^ LENGTH('a)" by (rule unsigned_less)
  then show "unat (ucast (ucast x :: byte) :: 'a word) = unat x"
    by (subst unat_ucast_mod) (simp only: b mod_less)
qed

lemma le_bytes_inj:
  "LENGTH('a) \<le> 8 * n \<Longrightarrow> le_bytes n (x :: 'a::len word) = le_bytes n y \<longleftrightarrow> x = y"
  by (metis le_word_le_bytes_id)

lemma le_nat_append: "le_nat (xs @ ys) = le_nat xs + 256 ^ length xs * le_nat ys"
  by (induction xs) (simp_all add: algebra_simps)

lemma le_nat_less: "le_nat xs < 256 ^ length xs"
proof (induction xs)
  case (Cons b xs)
  have "unat b < 256" using unsigned_less [of b] by simp
  with Cons show ?case by simp
qed simp

lemma le_nat_replicate_0 [simp]: "le_nat (replicate n 0) = 0"
  by (induction n) simp_all

lemma le_nat_take: "le_nat (take n xs) = le_nat xs mod 256 ^ n"
proof (cases "n \<le> length xs")
  case True
  then have l: "length (take n xs) = n" by simp
  have "le_nat xs = le_nat (take n xs) + 256 ^ n * le_nat (drop n xs)"
    using le_nat_append [of "take n xs" "drop n xs"] l by simp
  moreover have "le_nat (take n xs) < 256 ^ n" using le_nat_less [of "take n xs"] l by simp
  ultimately show ?thesis by simp
next
  case False
  then have "(256 :: nat) ^ length xs \<le> 256 ^ n" by (intro power_increasing) simp_all
  then have "le_nat xs < 256 ^ n" using le_nat_less [of xs] by linarith
  then show ?thesis using False by simp
qed

lemma digit_eq_iff:
  assumes "(a::nat) < b" "c < b"
  shows "a + b * d = c + b * e \<longleftrightarrow> a = c \<and> d = e"
proof
  assume eq: "a + b * d = c + b * e"
  then have "(a + b * d) mod b = (c + b * e) mod b" "(a + b * d) div b = (c + b * e) div b"
    by (simp_all only:)
  with assms show "a = c \<and> d = e" by simp
qed simp

lemma unat_byte_less [simp]: "unat (x :: byte) < 256"
  using unsigned_less [of x] by simp

lemma le_nat_inj: "length xs = length ys \<Longrightarrow> le_nat xs = le_nat ys \<longleftrightarrow> xs = ys"
proof (induction xs ys rule: list_induct2)
  case (Cons x xs y ys)
  then show ?case
    by (simp only: le_nat.simps digit_eq_iff [OF unat_byte_less unat_byte_less]) 
      (simp add: word_unat_eq_iff)
qed simp

lemma le_nat_le_bytes: "le_nat (le_bytes n x) = unat x mod 256 ^ n"
proof (induction n arbitrary: x)
  case (Suc n)
  have "unat (ucast x :: byte) = unat x mod 256"
    by (simp add: unsigned_ucast_eq take_bit_eq_mod)
  moreover have "unat (drop_bit 8 x) = unat x div 256"
    by (simp add: unat_drop_bit_eq drop_bit_eq_div [of 8 "unat x"])
  ultimately show ?case
    by (simp add: Suc mod_mult2_eq)
qed simp

lemma unat_add_one: "(x :: 64 word) \<noteq> 0xffffffffffffffff \<Longrightarrow> unat (x + 1) = Suc (unat x)"
proof -
  assume x: "x \<noteq> 0xffffffffffffffff"
  have "1 + x \<noteq> 0"
  proof
    assume "1 + x = 0"
    then have "x = - 1" by (simp add: eq_neg_iff_add_eq_0 add.commute)
    with x show False by simp
  qed
  then show ?thesis by (simp add: unatSuc add.commute)
qed

end
