(* ===== verification/NoncePartition.thy ===== *)
theory NoncePartition
  imports Prelude
begin

text \<open>
  The arithmetic of \<open>src/parallel_miner.cpp\<close>: the saturating sum of hash counts and the partition of
  a range of nonces among workers, in 64-bit words.
\<close>

record NonceRange =
  nr_begin :: u32
  nr_end :: u32

definition SaturatingAdd :: "u64 \<Rightarrow> u64 \<Rightarrow> u64" where
  "SaturatingAdd left right = (if right > 0xffffffffffffffff - left then 0xffffffffffffffff else left + right)"

definition partition_step :: "u64 \<Rightarrow> u64 \<Rightarrow> nat \<Rightarrow> u64 \<times> NonceRange list \<Rightarrow> u64 \<times> NonceRange list" where
  "partition_step base_size remainder worker = (\<lambda>(cursor, ranges).
    let range_size = base_size + (if of_nat worker < remainder then 1 else 0);
        range_end = cursor + range_size - 1
    in (range_end + 1, ranges @ [\<lparr>nr_begin = ucast cursor, nr_end = ucast range_end\<rparr>]))"

definition PartitionNonceRange :: "u32 \<Rightarrow> u32 \<Rightarrow> u64 \<Rightarrow> NonceRange list res" where
  "PartitionNonceRange nonce_begin nonce_end worker_count =
    rbind (throw_if (worker_count = 0) (InvalidArgument ''worker count must be greater than zero'')) (\<lambda>_.
    rbind (throw_if (nonce_begin > nonce_end) (InvalidArgument ''nonce range begin exceeds nonce range end'')) (\<lambda>_.
    let nonce_count = ucast nonce_end - ucast nonce_begin + 1;
        active_count = min nonce_count worker_count;
        base_size = nonce_count div active_count;
        remainder = nonce_count mod active_count
    in ok (snd (fold (partition_step base_size remainder) [0..<unat active_count] (ucast nonce_begin, [])))))"

section \<open>The saturating sum\<close>

lemma SaturatingAdd_value: "unat (SaturatingAdd x y) = min (unat x + unat y) (2 ^ 64 - 1)"
proof -
  have "unat (0xffffffffffffffff - x :: u64) = 2 ^ 64 - 1 - unat x"
  proof -
    have "x \<le> 0xffffffffffffffff" using unsigned_less [of x, where ?'a = nat] by (simp add: word_le_nat_alt)
    then show ?thesis by (simp add: unat_sub)
  qed
  then have c: "y > 0xffffffffffffffff - x \<longleftrightarrow> 2 ^ 64 - 1 < unat x + unat y"
    using unsigned_less [of x, where ?'a = nat] by (simp add: word_less_nat_alt) linarith
  show ?thesis
  proof (cases "2 ^ 64 - 1 < unat x + unat y")
    case True
    then show ?thesis using c by (simp add: SaturatingAdd_def)
  next
    case False
    then have "unat (x + y) = unat x + unat y" by (intro unat_plus_simple [THEN iffD1]) (simp add: no_olen_add_nat)
    then show ?thesis using False c by (simp add: SaturatingAdd_def)
  qed
qed

section \<open>Where the workers start\<close>

text \<open>The first nonce of worker \<open>w\<close> when \<open>n\<close> nonces from \<open>b\<close> are split among \<open>a\<close> workers.\<close>

definition worker_start :: "nat \<Rightarrow> nat \<Rightarrow> nat \<Rightarrow> nat \<Rightarrow> nat" where
  "worker_start b n a w = b + w * (n div a) + min w (n mod a)"

lemma worker_start_0 [simp]: "worker_start b n a 0 = b"
  by (simp add: worker_start_def)

lemma worker_start_end: "0 < a \<Longrightarrow> worker_start b n a a = b + n"
  by (simp add: worker_start_def min_absorb2 less_imp_le)

lemma worker_start_Suc:
  "worker_start b n a (Suc w) = worker_start b n a w + (n div a + (if w < n mod a then 1 else 0))"
  by (simp add: worker_start_def min_def)

lemma worker_start_less:
  assumes "0 < a" "a \<le> n"
  shows "worker_start b n a w < worker_start b n a (Suc w)"
proof -
  have "0 < n div a" using assms by (simp add: div_greater_zero_iff)
  then show ?thesis by (simp add: worker_start_Suc)
qed

lemma worker_start_mono: "v \<le> w \<Longrightarrow> worker_start b n a v \<le> worker_start b n a w"
  by (simp add: worker_start_def add_mono)

definition worker_range :: "nat \<Rightarrow> nat \<Rightarrow> nat \<Rightarrow> nat \<Rightarrow> NonceRange" where
  "worker_range b n a w =
    \<lparr>nr_begin = of_nat (worker_start b n a w), nr_end = of_nat (worker_start b n a (Suc w) - 1)\<rparr>"

lemma ucast_of_nat_32: "ucast (of_nat k :: u64) = (of_nat k :: u32)"
  by (rule word_unat_eq_iff [THEN iffD2]) (simp add: unsigned_ucast_eq unsigned_of_nat take_bit_take_bit)

lemma partition_fold:
  assumes "0 < a" "a \<le> n" "n < 2 ^ 64"
  shows "w \<le> a \<Longrightarrow> fold (partition_step (of_nat (n div a)) (of_nat (n mod a))) [0..<w] (of_nat b, []) =
    (of_nat (worker_start b n a w), map (worker_range b n a) [0..<w])"
proof (induction w)
  case (Suc w)
  have "w < 2 ^ 64" using Suc.prems assms by linarith
  moreover have "n mod a < 2 ^ 64" using assms mod_less_divisor [OF assms(1), of n] by linarith
  ultimately have c: "(of_nat w :: u64) < of_nat (n mod a) \<longleftrightarrow> w < n mod a"
    by (simp add: word_less_nat_alt unat_of_nat_small)
  have e: "of_nat (worker_start b n a w) + (of_nat (n div a) + (if w < n mod a then 1 else 0)) =
      (of_nat (worker_start b n a (Suc w)) :: u64)"
    by (simp add: worker_start_Suc)
  have "1 \<le> worker_start b n a (Suc w)" using worker_start_less [OF assms(1,2), of b w] by linarith
  then have m: "(of_nat (worker_start b n a (Suc w)) :: u64) - 1 = of_nat (worker_start b n a (Suc w) - 1)"
    by (simp add: of_nat_diff)
  have f: "fold (partition_step (of_nat (n div a)) (of_nat (n mod a))) [0..<w] (of_nat b, []) =
    (of_nat (worker_start b n a w), map (worker_range b n a) [0..<w])" using Suc by simp
  have r: "worker_range b n a w = \<lparr>nr_begin = ucast (of_nat (worker_start b n a w) :: u64),
      nr_end = ucast ((of_nat (worker_start b n a (Suc w)) :: u64) - 1)\<rparr>"
    unfolding m ucast_of_nat_32 worker_range_def by (rule refl)
  show ?case
    unfolding upt_Suc_append [OF le0] fold_append o_apply f fold_simps id_apply map_append
    by (simp only: partition_step_def prod.case Let_def c e r list.map diff_add_cancel)
qed simp

text \<open>The partition, and the nonces of a range.\<close>

definition range_nonces :: "NonceRange \<Rightarrow> nat list" where
  "range_nonces r = [unat (nr_begin r)..<Suc (unat (nr_end r))]"

lemma PartitionNonceRange_eq:
  assumes "b \<le> e" "k \<noteq> 0"
  defines "n \<equiv> unat e - unat b + 1"
  defines "a \<equiv> min n (unat k)"
  shows "PartitionNonceRange b e k = Inr (map (worker_range (unat b) n a) [0..<a])" "0 < a" "a \<le> n"
proof -
  have be: "unat b \<le> unat e" using assms(1) by (simp add: word_le_nat_alt)
  have e32: "unat e < 2 ^ 32" using unsigned_less [of e, where ?'a = nat] by simp
  then have n: "0 < n" "n \<le> 2 ^ 32" using be by (auto simp: n_def)
  have c: "(ucast e - ucast b + 1 :: u64) = of_nat n"
  proof -
    have "(ucast e :: u64) = of_nat (unat e)" "(ucast b :: u64) = of_nat (unat b)" by simp_all
    moreover have "(of_nat (unat e - unat b + 1) :: u64) = of_nat (unat e) - of_nat (unat b) + 1"
      using be by (simp add: of_nat_diff)
    ultimately show ?thesis by (simp only: n_def)
  qed
  have un: "unat (of_nat n :: u64) = n" using n by (intro unat_of_nat_small) simp
  then have m: "min (of_nat n) k = (of_nat a :: u64)" and ua: "unat (of_nat a :: u64) = a"
    by (auto simp: a_def min_def word_le_nat_alt)
  show a0: "0 < a" using n assms(2) by (simp add: a_def unat_gt_0)
  show an: "a \<le> n" by (simp add: a_def)
  have dm: "of_nat n div of_nat a = (of_nat (n div a) :: u64)" "of_nat n mod of_nat a = (of_nat (n mod a) :: u64)"
    by (simp_all only: word_arith_nat_div word_arith_nat_mod un ua)
  have "n < 2 ^ 64" using n(2) by simp
  note f = partition_fold [OF a0 an this, of a "unat b"]
  have b64: "(ucast b :: u64) = of_nat (unat b)" by simp
  show "PartitionNonceRange b e k = Inr (map (worker_range (unat b) n a) [0..<a])"
    using assms(2) leD [OF assms(1)] unfolding PartitionNonceRange_def c m Let_def dm ua
    by (simp only: b64 f order_refl snd_conv throw_if_simps simp_thms rbind_simps throw_ok_simps)
qed

lemma worker_range_nonces:
  assumes "0 < a" "a \<le> n" "b + n \<le> 2 ^ 32" "w < a"
  shows "range_nonces (worker_range b n a w) = [worker_start b n a w..<worker_start b n a (Suc w)]"
proof -
  have l: "worker_start b n a w < worker_start b n a (Suc w)" by (rule worker_start_less [OF assms(1,2)])
  have "worker_start b n a (Suc w) \<le> worker_start b n a a" using assms(4) by (intro worker_start_mono) simp
  then have u: "worker_start b n a (Suc w) \<le> 2 ^ 32" using assms(1,3) by (simp add: worker_start_end)
  have "unat (of_nat (worker_start b n a w) :: u32) = worker_start b n a w"
    "unat (of_nat (worker_start b n a (Suc w) - 1) :: u32) = worker_start b n a (Suc w) - 1"
    using l u by (intro unat_of_nat_small; simp)+
  then show ?thesis using l by (simp add: range_nonces_def worker_range_def)
qed

lemma worker_ranges_concat:
  assumes "0 < a" "a \<le> n" "b + n \<le> 2 ^ 32"
  shows "w \<le> a \<Longrightarrow> concat (map range_nonces (map (worker_range b n a) [0..<w])) = [b..<worker_start b n a w]"
proof (induction w)
  case (Suc w)
  have "worker_start b n a w < worker_start b n a (Suc w)" by (rule worker_start_less [OF assms(1,2)])
  moreover have "b \<le> worker_start b n a w" by (simp add: worker_start_def)
  ultimately have "[b..<worker_start b n a (Suc w)] =
      [b..<worker_start b n a w] @ [worker_start b n a w..<worker_start b n a (Suc w)]"
    using upt_add_eq_append [of b "worker_start b n a w" "worker_start b n a (Suc w) - worker_start b n a w"] by simp
  then show ?case using Suc worker_range_nonces [OF assms, of w] by simp
qed simp

lemma PartitionNonceRange_covers:
  assumes "b \<le> e" "k \<noteq> 0"
  shows "\<exists>rs. PartitionNonceRange b e k = Inr rs \<and> concat (map range_nonces rs) = [unat b..<Suc (unat e)] \<and>
    length rs = min (unat e - unat b + 1) (unat k) \<and> list_all (\<lambda>r. nr_begin r \<le> nr_end r) rs \<and>
    (\<exists>size. list_all (\<lambda>r. length (range_nonces r) = size \<or> length (range_nonces r) = size + 1) rs)"
proof -
  define n where "n = unat e - unat b + 1"
  define a where "a = min n (unat k)"
  have be: "unat b \<le> unat e" using assms(1) by (simp add: word_le_nat_alt)
  have "unat e < 2 ^ 32" using unsigned_less [of e, where ?'a = nat] by simp
  then have bn: "unat b + n \<le> 2 ^ 32" "unat b + n = Suc (unat e)" using be by (auto simp: n_def)
  note p = PartitionNonceRange_eq [OF assms, folded n_def, folded a_def]
  let ?rs = "map (worker_range (unat b) n a) [0..<a]"
  have c: "concat (map range_nonces ?rs) = [unat b..<Suc (unat e)]"
    using worker_ranges_concat [OF p(2,3) bn(1) order_refl] worker_start_end [OF p(2), of "unat b" n] bn(2) by simp
  have r: "range_nonces (worker_range (unat b) n a w) = [worker_start (unat b) n a w..<worker_start (unat b) n a (Suc w)]"
    "worker_start (unat b) n a w < worker_start (unat b) n a (Suc w)" if "w < a" for w
    using worker_range_nonces [OF p(2,3) bn(1) that] worker_start_less [OF p(2,3)] by simp_all
  have "list_all (\<lambda>r. nr_begin r \<le> nr_end r) ?rs"
  proof -
    have "nr_begin (worker_range (unat b) n a w) \<le> nr_end (worker_range (unat b) n a w)" if "w < a" for w
    proof -
      have "range_nonces (worker_range (unat b) n a w) \<noteq> []" using r [OF that] by simp
      then show ?thesis by (simp add: range_nonces_def word_le_nat_alt split: if_splits)
    qed
    then show ?thesis by (simp add: list_all_iff)
  qed
  moreover have "list_all (\<lambda>r. length (range_nonces r) = n div a \<or> length (range_nonces r) = n div a + 1) ?rs"
    using r by (simp add: list_all_iff worker_start_Suc)
  ultimately show ?thesis using p(1) c by (auto simp: a_def n_def)
qed

end
