(* ===== verification/Codec.thy ===== *)
theory Codec
  imports Prelude
begin

text \<open>
  Fixed-width byte codecs: the reads and writes of \<open>src/crypto/common.h\<close>, the appending
  serialisers of \<open>src/serialization.cpp\<close>, and the interface (locale) under which a memory
  region is used as an array of encoded items.
\<close>

section \<open>The interface: encoded items in a byte buffer\<close>

text \<open>
  \<open>enc\<close> turns a valid item into exactly \<open>w\<close> bytes and \<open>dec\<close> reads them back. A write
  at offset \<open>p\<close> is \<open>splice p (enc x) m\<close>, a read is \<open>dec (slice p w m)\<close>.
\<close>

locale byte_codec =
  fixes w :: nat
    and valid :: "'a \<Rightarrow> bool"
    and enc :: "'a \<Rightarrow> bytes"
    and dec :: "bytes \<Rightarrow> 'a"
  assumes w_pos: "0 < w"
    and length_enc: "valid x \<Longrightarrow> length (enc x) = w"
    and dec_enc: "valid x \<Longrightarrow> dec (enc x) = x"
    and valid_dec: "length bs = w \<Longrightarrow> valid (dec bs)"
    and enc_dec: "length bs = w \<Longrightarrow> enc (dec bs) = bs"
begin

lemma read_after_write:
  "valid x \<Longrightarrow> p + w \<le> length m \<Longrightarrow> dec (slice p w (splice p (enc x) m)) = x"
  by (simp add: slice_splice_same length_enc dec_enc)

lemma read_other:
  "valid x \<Longrightarrow> p + w \<le> length m \<Longrightarrow> q + w \<le> length m \<Longrightarrow> q + w \<le> p \<or> p + w \<le> q \<Longrightarrow>
    dec (slice q w (splice p (enc x) m)) = dec (slice q w m)"
  by (simp add: slice_splice_other length_enc)

lemma length_write:
  "valid x \<Longrightarrow> p + w \<le> length m \<Longrightarrow> length (splice p (enc x) m) = length m"
  by (simp add: length_enc)

lemma valid_read: "p + w \<le> length m \<Longrightarrow> valid (dec (slice p w m))"
  by (simp add: valid_dec)

lemma enc_inj: "valid x \<Longrightarrow> valid y \<Longrightarrow> enc x = enc y \<longleftrightarrow> x = y"
  by (metis dec_enc)

end

text \<open>Arrays of items: \<open>n\<close> consecutive encodings form a codec of width \<open>n * w\<close>.\<close>

definition enc_array :: "('a \<Rightarrow> bytes) \<Rightarrow> 'a list \<Rightarrow> bytes" where
  "enc_array enc xs = concat (map enc xs)"

definition dec_array :: "nat \<Rightarrow> nat \<Rightarrow> (bytes \<Rightarrow> 'a) \<Rightarrow> bytes \<Rightarrow> 'a list" where
  "dec_array w n dec bs = map (\<lambda>j. dec (slice (j * w) w bs)) [0..<n]"

lemma length_dec_array [simp, length_simps]: "length (dec_array w n dec bs) = n"
  by (simp add: dec_array_def)

lemma nth_dec_array: "j < n \<Longrightarrow> dec_array w n dec bs ! j = dec (slice (j * w) w bs)"
  by (simp add: dec_array_def)

lemma item_fits: "j < n \<Longrightarrow> j * w + w \<le> n * (w :: nat)"
  by (metis Suc_leI add.commute mult_Suc mult_le_mono1)

lemma items_disjoint: "i \<noteq> j \<Longrightarrow> i * w + w \<le> j * w \<or> j * w + w \<le> i * (w :: nat)"
  using item_fits [of i j w] item_fits [of j i w] by (cases i j rule: linorder_cases) auto

context byte_codec
begin

lemma length_enc_array: "\<forall>x \<in> set xs. valid x \<Longrightarrow> length (enc_array enc xs) = length xs * w"
  by (induction xs) (simp_all add: enc_array_def length_enc)

lemma slice_enc_array:
  "\<forall>x \<in> set xs. valid x \<Longrightarrow> j < length xs \<Longrightarrow> slice (j * w) w (enc_array enc xs) = enc (xs ! j)"
proof (induction xs arbitrary: j)
  case (Cons x xs)
  then have lx: "length (enc x) = w" by (simp add: length_enc)
  show ?case
  proof (cases j)
    case 0
    with lx show ?thesis by (simp add: enc_array_def slice_0_append)
  next
    case (Suc i)
    with Cons lx show ?thesis
      by (simp add: enc_array_def slice_append_right)
  qed
qed simp

lemma dec_enc_array:
  "\<forall>x \<in> set xs. valid x \<Longrightarrow> length xs = n \<Longrightarrow> dec_array w n dec (enc_array enc xs) = xs"
  by (rule list_eq_iff_nth_eq' [where n = n]) (simp_all add: nth_dec_array slice_enc_array dec_enc)

lemma enc_dec_array: "length bs = n * w \<Longrightarrow> enc_array enc (dec_array w n dec bs) = bs"
proof (induction n arbitrary: bs)
  case (Suc n)
  let ?hd = "take w bs" and ?tl = "drop w bs"
  have "length ?tl = n * w" using Suc.prems by simp
  from Suc.IH [OF this] have IH: "enc_array enc (dec_array w n dec ?tl) = ?tl" .
  have "dec_array w (Suc n) dec bs = dec ?hd # dec_array w n dec ?tl"
    unfolding dec_array_def
    by (simp add: upt_conv_Cons map_Suc_upt [symmetric] slice_def comp_def add.commute
        del: upt_Suc)
  with IH show ?case using Suc.prems by (simp add: enc_array_def enc_dec)
qed (simp add: enc_array_def dec_array_def)

text \<open>Writing item \<open>i\<close> of the buffer updates item \<open>i\<close> of the decoded array.\<close>

lemma dec_array_write:
  assumes "valid x" "i < n" "length m = n * w"
  shows "dec_array w n dec (splice (i * w) (enc x) m) = (dec_array w n dec m)[i := x]"
proof (rule list_eq_iff_nth_eq' [where n = n])
  fix j assume j: "j < n"
  have fi: "i * w + w \<le> length m" and fj: "j * w + w \<le> length m"
    using item_fits [OF assms(2)] item_fits [OF j] assms(3) by simp_all
  show "dec_array w n dec (splice (i * w) (enc x) m) ! j = (dec_array w n dec m)[i := x] ! j"
  proof (cases "i = j")
    case True
    then show ?thesis using j fi assms by (simp add: nth_dec_array read_after_write)
  next
    case False
    then show ?thesis using j fi fj assms items_disjoint [of j i w]
      by (simp add: nth_dec_array read_other)
  qed
qed simp_all

text \<open>A loop that writes items \<open>0, \<dots>, k - 1\<close> one after the other.\<close>

lemma fold_write:
  "k \<le> length xs \<Longrightarrow> \<forall>x \<in> set xs. valid x \<Longrightarrow> k * w \<le> length out \<Longrightarrow>
    fold (\<lambda>i. splice (i * w) (enc (xs ! i))) [0..<k] out = enc_array enc (take k xs) @ drop (k * w) out"
proof (induction k)
  case (Suc k)
  have v: "\<forall>x \<in> set (take k xs). valid x" using Suc.prems(2) by (auto dest: in_set_takeD)
  have l: "length (enc_array enc (take k xs)) = k * w"
    using length_enc_array [OF v] Suc.prems(1) by simp
  have e: "length (enc (xs ! k)) = w" using Suc.prems by (simp add: length_enc)
  have "splice (k * w) (enc (xs ! k)) (enc_array enc (take k xs) @ drop (k * w) out) =
      enc_array enc (take k xs) @ enc (xs ! k) @ drop (Suc k * w) out"
    using l e by (simp add: splice_def add.commute)
  moreover have "enc_array enc (take (Suc k) xs) = enc_array enc (take k xs) @ enc (xs ! k)"
    using Suc.prems(1) by (simp add: enc_array_def take_Suc_conv_app_nth)
  ultimately show ?case using Suc by simp
qed (simp add: enc_array_def)

text \<open>The same loop at an offset of a larger buffer is one write of the encoded array.\<close>

lemma fold_write_at:
  "k \<le> length xs \<Longrightarrow> \<forall>x \<in> set xs. valid x \<Longrightarrow> off + k * w \<le> length out \<Longrightarrow>
    fold (\<lambda>i. splice (off + i * w) (enc (xs ! i))) [0..<k] out = splice off (enc_array enc (take k xs)) out"
proof (induction k)
  case (Suc k)
  have v: "\<forall>x \<in> set (take k xs). valid x" using Suc.prems(2) by (auto dest: in_set_takeD)
  have l: "k * w = length (enc_array enc (take k xs))"
    using length_enc_array [OF v] Suc.prems(1) by simp
  have e: "length (enc (xs ! k)) = w" using Suc.prems by (simp add: length_enc)
  have "enc_array enc (take (Suc k) xs) = enc_array enc (take k xs) @ enc (xs ! k)"
    using Suc.prems(1) by (simp add: enc_array_def take_Suc_conv_app_nth)
  moreover have "off + k * w + length (enc (xs ! k)) \<le> length out" using Suc.prems e by simp
  ultimately show ?case using Suc splice_splice_adjacent [OF l] by simp
qed (simp add: enc_array_def)

end

locale array_codec = byte_codec +
  fixes n :: nat
  assumes n_pos: "0 < n"

sublocale array_codec \<subseteq> arr: byte_codec "n * w"
  "\<lambda>xs. length xs = n \<and> (\<forall>x \<in> set xs. valid x)" "enc_array enc" "dec_array w n dec"
proof unfold_locales
  show "0 < n * w" using w_pos n_pos by simp
next
  fix bs :: bytes assume l: "length bs = n * w"
  show "length (dec_array w n dec bs) = n \<and> (\<forall>x \<in> set (dec_array w n dec bs). valid x)"
    using l item_fits [of _ n w] by (auto simp: dec_array_def intro!: valid_read)
qed (simp_all add: length_enc_array dec_enc_array enc_dec_array)

section \<open>Reads and writes of \<open>crypto/common.h\<close>\<close>

text \<open>
  \<open>memcpy\<close> followed by \<open>le64toh_internal\<close> reads the bytes at \<open>ptr\<close> least significant
  first on every host; the big-endian variants read them in the opposite order. A pointer is
  a buffer and an offset into it.
\<close>

definition ReadLE32 :: "bytes \<Rightarrow> nat \<Rightarrow> u32" where
  "ReadLE32 buf p = le_word (slice p 4 buf)"

definition ReadLE64 :: "bytes \<Rightarrow> nat \<Rightarrow> u64" where
  "ReadLE64 buf p = le_word (slice p 8 buf)"

definition WriteLE32 :: "bytes \<Rightarrow> nat \<Rightarrow> u32 \<Rightarrow> bytes" where
  "WriteLE32 buf p x = splice p (le_bytes 4 x) buf"

definition WriteLE64 :: "bytes \<Rightarrow> nat \<Rightarrow> u64 \<Rightarrow> bytes" where
  "WriteLE64 buf p x = splice p (le_bytes 8 x) buf"

definition ReadBE32 :: "bytes \<Rightarrow> nat \<Rightarrow> u32" where
  "ReadBE32 buf p = le_word (rev (slice p 4 buf))"

definition WriteBE32 :: "bytes \<Rightarrow> nat \<Rightarrow> u32 \<Rightarrow> bytes" where
  "WriteBE32 buf p x = splice p (rev (le_bytes 4 x)) buf"

definition WriteBE64 :: "bytes \<Rightarrow> nat \<Rightarrow> u64 \<Rightarrow> bytes" where
  "WriteBE64 buf p x = splice p (rev (le_bytes 8 x)) buf"

interpretation le64: byte_codec 8 "\<lambda>_ :: u64. True" "le_bytes 8" le_word
  by unfold_locales (simp_all add: le_word_le_bytes_id le_bytes_le_word_eq)

interpretation be32: byte_codec 4 "\<lambda>_ :: u32. True" "\<lambda>x. rev (le_bytes 4 x)" "\<lambda>bs. le_word (rev bs)"
  by unfold_locales (simp_all add: le_word_le_bytes_id le_bytes_le_word_eq)

interpretation le64x8: array_codec 8 "\<lambda>_ :: u64. True" "le_bytes 8" le_word 8
  by unfold_locales simp

section \<open>\<open>serialization.cpp\<close>\<close>

definition AppendBytes :: "bytes \<Rightarrow> bytes \<Rightarrow> bytes" where
  "AppendBytes out bs = out @ bs"

definition AppendLE16 :: "bytes \<Rightarrow> u16 \<Rightarrow> bytes" where
  "AppendLE16 out value = out @ [ucast value, ucast (drop_bit 8 value)]"

definition AppendLE32 :: "bytes \<Rightarrow> u32 \<Rightarrow> bytes" where
  "AppendLE32 out value = out @
    [ucast value, ucast (drop_bit 8 value), ucast (drop_bit 16 value), ucast (drop_bit 24 value)]"

definition AppendLE64 :: "bytes \<Rightarrow> u64 \<Rightarrow> bytes" where
  "AppendLE64 out value =
    fold (\<lambda>shift out. out @ [ucast (drop_bit shift value)]) [0, 8, 16, 24, 32, 40, 48, 56] out"

definition AppendCompactSize :: "bytes \<Rightarrow> u64 \<Rightarrow> bytes" where
  "AppendCompactSize out value =
    (if value < 253 then out @ [ucast value]
     else if value \<le> 0xffff then AppendLE16 (out @ [253]) (ucast value)
     else if value \<le> 0xffffffff then AppendLE32 (out @ [254]) (ucast value)
     else AppendLE64 (out @ [255]) value)"

lemma AppendLE16_eq: "AppendLE16 out v = out @ le_bytes 2 v"
  by (simp add: AppendLE16_def numeral_2_eq_2)

lemma AppendLE32_eq: "AppendLE32 out v = out @ le_bytes 4 v"
  by (simp add: AppendLE32_def eval_nat_numeral drop_bit_drop_bit)

lemma AppendLE64_eq: "AppendLE64 out v = out @ le_bytes 8 v"
  by (simp add: AppendLE64_def eval_nat_numeral drop_bit_drop_bit)

text \<open>
  \<open>CompactSize_spec\<close> is the encoding as bytes; \<open>read_compact\<close> is the decoder of the wire
  format (marker bytes 253, 254 and 255 announce 2, 4 and 8 little-endian bytes), against which
  the serialiser is checked.
\<close>

definition compact_bytes :: "u64 \<Rightarrow> bytes" where
  "compact_bytes v = AppendCompactSize [] v"

fun read_compact :: "bytes \<Rightarrow> (u64 \<times> bytes) option" where
  "read_compact [] = None"
| "read_compact (b # bs) =
    (let n = (if b < 253 then 0 else if b = 253 then 2 else if b = 254 then 4 else 8)
     in if length bs < n then None
        else if n = 0 then Some (ucast b, bs)
        else Some (le_word (take n bs), drop n bs))"

lemma compact_bytes_eq:
  "compact_bytes v =
    (if v < 253 then [ucast v] else if v \<le> 0xffff then 253 # le_bytes 2 v
     else if v \<le> 0xffffffff then 254 # le_bytes 4 v else 255 # le_bytes 8 v)"
  by (simp add: compact_bytes_def AppendCompactSize_def AppendLE16_eq AppendLE32_eq AppendLE64_eq
      le_bytes_ucast)

lemma AppendCompactSize_eq: "AppendCompactSize out v = out @ compact_bytes v"
  by (simp add: compact_bytes_def AppendCompactSize_def AppendLE16_eq AppendLE32_eq AppendLE64_eq)

lemma length_compact_bytes: "length (compact_bytes v) =
    (if v < 253 then 1 else if v \<le> 0xffff then 3 else if v \<le> 0xffffffff then 5 else 9)"
  by (simp add: compact_bytes_eq)

lemma read_compact_compact_bytes: "read_compact (compact_bytes v @ rest) = Some (v, rest)"
proof -
  consider "v < 253" | "\<not> v < 253" "v \<le> 0xffff" | "\<not> v < 253" "\<not> v \<le> 0xffff" "v \<le> 0xffffffff"
    | "\<not> v < 253" "\<not> v \<le> 0xffff" "\<not> v \<le> 0xffffffff" by blast
  then show ?thesis
  proof cases
    case 1
    then have u: "unat v < 253" by (simp add: word_less_nat_alt)
    then have "(ucast v :: byte) < 253" "ucast (ucast v :: byte) = v"
      using ucast_byte_small [of v] 
      by (simp_all only: word_less_nat_alt word_unat_eq_iff) simp_all
    with 1 show ?thesis by (simp add: compact_bytes_eq)
  next
    case 2
    then have "take_bit 16 v = v" by (intro take_bit_word_small) (simp add: word_le_nat_alt)
    with 2 show ?thesis by (simp add: compact_bytes_eq le_word_le_bytes)
  next
    case 3
    then have "take_bit 32 v = v" by (intro take_bit_word_small) (simp add: word_le_nat_alt)
    with 3 show ?thesis by (simp add: compact_bytes_eq le_word_le_bytes)
  next
    case 4
    then show ?thesis by (simp add: compact_bytes_eq le_word_le_bytes_id)
  qed
qed

section \<open>Properties\<close>

text \<open>The compact-size prefix written for any 64-bit count is read back by a reader that sees
  only the bytes, whatever follows it, and it has one, three, five or nine bytes.\<close>

theorem AppendCompactSize_roundtrip:
  "\<exists>prefix. AppendCompactSize out v = out @ prefix \<and> read_compact (prefix @ rest) = Some (v, rest) \<and>
    length prefix \<in> {1, 3, 5, 9}"
proof (intro exI conjI)
  show "AppendCompactSize out v = out @ compact_bytes v" by (rule AppendCompactSize_eq)
  show "read_compact (compact_bytes v @ rest) = Some (v, rest)" by (rule read_compact_compact_bytes)
  show "length (compact_bytes v) \<in> {1, 3, 5, 9}" by (simp add: length_compact_bytes)
qed

end
