(* ===== verification/Absorb.thy ===== *)
theory Absorb
  imports Codec
begin

text \<open>
  The interface both hash classes provide to their clients: data is absorbed in blocks of
  \<open>B\<close> bytes by a step function, an incomplete block waits in a buffer, and it does not matter
  how a message is cut into calls of \<open>Write\<close>.
\<close>

section \<open>Absorbing whole blocks\<close>

definition absorb_blocks :: "nat \<Rightarrow> ('s \<Rightarrow> bytes \<Rightarrow> 's) \<Rightarrow> 's \<Rightarrow> bytes \<Rightarrow> 's" where
  "absorb_blocks B step s data =
    fold (\<lambda>i s. step s (slice (i * B) B data)) [0..<length data div B] s"

definition unabsorbed :: "nat \<Rightarrow> bytes \<Rightarrow> bytes" where
  "unabsorbed B data = drop (B * (length data div B)) data"

lemma fold_upt_shift: "fold f [Suc m..<Suc n] s = fold (\<lambda>i. f (Suc i)) [m..<n] s"
  by (simp add: map_Suc_upt [symmetric] fold_map comp_def del: upt_Suc)

lemma fold_upt_cong:
  "(\<And>i s. m \<le> i \<Longrightarrow> i < n \<Longrightarrow> f i s = g i s) \<Longrightarrow> fold f [m..<n] s = fold g [m..<n] s"
  by (rule fold_cong) auto

lemma absorb_blocks_short [simp]: "length data < B \<Longrightarrow> absorb_blocks B step s data = s"
  by (simp add: absorb_blocks_def)

lemma unabsorbed_short [simp]: "length data < B \<Longrightarrow> unabsorbed B data = data"
  by (simp add: unabsorbed_def)

lemma absorb_blocks_step:
  assumes "0 < B" "B \<le> length data"
  shows "absorb_blocks B step s data = absorb_blocks B step (step s (take B data)) (drop B data)"
proof -
  let ?n = "length (drop B data) div B"
  have n: "length data div B = Suc ?n" using assms by (simp add: le_div_geq)
  have "fold (\<lambda>i s. step s (slice (i * B) B data)) [0..<Suc ?n] s =
      fold (\<lambda>i s. step s (slice (Suc i * B) B data)) [0..<?n] (step s (take B data))"
    by (simp add: upt_conv_Cons fold_upt_shift slice_def del: upt_Suc)
  also have "\<dots> = fold (\<lambda>i s. step s (slice (i * B) B (drop B data))) [0..<?n] (step s (take B data))"
    by (rule fold_upt_cong) (simp add: slice_def add.commute)
  finally show ?thesis by (simp only: absorb_blocks_def n)
qed

lemma unabsorbed_step:
  "0 < B \<Longrightarrow> B \<le> length data \<Longrightarrow> unabsorbed B data = unabsorbed B (drop B data)"
  by (simp add: unabsorbed_def le_div_geq add.commute)

lemma length_unabsorbed: "length (unabsorbed B data) = length data mod B"
  by (simp add: unabsorbed_def minus_mult_div_eq_mod)

lemma length_unabsorbed_less [simp]: "0 < B \<Longrightarrow> length (unabsorbed B data) < B"
  by (simp add: length_unabsorbed)

lemma absorb_append:
  "0 < B \<Longrightarrow> absorb_blocks B step s (xs @ ys) =
      absorb_blocks B step (absorb_blocks B step s xs) (unabsorbed B xs @ ys)
    \<and> unabsorbed B (xs @ ys) = unabsorbed B (unabsorbed B xs @ ys)"
proof (induction "length xs" arbitrary: xs s rule: less_induct)
  case less
  show ?case
  proof (cases "length xs < B")
    case False
    then have "length (drop B xs) < length xs" using less.prems by simp
    from less.hyps [OF this less.prems] False less.prems show ?thesis
      by (simp add: absorb_blocks_step unabsorbed_step [of B xs] unabsorbed_step [of B "xs @ ys"])
  qed simp
qed

lemma absorb_blocks_whole:
  "0 < B \<Longrightarrow> length xs = B \<Longrightarrow> absorb_blocks B step s (xs @ ys) = absorb_blocks B step (step s xs) ys"
  by (simp add: absorb_blocks_step)

lemma unabsorbed_whole: "0 < B \<Longrightarrow> length xs = B \<Longrightarrow> unabsorbed B (xs @ ys) = unabsorbed B ys"
  by (simp add: unabsorbed_step)

lemma absorbed_plus_unabsorbed: "B * (length data div B) + length (unabsorbed B data) = length data"
  by (simp add: length_unabsorbed)

section \<open>The interface of a buffering hasher\<close>

locale buffered_hasher =
  fixes B :: nat
    and step :: "'s \<Rightarrow> bytes \<Rightarrow> 's"
    and st :: "'h \<Rightarrow> 's"
    and pend :: "'h \<Rightarrow> bytes"
    and invar :: "'h \<Rightarrow> bool"
    and wr :: "'h \<Rightarrow> bytes \<Rightarrow> 'h"
  assumes B_pos: "0 < B"
    and pend_less: "invar h \<Longrightarrow> length (pend h) < B"
    and invar_wr: "invar h \<Longrightarrow> invar (wr h data)"
    and st_wr: "invar h \<Longrightarrow> st (wr h data) = absorb_blocks B step (st h) (pend h @ data)"
    and pend_wr: "invar h \<Longrightarrow> pend (wr h data) = unabsorbed B (pend h @ data)"
begin

lemma wr_append:
  assumes "invar h"
  shows "st (wr (wr h xs) ys) = st (wr h (xs @ ys))"
    and "pend (wr (wr h xs) ys) = pend (wr h (xs @ ys))"
  using assms absorb_append [OF B_pos, of step "st h" "pend h @ xs" ys]
  by (simp_all add: invar_wr st_wr pend_wr)

text \<open>A whole sequence of writes is one write of the concatenation.\<close>

lemma wr_concat:
  "invar h \<Longrightarrow> invar (foldl wr h ds) \<and>
    st (foldl wr h ds) = absorb_blocks B step (st h) (pend h @ concat ds) \<and>
    pend (foldl wr h ds) = unabsorbed B (pend h @ concat ds)"
proof (induction ds arbitrary: h)
  case Nil
  then show ?case by (simp add: pend_less)
next
  case (Cons d ds)
  then show ?case
    using absorb_append [OF B_pos, of step "st h" "pend h @ d" "concat ds"]
    by (simp add: invar_wr st_wr pend_wr)
qed

end

end
