(* ===== verification/Sha3.thy ===== *)
theory Sha3
  imports Absorb
begin

text \<open>
  \<open>src/crypto/sha3.h\<close> and \<open>src/crypto/sha3.cpp\<close>: the Keccak permutation on 25 lanes and the
  sponge classes \<open>SHA3_256\<close>, \<open>SHA3_384\<close> and \<open>SHA3_512\<close>, which differ only in their rate and
  output length. The lemmas give the permutation as the coordinate-wise rounds of FIPS 202 and
  the classes as pad-and-absorb over the whole message.
\<close>

section \<open>The permutation\<close>

text \<open>\<open>st[i] ^= x\<close>, and the same value into a column of five lanes.\<close>

definition xor_at :: "u64 list \<Rightarrow> nat \<Rightarrow> u64 \<Rightarrow> u64 list" where
  "xor_at st i x = st[i := st ! i XOR x]"

lemma word_rotl_0' [simp]: "word_rotl 0 (x :: 'a::len word) = x"
  by (rule bit_word_eqI) (simp add: bit_word_rotl_iff)

definition RNDC :: "u64 list" where
  "RNDC = [0x0000000000000001, 0x0000000000008082, 0x800000000000808a, 0x8000000080008000,
    0x000000000000808b, 0x0000000080000001, 0x8000000080008081, 0x8000000000008009,
    0x000000000000008a, 0x0000000000000088, 0x0000000080008009, 0x000000008000000a,
    0x000000008000808b, 0x800000000000008b, 0x8000000000008089, 0x8000000000008003,
    0x8000000000008002, 0x8000000000000080, 0x000000000000800a, 0x800000008000000a,
    0x8000000080008081, 0x8000000000008080, 0x0000000080000001, 0x8000000080008008]"

definition Theta :: "u64 list \<Rightarrow> u64 list" where
  "Theta st =
    (let bc0 = st ! 0 XOR st ! 5 XOR st ! 10 XOR st ! 15 XOR st ! 20;
         bc1 = st ! 1 XOR st ! 6 XOR st ! 11 XOR st ! 16 XOR st ! 21;
         bc2 = st ! 2 XOR st ! 7 XOR st ! 12 XOR st ! 17 XOR st ! 22;
         bc3 = st ! 3 XOR st ! 8 XOR st ! 13 XOR st ! 18 XOR st ! 23;
         bc4 = st ! 4 XOR st ! 9 XOR st ! 14 XOR st ! 19 XOR st ! 24;
         t = bc4 XOR word_rotl 1 bc1;
         st = fold (\<lambda>i st. xor_at st i t) [0, 5, 10, 15, 20] st;
         t = bc0 XOR word_rotl 1 bc2;
         st = fold (\<lambda>i st. xor_at st i t) [1, 6, 11, 16, 21] st;
         t = bc1 XOR word_rotl 1 bc3;
         st = fold (\<lambda>i st. xor_at st i t) [2, 7, 12, 17, 22] st;
         t = bc2 XOR word_rotl 1 bc4;
         st = fold (\<lambda>i st. xor_at st i t) [3, 8, 13, 18, 23] st;
         t = bc3 XOR word_rotl 1 bc0
     in fold (\<lambda>i st. xor_at st i t) [4, 9, 14, 19, 24] st)"

text \<open>
  The 23 statements \<open>bc0 = st[i]; st[i] = rotl(t, r); t = bc0;\<close> of the source, in its order, as
  the pairs \<open>(i, r)\<close>; the chain ends with \<open>st[1] = rotl(t, 44)\<close>.
\<close>

definition RHO_PI :: "(nat \<times> nat) list" where
  "RHO_PI = [(10, 1), (7, 3), (11, 6), (17, 10), (18, 15), (3, 21), (5, 28), (16, 36),
    (8, 45), (21, 55), (24, 2), (4, 14), (15, 27), (23, 41), (19, 56), (13, 8),
    (12, 25), (2, 43), (20, 62), (14, 18), (22, 39), (9, 61), (6, 20)]"

definition RhoPi :: "u64 list \<Rightarrow> u64 list" where
  "RhoPi st =
    (let (st, t) = fold (\<lambda>(i, r) (st, t). (st[i := word_rotl r t], st ! i)) RHO_PI (st, st ! 1)
     in st[1 := word_rotl 44 t])"

definition Chi_row :: "nat \<Rightarrow> u64 list \<Rightarrow> u64 list" where
  "Chi_row b st =
    (let bc0 = st ! b; bc1 = st ! (b + 1); bc2 = st ! (b + 2); bc3 = st ! (b + 3); bc4 = st ! (b + 4)
     in st[b := bc0 XOR (NOT bc1 AND bc2), b + 1 := bc1 XOR (NOT bc2 AND bc3),
           b + 2 := bc2 XOR (NOT bc3 AND bc4), b + 3 := bc3 XOR (NOT bc4 AND bc0),
           b + 4 := bc4 XOR (NOT bc0 AND bc1)])"

definition ChiIota :: "u64 \<Rightarrow> u64 list \<Rightarrow> u64 list" where
  "ChiIota rc st = xor_at (fold Chi_row [0, 5, 10, 15, 20] st) 0 rc"

definition KeccakRound :: "u64 \<Rightarrow> u64 list \<Rightarrow> u64 list" where
  "KeccakRound rc st = ChiIota rc (RhoPi (Theta st))"

definition KeccakF :: "u64 list \<Rightarrow> u64 list" where
  "KeccakF st = fold KeccakRound RNDC st"

lemma length_xor_at [simp, length_simps]: "length (xor_at st i x) = length st"
  by (simp add: xor_at_def)

lemma nth_xor_at: "i < length st \<Longrightarrow> xor_at st i x ! j = (if i = j then st ! j XOR x else st ! j)"
  by (simp add: xor_at_def)

lemma length_fold_same:
  "(\<And>x s. length (f x s) = length s) \<Longrightarrow> length (fold f xs s) = length s"
  by (induction xs arbitrary: s) simp_all

lemma length_Theta [simp, length_simps]: "length (Theta st) = length st"
  by (simp add: Theta_def Let_def length_fold_same)

lemma length_RhoPi [simp, length_simps]: "length (RhoPi st) = length st"
proof -
  have "length (fst (fold (\<lambda>(i, r) (st, t). (st[i := word_rotl r t], st ! i)) xs (st, t))) = length st"
    for xs and st :: "u64 list" and t
    by (induction xs arbitrary: st t) (simp_all split: prod.split)
  from this [of RHO_PI st "st ! 1"] show ?thesis
    by (simp add: RhoPi_def Let_def case_prod_beta)
qed

lemma length_Chi_row [simp, length_simps]: "length (Chi_row b st) = length st"
  by (simp add: Chi_row_def Let_def)

lemma length_KeccakRound [simp, length_simps]: "length (KeccakRound rc st) = length st"
  by (simp add: KeccakRound_def ChiIota_def length_fold_same)

lemma length_KeccakF [simp, length_simps]: "length (KeccakF st) = length st"
  by (simp add: KeccakF_def length_fold_same)

section \<open>The sponge classes\<close>

record SHA3 =
  m_state :: "u64 list"
  m_buffer :: bytes
  m_bufsize :: nat
  m_pos :: nat

text \<open>
  A fresh object: zero state, empty buffer. The eight bytes of \<open>m_buffer\<close> have no
  initialiser in the source; they are the argument \<open>mem\<close>.
\<close>

definition SHA3_new :: "bytes \<Rightarrow> SHA3" where
  "SHA3_new mem = \<lparr>m_state = replicate 25 0, m_buffer = mem, m_bufsize = 0, m_pos = 0\<rparr>"

text \<open>\<open>m_state[m_pos++] ^= x; if (m_pos == RATE_BUFFERS) { KeccakF(m_state); m_pos = 0; }\<close>\<close>

definition absorb_lane :: "nat \<Rightarrow> u64 \<Rightarrow> SHA3 \<Rightarrow> SHA3" where
  "absorb_lane rate x h =
    (let st = xor_at (m_state h) (m_pos h) x; pos = m_pos h + 1
     in if pos = rate then h\<lparr>m_state := KeccakF st, m_pos := 0\<rparr>
        else h\<lparr>m_state := st, m_pos := pos\<rparr>)"

function SHA3_write_loop :: "nat \<Rightarrow> SHA3 \<Rightarrow> bytes \<Rightarrow> SHA3 \<times> bytes" where
  "SHA3_write_loop rate h data =
    (if length data \<ge> 8 then SHA3_write_loop rate (absorb_lane rate (ReadLE64 data 0) h) (drop 8 data)
     else (h, data))"
  by pat_completeness auto
termination
  by (relation "measure (\<lambda>(rate, h, data). length data)") auto

declare SHA3_write_loop.simps [simp del]

definition SHA3_Write :: "nat \<Rightarrow> SHA3 \<Rightarrow> bytes \<Rightarrow> SHA3" where
  "SHA3_Write rate h data =
    (let (h, data) =
        (if m_bufsize h \<noteq> 0 \<and> length data \<ge> 8 - m_bufsize h
         then let n = 8 - m_bufsize h;
                  buffer = splice (m_bufsize h) (take n data) (m_buffer h)
              in (absorb_lane rate (ReadLE64 buffer 0) (h\<lparr>m_buffer := buffer, m_bufsize := 0\<rparr>),
                  drop n data)
         else (h, data));
         (h, data) = SHA3_write_loop rate h data
     in if data \<noteq> []
        then h\<lparr>m_buffer := splice (m_bufsize h) data (m_buffer h),
               m_bufsize := m_bufsize h + length data\<rparr>
        else h)"

definition SHA3_Finalize :: "nat \<Rightarrow> nat \<Rightarrow> SHA3 \<Rightarrow> bytes \<Rightarrow> SHA3 \<times> bytes" where
  "SHA3_Finalize rate words h output =
    (let buffer = splice (m_bufsize h) (replicate (8 - m_bufsize h) 0) (m_buffer h);
         buffer = buffer[m_bufsize h := buffer ! m_bufsize h XOR 0x06];
         st = xor_at (m_state h) (m_pos h) (ReadLE64 buffer 0);
         st = xor_at st (rate - 1) 0x8000000000000000;
         st = KeccakF st;
         output = fold (\<lambda>i output. WriteLE64 output (8 * i) (st ! i)) [0..<words] output
     in (h\<lparr>m_buffer := buffer, m_state := st\<rparr>, output))"

definition SHA3_Reset :: "SHA3 \<Rightarrow> SHA3" where
  "SHA3_Reset h = h\<lparr>m_bufsize := 0, m_pos := 0, m_state := replicate (length (m_state h)) 0\<rparr>"

definition SHA3_256_Write :: "SHA3 \<Rightarrow> bytes \<Rightarrow> SHA3" where
  "SHA3_256_Write = SHA3_Write 17"

definition SHA3_256_Finalize :: "SHA3 \<Rightarrow> bytes \<Rightarrow> SHA3 \<times> bytes" where
  "SHA3_256_Finalize = SHA3_Finalize 17 4"

definition SHA3_256_Reset :: "SHA3 \<Rightarrow> SHA3" where
  "SHA3_256_Reset = SHA3_Reset"

definition SHA3_512_Write :: "SHA3 \<Rightarrow> bytes \<Rightarrow> SHA3" where
  "SHA3_512_Write = SHA3_Write 9"

definition SHA3_512_Finalize :: "SHA3 \<Rightarrow> bytes \<Rightarrow> SHA3 \<times> bytes" where
  "SHA3_512_Finalize = SHA3_Finalize 9 8"

definition SHA3_512_Reset :: "SHA3 \<Rightarrow> SHA3" where
  "SHA3_512_Reset = SHA3_Reset"

definition SHA3_384_Write :: "SHA3 \<Rightarrow> bytes \<Rightarrow> SHA3" where
  "SHA3_384_Write = SHA3_Write 13"

definition SHA3_384_Finalize :: "SHA3 \<Rightarrow> bytes \<Rightarrow> SHA3 \<times> bytes" where
  "SHA3_384_Finalize = SHA3_Finalize 13 6"

definition SHA3_384_Reset :: "SHA3 \<Rightarrow> SHA3" where
  "SHA3_384_Reset = SHA3_Reset"

section \<open>The permutation in coordinates\<close>

text \<open>
  The rounds of FIPS 202 over the lanes \<open>A[x, y] = st[x + 5 * y]\<close>, coordinates modulo 5. The
  rotation of lane \<open>(x, y)\<close> is \<open>(t + 1) * (t + 2) div 2\<close> for the \<open>t\<close> at which the walk
  \<open>(x, y) := (y, 2 * x + 3 * y)\<close> from \<open>(1, 0)\<close> reaches it.
\<close>

definition lane :: "u64 list \<Rightarrow> nat \<Rightarrow> nat \<Rightarrow> u64" where
  "lane st x y = st ! (x mod 5 + 5 * (y mod 5))"

definition of_lanes :: "(nat \<Rightarrow> nat \<Rightarrow> u64) \<Rightarrow> u64 list" where
  "of_lanes A = map (\<lambda>i. A (i mod 5) (i div 5)) [0..<25]"

definition theta_spec :: "u64 list \<Rightarrow> u64 list" where
  "theta_spec st =
    (let C = (\<lambda>x. lane st x 0 XOR lane st x 1 XOR lane st x 2 XOR lane st x 3 XOR lane st x 4)
     in of_lanes (\<lambda>x y. lane st x y XOR (C (x + 4) XOR word_rotl 1 (C (x + 1)))))"

fun rho_walk :: "nat \<Rightarrow> nat \<Rightarrow> nat \<Rightarrow> nat \<Rightarrow> nat \<Rightarrow> nat" where
  "rho_walk 0 t a b i = 0"
| "rho_walk (Suc n) t a b i =
    (if a + 5 * b = i then (t + 1) * (t + 2) div 2 mod 64
     else rho_walk n (t + 1) b ((2 * a + 3 * b) mod 5) i)"

definition rho_offset :: "nat \<Rightarrow> nat \<Rightarrow> nat" where
  "rho_offset x y = rho_walk 24 0 1 0 (x mod 5 + 5 * (y mod 5))"

text \<open>\<open>B[y, 2 * x + 3 * y] = rotl(A[x, y], r[x, y])\<close>, solved for the target lane.\<close>

definition rho_pi_spec :: "u64 list \<Rightarrow> u64 list" where
  "rho_pi_spec st = of_lanes (\<lambda>x y. word_rotl (rho_offset (x + 3 * y) x) (lane st (x + 3 * y) x))"

definition chi_spec :: "u64 list \<Rightarrow> u64 list" where
  "chi_spec st = of_lanes (\<lambda>x y. lane st x y XOR (NOT (lane st (x + 1) y) AND lane st (x + 2) y))"

definition keccak_round_spec :: "u64 \<Rightarrow> u64 list \<Rightarrow> u64 list" where
  "keccak_round_spec rc st = (chi_spec (rho_pi_spec (theta_spec st)))[0 :=
    chi_spec (rho_pi_spec (theta_spec st)) ! 0 XOR rc]"

lemma upt_25: "[0..<25] = [0, 1, 2, 3, 4, 5, 6, 7, 8, 9, 10, 11, 12, 13, 14, 15, 16, 17, 18, 19,
    20, 21, 22, 23, 24 :: nat]"
  by code_simp

lemma length_of_lanes [simp, length_simps]: "length (of_lanes A) = 25"
  by (simp add: of_lanes_def)

lemma length_25_cases:
  assumes "length st = 25"
  obtains a0 a1 a2 a3 a4 a5 a6 a7 a8 a9 a10 a11 a12 a13 a14 a15 a16 a17 a18 a19 a20 a21 a22 a23 a24
  where "st = [a0, a1, a2, a3, a4, a5, a6, a7, a8, a9, a10, a11, a12, a13, a14, a15, a16, a17, a18,
    a19, a20, a21, a22, a23, a24]"
proof -
  have "st = map ((!) st) [0..<25]" using map_nth [of st] assms by simp
  then show ?thesis unfolding upt_25 list.map by (rule that)
qed

lemma Theta_eq_spec: "length st = 25 \<Longrightarrow> Theta st = theta_spec st"
  by (elim length_25_cases) (simp add: Theta_def theta_spec_def of_lanes_def upt_25 lane_def xor_at_def Let_def)

lemma Chi_eq_spec: "length st = 25 \<Longrightarrow> fold Chi_row [0, 5, 10, 15, 20] st = chi_spec st"
  by (elim length_25_cases) (simp add: Chi_row_def chi_spec_def of_lanes_def upt_25 lane_def Let_def)

lemma rho_offsets: "map (\<lambda>i. rho_offset (i mod 5 + 3 * (i div 5)) (i mod 5)) [0..<25] =
    [0, 44, 43, 21, 14, 28, 20, 3, 45, 61, 1, 6, 25, 8, 18, 27, 36, 10, 15, 56, 62, 55, 39, 41, 2]"
  by code_simp

lemma rho_pi_spec_eq: "rho_pi_spec st = map2 (\<lambda>r i. word_rotl r (lane st (i mod 5 + 3 * (i div 5)) (i mod 5)))
    [0, 44, 43, 21, 14, 28, 20, 3, 45, 61, 1, 6, 25, 8, 18, 27, 36, 10, 15, 56, 62, 55, 39, 41, 2] [0..<25]"
  unfolding rho_offsets [symmetric] by (simp add: rho_pi_spec_def of_lanes_def zip_map1 zip_same_conv_map)

lemma RhoPi_eq_spec: "length st = 25 \<Longrightarrow> RhoPi st = rho_pi_spec st"
  unfolding rho_pi_spec_eq
  by (elim length_25_cases) (simp add: RhoPi_def RHO_PI_def upt_25 lane_def Let_def)

lemma length_specs [simp, length_simps]:
  "length (theta_spec st) = 25" "length (rho_pi_spec st) = 25" "length (chi_spec st) = 25"
  by (simp_all add: theta_spec_def rho_pi_spec_def chi_spec_def Let_def)

lemma KeccakRound_eq_spec: "length st = 25 \<Longrightarrow> KeccakRound rc st = keccak_round_spec rc st"
  unfolding KeccakRound_def ChiIota_def keccak_round_spec_def xor_at_def
  by (simp only: Theta_eq_spec RhoPi_eq_spec Chi_eq_spec length_specs)

lemma KeccakF_eq_spec: "length st = 25 \<Longrightarrow> KeccakF st = fold keccak_round_spec RNDC st"
proof -
  have "length st = 25 \<Longrightarrow> fold KeccakRound rcs st = fold keccak_round_spec rcs st" for rcs
    by (induction rcs arbitrary: st) (simp_all add: KeccakRound_eq_spec [symmetric])
  then show "length st = 25 \<Longrightarrow> ?thesis" by (simp add: KeccakF_def)
qed

section \<open>Streaming\<close>

text \<open>
  What the sponge has absorbed is its state and position; up to seven bytes wait in the buffer.
\<close>

definition lane_step :: "nat \<Rightarrow> u64 list \<times> nat \<Rightarrow> bytes \<Rightarrow> u64 list \<times> nat" where
  "lane_step rate p bs =
    (let st = xor_at (fst p) (snd p) (le_word bs)
     in if snd p + 1 = rate then (KeccakF st, 0) else (st, snd p + 1))"

definition sponge_state :: "SHA3 \<Rightarrow> u64 list \<times> nat" where
  "sponge_state h = (m_state h, m_pos h)"

definition sponge_pending :: "SHA3 \<Rightarrow> bytes" where
  "sponge_pending h = take (m_bufsize h) (m_buffer h)"

definition sponge_inv :: "nat \<Rightarrow> SHA3 \<Rightarrow> bool" where
  "sponge_inv rate h \<longleftrightarrow> length (m_state h) = 25 \<and> length (m_buffer h) = 8 \<and> m_bufsize h < 8 \<and>
    m_pos h < rate"

lemma sponge_inv_new [simp]: "0 < rate \<Longrightarrow> length mem = 8 \<Longrightarrow> sponge_inv rate (SHA3_new mem)"
  by (simp add: sponge_inv_def SHA3_new_def)

lemma sponge_new [simp]:
  "sponge_state (SHA3_new mem) = (replicate 25 0, 0)" "sponge_pending (SHA3_new mem) = []"
  by (simp_all add: sponge_state_def sponge_pending_def SHA3_new_def)

lemma absorb_lane_step:
  assumes "sponge_inv rate h"
  shows "sponge_inv rate (absorb_lane rate (le_word bs) h)"
    and "sponge_state (absorb_lane rate (le_word bs) h) = lane_step rate (sponge_state h) bs"
    and "m_buffer (absorb_lane rate x h) = m_buffer h" "m_bufsize (absorb_lane rate x h) = m_bufsize h"
  using assms
  by (auto simp: sponge_inv_def absorb_lane_def sponge_state_def lane_step_def Let_def)

lemma write_loop_absorbs:
  "sponge_inv rate h \<Longrightarrow> SHA3_write_loop rate h data = (h', rest) \<Longrightarrow>
    sponge_inv rate h' \<and> sponge_state h' = absorb_blocks 8 (lane_step rate) (sponge_state h) data \<and>
    rest = unabsorbed 8 data \<and> m_buffer h' = m_buffer h \<and> m_bufsize h' = m_bufsize h"
proof (induction rate h data arbitrary: h' rest rule: SHA3_write_loop.induct)
  case (1 rate h data)
  show ?case
  proof (cases "length data \<ge> 8")
    case True
    let ?h = "absorb_lane rate (ReadLE64 data 0) h"
    have r: "ReadLE64 data 0 = le_word (take 8 data)" by (simp add: ReadLE64_def slice_def)
    have "SHA3_write_loop rate ?h (drop 8 data) = (h', rest)"
      using "1.prems" True by (simp add: SHA3_write_loop.simps [of rate h data])
    from "1.IH" [OF True _ this] absorb_lane_step(1,2) [OF "1.prems"(1), of "take 8 data"] True
    show ?thesis
      by (simp add: r absorb_blocks_step unabsorbed_step [of 8 data] absorb_lane_step(3,4) [OF "1.prems"(1)])
  next
    case False
    with "1.prems" show ?thesis by (simp add: SHA3_write_loop.simps [of rate h data])
  qed
qed


lemma SHA3_Write_streams:
  assumes "sponge_inv rate h"
  shows "sponge_inv rate (SHA3_Write rate h data)
    \<and> sponge_state (SHA3_Write rate h data) =
        absorb_blocks 8 (lane_step rate) (sponge_state h) (sponge_pending h @ data)
    \<and> sponge_pending (SHA3_Write rate h data) = unabsorbed 8 (sponge_pending h @ data)"
proof -
  let ?n = "8 - m_bufsize h"
  have inv: "length (m_buffer h) = 8" "m_bufsize h < 8" using assms by (auto simp: sponge_inv_def)
  then have lp: "length (sponge_pending h) = m_bufsize h" by (simp add: sponge_pending_def)
  define fill where "fill \<longleftrightarrow> m_bufsize h \<noteq> 0 \<and> ?n \<le> length data"
  define buf where "buf = splice (m_bufsize h) (take ?n data) (m_buffer h)"
  define h1 where "h1 = (if fill then absorb_lane rate (ReadLE64 buf 0)
      (h\<lparr>m_buffer := buf, m_bufsize := 0\<rparr>) else h)"
  define d1 where "d1 = (if fill then drop ?n data else data)"
  obtain h2 d2 where loop: "SHA3_write_loop rate h1 d1 = (h2, d2)" by (rule prod.exhaust)
  have W: "SHA3_Write rate h data = (if d2 \<noteq> [] then h2\<lparr>m_buffer := splice (m_bufsize h2) d2 (m_buffer h2),
      m_bufsize := m_bufsize h2 + length d2\<rparr> else h2)"
    using loop by (auto simp: SHA3_Write_def Let_def h1_def d1_def buf_def fill_def)
  let ?goal = "\<lambda>h' d'. absorb_blocks 8 (lane_step rate) (sponge_state h') d' =
      absorb_blocks 8 (lane_step rate) (sponge_state h) (sponge_pending h @ data) \<and>
      unabsorbed 8 d' = unabsorbed 8 (sponge_pending h @ data)"
  show ?thesis
  proof (cases "fill \<or> m_bufsize h = 0")
    case True
    have h1: "sponge_inv rate h1 \<and> m_bufsize h1 = 0 \<and> ?goal h1 d1"
    proof (cases fill)
      case True
      then have n: "?n \<le> length data" by (simp add: fill_def)
      have buf: "buf = sponge_pending h @ take ?n data" "length buf = 8"
        using n inv by (simp_all add: buf_def splice_def sponge_pending_def)
      let ?h = "h\<lparr>m_buffer := buf, m_bufsize := 0\<rparr>"
      have i: "sponge_inv rate ?h" using assms buf(2) by (simp add: sponge_inv_def)
      have r: "ReadLE64 buf 0 = le_word buf" using buf(2) by (simp add: ReadLE64_def slice_def)
      have s: "sponge_state ?h = sponge_state h" by (simp add: sponge_state_def)
      have cat: "sponge_pending h @ data = buf @ drop ?n data" by (simp add: buf(1))
      show ?thesis
        using True absorb_lane_step(1,2) [OF i, of buf] absorb_lane_step(3,4) [OF i] buf(2)
        unfolding cat
        by (simp add: h1_def d1_def r s absorb_blocks_step unabsorbed_step)
    next
      case False
      with \<open>fill \<or> m_bufsize h = 0\<close> have z: "m_bufsize h = 0" by simp
      with False assms show ?thesis by (simp add: h1_def d1_def sponge_pending_def)
    qed
    from write_loop_absorbs [OF conjunct1 [OF h1] loop] h1
    have l: "sponge_inv rate h2" "m_bufsize h2 = 0"
      "sponge_state h2 = absorb_blocks 8 (lane_step rate) (sponge_state h) (sponge_pending h @ data)"
      "d2 = unabsorbed 8 (sponge_pending h @ data)" by simp_all
    then have d2: "length d2 < 8" by simp
    then have "length d2 + (8 - length d2) = 8" by simp
    moreover have "length (m_buffer h2) = 8" using l(1) by (simp add: sponge_inv_def)
    ultimately show ?thesis
      using l d2 unfolding W l(4) [symmetric]
      by (auto simp: sponge_inv_def sponge_state_def sponge_pending_def splice_def)
  next
    case False
    then have nf: "\<not> fill" and "\<not> ?n \<le> length data" unfolding fill_def by blast+
    then have short: "length (sponge_pending h @ data) < 8" using inv lp by simp
    have h1: "h1 = h" "d1 = data" using nf by (simp_all only: h1_def d1_def if_False)
    then have "h2 = h \<and> d2 = data"
      using loop short unfolding h1 by (simp add: SHA3_write_loop.simps [of rate h data])
    with short show ?thesis
      using assms inv lp unfolding W
      by (auto simp: sponge_inv_def sponge_state_def sponge_pending_def splice_def)
  qed
qed

lemma sponge_pending_less: "sponge_inv rate h \<Longrightarrow> length (sponge_pending h) < 8"
  by (simp add: sponge_inv_def sponge_pending_def)

lemmas SHA3_Write_laws = SHA3_Write_streams [THEN conjunct1]
  SHA3_Write_streams [THEN conjunct2, THEN conjunct1] SHA3_Write_streams [THEN conjunct2, THEN conjunct2]

lemma SHA3_buffered:
  "buffered_hasher 8 (lane_step rate) sponge_state sponge_pending (sponge_inv rate) (SHA3_Write rate)"
  by unfold_locales (simp_all add: SHA3_Write_laws sponge_pending_less)

interpretation sha3_512: buffered_hasher 8 "lane_step 9" sponge_state sponge_pending "sponge_inv 9" SHA3_512_Write
  unfolding SHA3_512_Write_def by (rule SHA3_buffered)

interpretation sha3_256: buffered_hasher 8 "lane_step 17" sponge_state sponge_pending "sponge_inv 17" SHA3_256_Write
  unfolding SHA3_256_Write_def by (rule SHA3_buffered)

interpretation sha3_384: buffered_hasher 8 "lane_step 13" sponge_state sponge_pending "sponge_inv 13" SHA3_384_Write
  unfolding SHA3_384_Write_def by (rule SHA3_buffered)

section \<open>Pad and absorb\<close>

text \<open>Absorbing exactly the lanes that complete the current block permutes the state once.\<close>

definition xor_lanes :: "nat \<Rightarrow> nat \<Rightarrow> bytes \<Rightarrow> u64 list \<Rightarrow> u64 list" where
  "xor_lanes pos m data st = fold (\<lambda>j st. xor_at st (pos + j) (le_word (slice (j * 8) 8 data))) [0..<m] st"

lemma length_xor_lanes [simp]: "length (xor_lanes pos m data st) = length st"
  by (simp add: xor_lanes_def length_fold_same)

lemma xor_lanes_Suc: "xor_lanes pos (Suc m) data st =
    xor_at (xor_lanes pos m data st) (pos + m) (le_word (slice (m * 8) 8 data))"
  by (simp add: xor_lanes_def)

lemma xor_lanes_Cons:
  "xor_lanes pos (Suc m) data st =
    xor_lanes (Suc pos) m (drop 8 data) (xor_at st pos (le_word (take 8 data)))"
  unfolding xor_lanes_def
  by (simp add: upt_conv_Cons fold_upt_shift slice_def add.commute del: upt_Suc)

lemma absorb_block:
  "length data = 8 * Suc m \<Longrightarrow> pos + Suc m = rate \<Longrightarrow>
    absorb_blocks 8 (lane_step rate) (st, pos) (data @ rest) =
    absorb_blocks 8 (lane_step rate) (KeccakF (xor_lanes pos (Suc m) data st), 0) rest"
proof (induction m arbitrary: pos st data)
  case 0
  then have "lane_step rate (st, pos) data = (KeccakF (xor_lanes pos (Suc 0) data st), 0)"
    by (simp add: lane_step_def xor_lanes_def slice_def)
  with 0 show ?case by (simp add: absorb_blocks_whole)
next
  case (Suc m)
  let ?hd = "take 8 data" and ?tl = "drop 8 data"
  have "data @ rest = ?hd @ (?tl @ rest)" by simp
  moreover have "length ?hd = 8" using Suc.prems by simp
  ultimately have "absorb_blocks 8 (lane_step rate) (st, pos) (data @ rest) =
      absorb_blocks 8 (lane_step rate) (lane_step rate (st, pos) ?hd) (?tl @ rest)"
    by (metis absorb_blocks_whole zero_less_numeral)
  also have "lane_step rate (st, pos) ?hd = (xor_at st pos (le_word ?hd), Suc pos)"
    using Suc.prems by (simp add: lane_step_def Let_def)
  also have "absorb_blocks 8 (lane_step rate) (xor_at st pos (le_word ?hd), Suc pos) (?tl @ rest) =
      absorb_blocks 8 (lane_step rate)
        (KeccakF (xor_lanes (Suc pos) (Suc m) ?tl (xor_at st pos (le_word ?hd))), 0) rest"
    by (rule Suc.IH) (use Suc.prems in simp_all)
  finally show ?case by (simp only: xor_lanes_Cons [symmetric])
qed

text \<open>
  The specification: append \<open>0x06\<close>, fill with zeros to a multiple of the rate, set the top bit
  of the last byte, absorb the rate-sized blocks from the zero state and output the first
  \<open>words\<close> lanes.
\<close>

definition block_step :: "nat \<Rightarrow> u64 list \<Rightarrow> bytes \<Rightarrow> u64 list" where
  "block_step rate st block = KeccakF (xor_lanes 0 rate block st)"

definition sha3_pad :: "nat \<Rightarrow> bytes \<Rightarrow> bytes" where
  "sha3_pad rate msg =
    (let n = 8 * rate * (length msg div (8 * rate) + 1);
         padded = msg @ 0x06 # replicate (n - length msg - 1) 0
     in padded[n - 1 := padded ! (n - 1) XOR 0x80])"

definition sha3_spec :: "nat \<Rightarrow> nat \<Rightarrow> bytes \<Rightarrow> bytes" where
  "sha3_spec rate words msg =
    enc_array (le_bytes 8)
      (take words (absorb_blocks (8 * rate) (block_step rate) (replicate 25 0) (sha3_pad rate msg)))"

lemma absorb_rate_blocks:
  assumes "0 < rate"
  shows "absorb_blocks 8 (lane_step rate) (st, 0) (data @ rest) =
    absorb_blocks 8 (lane_step rate) (absorb_blocks (8 * rate) (block_step rate) st data, 0)
      (unabsorbed (8 * rate) data @ rest)"
  using assms
proof (induction "length data" arbitrary: data st rule: less_induct)
  case less
  show ?case
  proof (cases "length data < 8 * rate")
    case False
    let ?hd = "take (8 * rate) data" and ?tl = "drop (8 * rate) data"
    obtain m where m: "rate = Suc m" using less.prems by (cases rate) auto
    have "length ?tl < length data" using False less.prems by simp
    have "absorb_blocks 8 (lane_step rate) (st, 0) (?hd @ (?tl @ rest)) =
        absorb_blocks 8 (lane_step rate) (block_step rate st ?hd, 0) (?tl @ rest)"
      using absorb_block [of ?hd m 0 rate st "?tl @ rest"] False m by (simp add: block_step_def)
    also have "\<dots> = absorb_blocks 8 (lane_step rate)
        (absorb_blocks (8 * rate) (block_step rate) (block_step rate st ?hd) ?tl, 0)
        (unabsorbed (8 * rate) ?tl @ rest)"
      by (rule less.hyps) (use \<open>length ?tl < length data\<close> less.prems in simp_all)
    finally have "absorb_blocks 8 (lane_step rate) (st, 0) (data @ rest) =
        absorb_blocks 8 (lane_step rate)
        (absorb_blocks (8 * rate) (block_step rate) (block_step rate st ?hd) ?tl, 0)
        (unabsorbed (8 * rate) ?tl @ rest)"
      by (metis append.assoc append_take_drop_id)
    then show ?thesis
      using False less.prems
      by (simp add: absorb_blocks_step [of "8 * rate" data] unabsorbed_step [of "8 * rate" data])
  qed simp
qed

lemma absorb_lanes_pos:
  "pos < rate \<Longrightarrow> snd (absorb_blocks 8 (lane_step rate) (st, pos) data) = (pos + length data div 8) mod rate"
proof (induction "length data" arbitrary: data st pos rule: less_induct)
  case less
  show ?case
  proof (cases "length data < 8")
    case False
    obtain st' pos' where s: "lane_step rate (st, pos) (take 8 data) = (st', pos')"
      by (rule prod.exhaust)
    then have pos': "pos' = (pos + 1) mod rate" "pos' < rate"
      using less.prems by (auto simp: lane_step_def Let_def split: if_splits)
    have "snd (absorb_blocks 8 (lane_step rate) (st', pos') (drop 8 data)) =
        (pos' + length (drop 8 data) div 8) mod rate"
      using less.hyps [OF _ pos'(2), of "drop 8 data" st'] False by simp
    moreover have "length data div 8 = Suc (length (drop 8 data) div 8)"
      using False by (simp add: le_div_geq)
    ultimately show ?thesis using False pos'(1)
      by (simp add: absorb_blocks_step s mod_add_left_eq)
  qed (use less.prems in simp)
qed

lemma xor_at_0 [simp]: "xor_at st i 0 = st"
  by (simp add: xor_at_def)

lemma xor_at_xor: "i < length st \<Longrightarrow> xor_at st i (x XOR y) = xor_at (xor_at st i x) i y"
  by (simp add: xor_at_def ac_simps)

lemma bit_top:
  "bit (0x8000000000000000 :: u64) n \<longleftrightarrow> n = 63" "bit (0x80 :: byte) n \<longleftrightarrow> n = 7"
proof -
  have "(0x8000000000000000 :: u64) = 2 ^ 63" "(0x80 :: byte) = 2 ^ 7" by simp_all
  then show "bit (0x8000000000000000 :: u64) n \<longleftrightarrow> n = 63" "bit (0x80 :: byte) n \<longleftrightarrow> n = 7"
    by (auto simp only: bit_exp_iff possible_bit_word) simp_all
qed

lemma le_word_top_bit:
  assumes "length bs = 8"
  shows "(le_word (bs[7 := bs ! 7 XOR 0x80]) :: u64) = le_word bs XOR 0x8000000000000000"
proof (rule bit_word_eqI)
  fix n assume n: "n < LENGTH(64)"
  let ?v = "bs ! 7 XOR 0x80"
  have e: "n div 8 = 7 \<and> n mod 8 = 7 \<longleftrightarrow> n = 63" by presburger
  have v: "bit ?v (n mod 8) = (bit (bs ! 7) (n mod 8) \<noteq> (n mod 8 = 7))"
    by (simp only: bit_xor_iff bit_top)
  have u: "bs[7 := ?v] ! (n div 8) = (if n div 8 = 7 then ?v else bs ! (n div 8))"
    using assms by (simp add: nth_list_update)
  have "bit (bs[7 := ?v] ! (n div 8)) (n mod 8) = (bit (bs ! (n div 8)) (n mod 8) \<noteq> (n = 63))"
  proof (cases "n div 8 = 7")
    case True
    with e have "(n mod 8 = 7) = (n = 63)" by blast
    with True v show ?thesis unfolding u by (simp only: if_True simp_thms)
  next
    case False
    with e have "n \<noteq> 63" by blast
    with False show ?thesis unfolding u by (simp only: if_False simp_thms)
  qed
  moreover have "n < 8 * length bs" using n assms by simp
  ultimately show "bit (le_word (bs[7 := ?v]) :: u64) n = bit (le_word bs XOR 0x8000000000000000 :: u64) n"
    using n unfolding bit_xor_iff bit_le_word bit_top length_list_update by blast
qed

text \<open>The digest depends on the absorbed state and the pending bytes only.\<close>

definition final_state :: "nat \<Rightarrow> u64 list \<times> nat \<Rightarrow> bytes \<Rightarrow> u64 list" where
  "final_state rate p rest =
    KeccakF (xor_at (xor_at (fst p) (snd p) (le_word (rest @ 0x06 # replicate (7 - length rest) 0)))
      (rate - 1) 0x8000000000000000)"

lemma SHA3_Finalize_output:
  assumes "sponge_inv rate h" "length output = 8 * words" "words \<le> 25"
  shows "snd (SHA3_Finalize rate words h output) =
    enc_array (le_bytes 8) (take words (final_state rate (sponge_state h) (sponge_pending h)))"
proof -
  have inv: "length (m_buffer h) = 8" "m_bufsize h < 8" "length (m_state h) = 25"
    using assms(1) by (simp_all add: sponge_inv_def)
  let ?p = "sponge_pending h"
  have lp: "length ?p = m_bufsize h" using inv by (simp add: sponge_pending_def)
  let ?buf = "splice (m_bufsize h) (replicate (8 - m_bufsize h) 0) (m_buffer h)"
  have "8 - m_bufsize h = Suc (7 - m_bufsize h)" using inv by simp
  then have buf: "?buf = ?p @ 0 # replicate (7 - m_bufsize h) 0"
    using inv by (simp add: splice_def sponge_pending_def)
  have upd: "?buf[m_bufsize h := ?buf ! m_bufsize h XOR 0x06] = ?p @ 0x06 # replicate (7 - length ?p) 0"
    unfolding buf using lp by (simp add: nth_append list_update_append)
  have rd: "ReadLE64 (?p @ 0x06 # replicate (7 - length ?p) 0) 0 =
      le_word (?p @ 0x06 # replicate (7 - length ?p) 0)"
    using lp inv by (simp add: ReadLE64_def slice_def)
  define st where "st = final_state rate (sponge_state h) ?p"
  have st: "length st = 25" using inv by (simp add: st_def final_state_def sponge_state_def)
  have "fold (\<lambda>i. splice (i * 8) (le_bytes 8 (st ! i))) [0..<words] output =
      enc_array (le_bytes 8) (take words st)"
    using le64.fold_write [where k = words and xs = st and out = "output"] st assms(2,3) by simp
  then show ?thesis
    by (simp add: SHA3_Finalize_def Let_def upd rd WriteLE64_def mult.commute [of 8]
        st_def final_state_def sponge_state_def)
qed

lemma list_update_length_plus: "(xs @ ys)[length xs + i := v] = xs @ ys[i := v]"
  by (induction xs) simp_all

lemma xor_lanes_zeros: "\<forall>j < m. slice (j * 8) 8 data = replicate 8 0 \<Longrightarrow> xor_lanes pos m data st = st"
  by (induction m) (simp_all add: xor_lanes_Suc, simp add: xor_lanes_def)

lemma xor_lanes_cong:
  "\<forall>j < m. slice (j * 8) 8 xs = slice (j * 8) 8 ys \<Longrightarrow> xor_lanes pos m xs st = xor_lanes pos m ys st"
  by (induction m) (simp_all add: xor_lanes_Suc, simp add: xor_lanes_def)

lemma xor_lanes_padded:
  assumes p: "length rest < 8" and st: "length st = 25" "pos + Suc m \<le> 25"
    and tail: "tail = rest @ 0x06 # replicate (8 * Suc m - length rest - 1) 0"
  shows "xor_lanes pos (Suc m) (tail[8 * Suc m - 1 := tail ! (8 * Suc m - 1) XOR 0x80]) st =
    xor_at (xor_at st pos (le_word (rest @ 0x06 # replicate (7 - length rest) 0))) (pos + m)
      0x8000000000000000"
proof -
  let ?last = "8 * Suc m - 1"
  let ?tail = "tail[?last := tail ! ?last XOR 0x80]"
  have lt: "length tail = 8 * Suc m" using p by (simp add: tail)
  have e: "8 - length rest = Suc (7 - length rest)" using p by simp
  have N: "min (7 - length rest) (8 * Suc m - length rest - 1) = 7 - length rest"
    "8 * Suc m - length rest - 1 - (7 - length rest) = 8 * m" using p by simp_all
  have first: "take 8 tail = rest @ 0x06 # replicate (7 - length rest) 0"
    using p by (simp only: tail take_append e take_Suc_Cons take_replicate N take_all less_imp_le)
  have rest0: "drop 8 tail = replicate (8 * m) 0"
    using p by (simp only: tail drop_append e drop_Suc_Cons drop_replicate N drop_all less_imp_le append_Nil)
  have plain: "xor_lanes pos (Suc m) tail st = xor_at st pos (le_word (take 8 tail))"
  proof -
    have "xor_lanes (Suc pos) m (drop 8 tail) s = s" for s
      by (rule xor_lanes_zeros) (auto simp: rest0 slice_def min_def)
    then show ?thesis by (simp add: xor_lanes_Cons)
  qed
  have same: "slice (j * 8) 8 ?tail = slice (j * 8) 8 tail" if "j < m" for j
  proof -
    have "8 \<le> 7 + 8 * m - j * 8" using that by simp
    then show ?thesis using that by (simp add: slice_def drop_update_swap take_update_swap list_update_beyond)
  qed
  have split: "slice (m * 8) 8 ?tail = (slice (m * 8) 8 tail)[7 := slice (m * 8) 8 tail ! 7 XOR 0x80]"
  proof -
    have "slice (m * 8) 8 tail ! 7 = tail ! ?last"
      using lt by (simp add: algebra_simps)
    then show ?thesis
      using lt by (simp add: slice_def drop_update_swap take_update_swap)
  qed
  have l8: "length (slice (m * 8) 8 tail) = 8" using lt by simp
  have head: "xor_lanes pos m ?tail st = xor_lanes pos m tail st"
    by (rule xor_lanes_cong) (use same in blast)
  have "xor_lanes pos (Suc m) ?tail st =
      xor_at (xor_lanes pos m tail st) (pos + m) (le_word (slice (m * 8) 8 tail) XOR 0x8000000000000000)"
    unfolding xor_lanes_Suc head split le_word_top_bit [OF l8] ..
  also have "\<dots> = xor_at (xor_lanes pos (Suc m) tail st) (pos + m) 0x8000000000000000"
    using st by (simp add: xor_at_xor xor_lanes_Suc)
  finally show ?thesis by (simp only: plain first)
qed

lemma length_absorb_lanes:
  "length (fst p) = 25 \<Longrightarrow> length (fst (absorb_blocks 8 (lane_step rate) p data)) = 25"
proof -
  have "length (fst p) = 25 \<Longrightarrow>
      length (fst (fold (\<lambda>i p. lane_step rate p (slice (i * 8) 8 data)) is p)) = 25" for "is"
    by (induction "is" arbitrary: p) (simp_all add: lane_step_def Let_def)
  then show "length (fst p) = 25 \<Longrightarrow> ?thesis" by (simp add: absorb_blocks_def)
qed

lemma final_state_spec:
  assumes rate: "0 < rate" "rate \<le> 25" and st0: "length st0 = 25"
  shows "final_state rate (absorb_blocks 8 (lane_step rate) (st0, 0) msg) (unabsorbed 8 msg) =
    absorb_blocks (8 * rate) (block_step rate) st0 (sha3_pad rate msg)"
proof -
  obtain st pos where sp: "absorb_blocks 8 (lane_step rate) (st0, 0) msg = (st, pos)"
    by (rule prod.exhaust)
  have st: "length st = 25" using length_absorb_lanes [of "(st0, 0)" rate msg] st0 sp by simp
  have pos: "pos = (length msg div 8) mod rate"
    using absorb_lanes_pos [of 0 rate st0 msg] rate sp by simp
  then obtain m where m: "rate = pos + Suc m" using rate
    by (metis add_Suc_right less_imp_Suc_add mod_less_divisor)
  let ?rest = "unabsorbed 8 msg"
  let ?n = "8 * rate * (length msg div (8 * rate) + 1)"
  have lmsg: "length msg = 8 * (rate * (length msg div (8 * rate)) + pos) + length ?rest"
  proof -
    have "length msg = 8 * (length msg div 8) + length ?rest" by (simp add: length_unabsorbed)
    moreover have "length msg div 8 = rate * (length msg div 8 div rate) + pos" by (simp add: pos)
    ultimately show ?thesis by (simp add: div_mult2_eq)
  qed
  have lr: "length ?rest < 8" by simp
  have n: "?n = length msg - length ?rest + 8 * Suc m"
    using lmsg m by (simp add: algebra_simps)
  define tail where "tail = ?rest @ 0x06 # replicate (8 * Suc m - length ?rest - 1) 0"
  define k where "k = length msg - length ?rest"
  have k8: "k = 8 * (length msg div 8)"
    unfolding k_def length_unabsorbed by (rule minus_mod_eq_mult_div)
  have kle: "k \<le> length msg" by (simp add: k_def)
  have k: "take k msg @ ?rest = msg" "length (take k msg) = k"
    using kle by (simp_all only: unabsorbed_def k8 [symmetric] append_take_drop_id length_take min_absorb2)
  have kr: "length msg = k + length ?rest" using lmsg by (simp add: k_def)
  let ?tail = "tail[8 * Suc m - 1 := tail ! (8 * Suc m - 1) XOR 0x80]"
  have "length ?rest \<le> 7" using lr by linarith
  then have lt: "length tail = 8 * Suc m" by (simp add: tail_def)
  have pad: "sha3_pad rate msg = take k msg @ ?tail"
  proof -
    have nk: "?n = k + 8 * Suc m" unfolding n k_def ..
    have n1: "?n - length msg - 1 = 8 * Suc m - length ?rest - 1"
      using nk kr by linarith
    have n2: "?n - 1 = k + (8 * Suc m - 1)"
      unfolding nk by simp
    have e: "msg @ 0x06 # replicate (?n - length msg - 1) 0 = take k msg @ tail"
      unfolding n1 tail_def by (subst (1) k(1) [symmetric]) (simp only: append_assoc)
    show ?thesis
      unfolding sha3_pad_def Let_def e n2
      using k(2) list_update_length_plus [of "take k msg"] nth_append_length_plus [of "take k msg"]
      by metis
  qed
  have "absorb_blocks 8 (lane_step rate) (st0, 0) (take k msg) = (st, pos)"
    and u: "unabsorbed 8 (take k msg) = []"
  proof -
    show u: "unabsorbed 8 (take k msg) = []"
      by (simp only: unabsorbed_def k(2) k8 nonzero_mult_div_cancel_left [of 8 "length msg div 8"]) (simp add: k8)
    have "absorb_blocks 8 (lane_step rate) (st0, 0) (take k msg @ ?rest) =
        absorb_blocks 8 (lane_step rate) (absorb_blocks 8 (lane_step rate) (st0, 0) (take k msg)) ?rest"
      using absorb_append [of 8 "lane_step rate" "(st0, 0)" "take k msg" ?rest] u by simp
    then show "absorb_blocks 8 (lane_step rate) (st0, 0) (take k msg) = (st, pos)"
      unfolding k(1) sp using lr by simp
  qed
  then have "absorb_blocks 8 (lane_step rate) (st0, 0) (sha3_pad rate msg) =
      absorb_blocks 8 (lane_step rate) (st, pos) (?tail @ [])"
    using absorb_append [of 8 "lane_step rate" "(st0, 0)" "take k msg" ?tail] u
    unfolding pad by simp
  also have "\<dots> = (KeccakF (xor_lanes pos (Suc m) ?tail st), 0)"
    using absorb_block [of ?tail m pos rate st "[]"] lt m by simp
  finally have A: "absorb_blocks 8 (lane_step rate) (st0, 0) (sha3_pad rate msg) =
      (KeccakF (xor_lanes pos (Suc m) ?tail st), 0)" .
  have "length (sha3_pad rate msg) = ?n" 
    unfolding n k_def [symmetric] pad length_append length_list_update lt k(2) ..
  then have "unabsorbed (8 * rate) (sha3_pad rate msg) = []"
    using rate by (simp only: unabsorbed_def) simp
  then have B: "absorb_blocks 8 (lane_step rate) (st0, 0) (sha3_pad rate msg) =
      (absorb_blocks (8 * rate) (block_step rate) st0 (sha3_pad rate msg), 0)"
    using absorb_rate_blocks [OF rate(1), of st0 "sha3_pad rate msg" "[]"] by simp
  have "rate - 1 = pos + m" "pos + Suc m \<le> 25" using m rate by simp_all
  then show ?thesis
    using A B xor_lanes_padded [OF lr st _ tail_def, of pos]
    unfolding sp by (simp add: final_state_def)
qed

lemma SHA3_digest:
  assumes b: "buffered_hasher 8 (lane_step rate) sponge_state sponge_pending (sponge_inv rate) W"
    and "0 < rate" "rate \<le> 25" "words \<le> 25" "length mem = 8" "length output = 8 * words"
  shows "snd (SHA3_Finalize rate words (foldl W (SHA3_new mem) ds) output) = sha3_spec rate words (concat ds)"
proof -
  note w = buffered_hasher.wr_concat [OF b sponge_inv_new [OF assms(2,5)], of ds]
  have "sponge_inv rate (foldl W (SHA3_new mem) ds)" using w by blast
  from SHA3_Finalize_output [OF this assms(6,4)] w show ?thesis
    using final_state_spec [OF assms(2,3), of "replicate 25 0" "concat ds"]
    by (simp add: sha3_spec_def)
qed

lemma length_sha3_pad: "0 < rate \<Longrightarrow> length (sha3_pad rate msg) = 8 * rate * (length msg div (8 * rate) + 1)"
proof -
  assume "0 < rate"
  then have "length msg mod (8 * rate) < 8 * rate" by simp
  then have "length msg < 8 * rate * (length msg div (8 * rate) + 1)"
    by (metis add.commute add_mult_distrib2 mult.right_neutral mod_mult_div_eq nat_add_left_cancel_less)
  then show ?thesis by (simp add: sha3_pad_def Let_def)
qed

lemma length_absorb_block_step: "length st = n \<Longrightarrow> length (absorb_blocks B (block_step rate) st data) = n"
proof -
  have "length st = n \<Longrightarrow> length (fold (\<lambda>i s. block_step rate s (slice (i * B) B data)) is st) = n" for "is"
    by (induction "is" arbitrary: st) (simp_all add: block_step_def)
  then show "length st = n \<Longrightarrow> ?thesis" by (simp add: absorb_blocks_def)
qed

lemma length_sha3_spec [simp, length_simps]:
  "words \<le> 25 \<Longrightarrow> length (sha3_spec rate words msg) = 8 * words"
  by (simp add: sha3_spec_def le64.length_enc_array length_absorb_block_step)

lemma SHA3_Reset_fresh:
  assumes "sponge_inv rate h" "0 < rate"
  shows "sponge_inv rate (SHA3_Reset h)" "sponge_state (SHA3_Reset h) = sponge_state (SHA3_new mem)"
    and "sponge_pending (SHA3_Reset h) = []"
  using assms
  by (auto simp: SHA3_Reset_def sponge_inv_def sponge_state_def sponge_pending_def SHA3_new_def)

section \<open>Properties\<close>

text \<open>C20: Hashing a message in any number of writes of any sizes, from uninitialised buffer
  memory, gives the FIPS 202 digest of the concatenated message for each of the three classes: the
  message padded with the SHA-3 domain bits, absorbed block by block at the class's rate and the
  first lanes of the state output in little endian.\<close>

theorem sha3_message_digests:
  assumes "length mem = 8" "length out256 = 32" "length out384 = 48" "length out512 = 64"
  shows "snd (SHA3_256_Finalize (foldl SHA3_256_Write (SHA3_new mem) ds) out256) = sha3_spec 17 4 (concat ds) \<and>
    snd (SHA3_384_Finalize (foldl SHA3_384_Write (SHA3_new mem) ds) out384) = sha3_spec 13 6 (concat ds) \<and>
    snd (SHA3_512_Finalize (foldl SHA3_512_Write (SHA3_new mem) ds) out512) = sha3_spec 9 8 (concat ds)"
  using assms unfolding SHA3_256_Finalize_def SHA3_384_Finalize_def SHA3_512_Finalize_def
  by (intro conjI SHA3_digest sha3_256.buffered_hasher_axioms sha3_384.buffered_hasher_axioms
      sha3_512.buffered_hasher_axioms) simp_all

theorem sha3_message_digests_witness:
  "snd (SHA3_512_Finalize (SHA3_512_Write (SHA3_512_Write (SHA3_new (replicate 8 7)) [1, 2]) [3])
    (replicate 64 0)) = sha3_spec 9 8 [1, 2, 3]"
  using sha3_message_digests [of "replicate 8 7" "replicate 32 0" "replicate 48 0" "replicate 64 0" "[[1, 2], [3]]"]
  by simp

text \<open>The in-place permutation of the code (theta, rho and pi walked along one cycle of lanes,
  chi row by row, iota) computes the 24 rounds of Keccak-f[1600] as FIPS 202 defines them on the
  5 by 5 array of lanes.\<close>

theorem KeccakF_permutation:
  assumes "length st = 25"
  shows "KeccakF st = fold keccak_round_spec RNDC st \<and> length (KeccakF st) = 25"
  using KeccakF_eq_spec [OF assms] assms by (metis length_KeccakF)

theorem KeccakF_permutation_witness:
  "KeccakF (replicate 25 0) = fold keccak_round_spec RNDC (replicate 25 0)"
  using KeccakF_permutation [of "replicate 25 0"] by simp

lemma SHA3_Reset_new: "length (m_state h) = 25 \<Longrightarrow> SHA3_Reset h = SHA3_new (m_buffer h)"
  by (cases h) (simp add: SHA3_Reset_def SHA3_new_def)

lemma SHA3_Finalize_lengths:
  assumes "sponge_inv rate h"
  shows "length (m_state (fst (SHA3_Finalize rate words h output))) = 25"
    and "length (m_buffer (fst (SHA3_Finalize rate words h output))) = 8"
  using assms by (simp_all add: SHA3_Finalize_def sponge_inv_def Let_def splice_def xor_at_def)

lemma sponge_inv_writes:
  "length mem = 8 \<Longrightarrow> sponge_inv 9 (foldl SHA3_512_Write (SHA3_new mem) ds)"
  using sha3_512.wr_concat [of "SHA3_new mem" ds] by simp

text \<open>A hasher can be used again: after a first message was hashed and finalised, \<open>Reset\<close>
  brings it back to a state from which the digest of the next message is that message's digest,
  whatever the first message left in the buffer.\<close>

theorem sha3_512_reset_reuse:
  assumes "length mem = 8" "length out = 64"
  shows "snd (SHA3_512_Finalize (foldl SHA3_512_Write
      (SHA3_512_Reset (fst (SHA3_512_Finalize (foldl SHA3_512_Write (SHA3_new mem) first) junk))) ds) out) =
    sha3_spec 9 8 (concat ds)"
proof -
  let ?h = "fst (SHA3_512_Finalize (foldl SHA3_512_Write (SHA3_new mem) first) junk)"
  have l: "length (m_state ?h) = 25" "length (m_buffer ?h) = 8"
    using SHA3_Finalize_lengths [OF sponge_inv_writes [OF assms(1)], of 8 first junk]
    by (simp_all add: SHA3_512_Finalize_def)
  show ?thesis
    unfolding SHA3_512_Reset_def SHA3_Reset_new [OF l(1)]
    using SHA3_digest [OF sha3_512.buffered_hasher_axioms, of 8 "m_buffer ?h" out ds] l assms
    by (simp add: SHA3_512_Finalize_def)
qed

theorem sha3_512_reset_reuse_witness:
  "snd (SHA3_512_Finalize (SHA3_512_Write
      (SHA3_512_Reset (fst (SHA3_512_Finalize (SHA3_512_Write (SHA3_new (replicate 8 7)) [9, 9, 9]) (replicate 64 0))))
      [1, 2, 3]) (replicate 64 0)) = sha3_spec 9 8 [1, 2, 3]"
  using sha3_512_reset_reuse [of "replicate 8 7" "replicate 64 0" "[[9, 9, 9]]" "replicate 64 0" "[[1, 2, 3]]"]
  by simp

end
