(* ===== verification/MercaHash.thy ===== *)
theory MercaHash
  imports Sha3 "HOL-Library.Monad_Syntax"
begin

text \<open>
  \<open>src/crypto/mercahash.cpp\<close>: the memory-hard proof-of-work function. The scratchpad is the
  byte buffer of the source; a failed \<open>assert\<close> is the value \<open>None\<close>. Each step that touches
  memory is split into the pure computation of the index and of the new line (one definition
  per loop of the source) and the read and write around it.
\<close>

section \<open>Parameters\<close>

definition HEADER_SIZE :: nat where "HEADER_SIZE = 80"
definition OUTPUT_SIZE :: nat where "OUTPUT_SIZE = 32"
definition SCRATCHPAD_BYTES :: nat where "SCRATCHPAD_BYTES = 128 * 1024 * 1024"
definition LINE_BYTES :: nat where "LINE_BYTES = 64"
definition LINE_WORDS :: nat where "LINE_WORDS = 8"
definition LINE_COUNT :: nat where "LINE_COUNT = SCRATCHPAD_BYTES div LINE_BYTES"
definition LINE_MASK :: u64 where "LINE_MASK = of_nat LINE_COUNT - 1"
definition SECONDARY_INTERVAL :: u64 where "SECONDARY_INTERVAL = 16"
definition CROSS_LANE_INTERVAL :: u64 where "CROSS_LANE_INTERVAL = 64"
definition CHECKPOINT_INTERVAL :: u64 where "CHECKPOINT_INTERVAL = 1024"
definition FINAL_READS :: nat where "FINAL_READS = 256"
definition BIND_BLOCK_BYTES :: nat where "BIND_BLOCK_BYTES = 4096"
definition BIND_BLOCK_LINES :: nat where "BIND_BLOCK_LINES = BIND_BLOCK_BYTES div LINE_BYTES"
definition BIND_BLOCK_COUNT :: nat where "BIND_BLOCK_COUNT = SCRATCHPAD_BYTES div BIND_BLOCK_BYTES"
definition BIND_ARX_INTERVAL :: nat where "BIND_ARX_INTERVAL = 16"
definition DIAGNOSTIC_REGIONS :: nat where "DIAGNOSTIC_REGIONS = 64"
definition LINE_INDEX_BITS :: nat where "LINE_INDEX_BITS = 21"

record Diagnostics =
  primary_accesses :: u64
  primary_unique :: u64
  secondary_accesses :: u64
  secondary_unique :: u64
  combined_unique :: u64
  forced_secondary_distinct :: u64
  binding_reference_accesses :: u64
  binding_reference_unique :: u64
  binding_reference_distance_sum :: u64
  binding_reference_distance_min :: u64
  binding_reference_distance_max :: u64
  binding_reference_relative_regions :: "u64 list"
  binding_reference_seen :: bytes
  primary_regions :: "u64 list"
  secondary_regions :: "u64 list"
  primary_bit_ones :: "u64 list"
  secondary_bit_ones :: "u64 list"

definition Diagnostics_init :: Diagnostics where
  "Diagnostics_init =
    \<lparr>primary_accesses = 0, primary_unique = 0, secondary_accesses = 0, secondary_unique = 0,
     combined_unique = 0, forced_secondary_distinct = 0, binding_reference_accesses = 0,
     binding_reference_unique = 0, binding_reference_distance_sum = 0,
     binding_reference_distance_min = 0, binding_reference_distance_max = 0,
     binding_reference_relative_regions = replicate DIAGNOSTIC_REGIONS 0,
     binding_reference_seen = replicate BIND_BLOCK_COUNT 0,
     primary_regions = replicate DIAGNOSTIC_REGIONS 0,
     secondary_regions = replicate DIAGNOSTIC_REGIONS 0,
     primary_bit_ones = replicate LINE_INDEX_BITS 0,
     secondary_bit_ones = replicate LINE_INDEX_BITS 0\<rparr>"

datatype ScratchpadFillMode = ALTERNATING_HALF_ROUND | TWO_FULL_ROUNDS

definition V1_MIX_STEPS :: u32 where "V1_MIX_STEPS = 131072"
definition V1_SCRATCHPAD_FILL :: ScratchpadFillMode where "V1_SCRATCHPAD_FILL = ALTERNATING_HALF_ROUND"
definition V1_BINDING_PASSES :: u32 where "V1_BINDING_PASSES = 1"

record WorkParams =
  mix_steps :: u32
  scratchpad_fill :: ScratchpadFillMode
  binding_passes :: u32

definition STATE_DOMAIN_0 :: string where "STATE_DOMAIN_0 = ''MercaHash-v1/state/0''"
definition STATE_DOMAIN_1 :: string where "STATE_DOMAIN_1 = ''MercaHash-v1/state/1''"
definition CHECKPOINT_DOMAIN :: string where "CHECKPOINT_DOMAIN = ''MercaHash-v1/checkpoint''"
definition FINAL_DOMAIN :: string where "FINAL_DOMAIN = ''MercaHash-v1/final''"

definition CONSTANTS :: "u64 list" where
  "CONSTANTS = [0x9E3779B97F4A7C15, 0xBF58476D1CE4E5B9, 0x94D049BB133111EB, 0xD6E8FEB86659FD93,
    0xA0761D6478BD642F, 0xE7037ED1A0B428DB, 0x8EBC6AF09C88C6E3, 0x589965CC75374CC3]"

definition ROTATION_1 :: "nat list" where "ROTATION_1 = [13, 29, 43, 57, 17, 31, 47, 59]"
definition ROTATION_2 :: "nat list" where "ROTATION_2 = [37, 53, 11, 23, 41, 7, 19, 61]"
definition CHECKPOINT_ROTATION :: "nat list" where "CHECKPOINT_ROTATION = [7, 19, 31, 43, 11, 23, 37, 53]"

type_synonym State = "u64 list"
type_synonym Line = "u64 list"

definition AsBytes :: "string \<Rightarrow> bytes" where
  "AsBytes str = map of_char str"

section \<open>Assertions, loops and array updates\<close>

definition check :: "bool \<Rightarrow> unit option" where
  "check b = (if b then Some () else None)"

text \<open>\<open>mfold f [x1, \<dots>] s\<close>: a \<open>for\<close> loop whose body may fail an assertion.\<close>

primrec mfold :: "('a \<Rightarrow> 's \<Rightarrow> 's option) \<Rightarrow> 'a list \<Rightarrow> 's \<Rightarrow> 's option" where
  "mfold f [] s = Some s"
| "mfold f (x # xs) s = f x s \<bind> mfold f xs"

abbreviation (input) xor_to :: "nat \<Rightarrow> u64 \<Rightarrow> State \<Rightarrow> State" where
  "xor_to i x st \<equiv> st[i := st ! i XOR x]"

abbreviation (input) add_to :: "nat \<Rightarrow> u64 \<Rightarrow> State \<Rightarrow> State" where
  "add_to i x st \<equiv> st[i := st ! i + x]"

section \<open>Initial state and ARX rounds\<close>

definition InitialState :: "bytes \<Rightarrow> State option" where
  "InitialState header = do {
    check (length header = HEADER_SIZE);
    let digest0 = snd (SHA3_512_Finalize (SHA3_512_Write (SHA3_512_Write (SHA3_new (replicate 8 0))
          (AsBytes STATE_DOMAIN_0)) header) (replicate 64 0));
    let digest1 = snd (SHA3_512_Finalize (SHA3_512_Write (SHA3_512_Write (SHA3_new (replicate 8 0))
          (AsBytes STATE_DOMAIN_1)) header) (replicate 64 0));
    Some (fold (\<lambda>i state. state[i := ReadLE64 digest0 (i * 8), i + 8 := ReadLE64 digest1 (i * 8)])
      [0..<8] (replicate 16 0))
  }"

definition G :: "u64 \<Rightarrow> u64 \<Rightarrow> u64 \<Rightarrow> u64 \<Rightarrow> u64 \<times> u64 \<times> u64 \<times> u64" where
  "G a b c d =
    (let a = a + b; d = word_rotl 32 (d XOR a);
         c = c + d; b = word_rotl 24 (b XOR c);
         a = a + b; d = word_rotl 16 (d XOR a);
         c = c + d; b = word_rotl 63 (b XOR c)
     in (a, b, c, d))"

text \<open>\<open>G(state[i], state[j], state[k], state[l])\<close>\<close>

definition G_at :: "nat \<Rightarrow> nat \<Rightarrow> nat \<Rightarrow> nat \<Rightarrow> State \<Rightarrow> State" where
  "G_at i j k l st =
    (let (a, b, c, d) = G (st ! i) (st ! j) (st ! k) (st ! l) in st[i := a, j := b, k := c, l := d])"

definition MercaARXColumns :: "State \<Rightarrow> State" where
  "MercaARXColumns state =
    (let state = G_at 0 4 8 12 state;
         state = G_at 1 5 9 13 state;
         state = G_at 2 6 10 14 state
     in G_at 3 7 11 15 state)"

definition MercaARXDiagonals :: "State \<Rightarrow> State" where
  "MercaARXDiagonals state =
    (let state = G_at 0 5 10 15 state;
         state = G_at 1 6 11 12 state;
         state = G_at 2 7 8 13 state
     in G_at 3 4 9 14 state)"

definition MercaARXRound :: "State \<Rightarrow> State" where
  "MercaARXRound state = MercaARXDiagonals (MercaARXColumns state)"

text \<open>The rounds are permutations of the state: each step of \<open>G\<close> can be undone.\<close>

definition G_inv :: "u64 \<Rightarrow> u64 \<Rightarrow> u64 \<Rightarrow> u64 \<Rightarrow> u64 \<times> u64 \<times> u64 \<times> u64" where
  "G_inv a b c d =
    (let b = word_rotr 63 b XOR c; c = c - d;
         d = word_rotr 16 d XOR a; a = a - b;
         b = word_rotr 24 b XOR c; c = c - d;
         d = word_rotr 32 d XOR a; a = a - b
     in (a, b, c, d))"

lemma G_inv_G: "(case G a b c d of (a, b, c, d) \<Rightarrow> G_inv a b c d) = (a, b, c, d)"
  by (simp add: G_def G_inv_def Let_def xor.assoc)

lemma G_G_inv: "(case G_inv a b c d of (a, b, c, d) \<Rightarrow> G a b c d) = (a, b, c, d)"
  by (simp add: G_def G_inv_def Let_def xor.assoc)

definition G_at_inv :: "nat \<Rightarrow> nat \<Rightarrow> nat \<Rightarrow> nat \<Rightarrow> State \<Rightarrow> State" where
  "G_at_inv i j k l st =
    (let (a, b, c, d) = G_inv (st ! i) (st ! j) (st ! k) (st ! l) in st[i := a, j := b, k := c, l := d])"

lemma length_G_at [simp, length_simps]:
  "length (G_at i j k l st) = length st" "length (G_at_inv i j k l st) = length st"
  by (simp_all add: G_at_def G_at_inv_def split: prod.splits)

lemma G_at_update4:
  assumes "distinct [i, j, k, l]" "i < length st" "j < length st" "k < length st" "l < length st"
  shows "st[i := a, j := b, k := c, l := d] ! i = a" "st[i := a, j := b, k := c, l := d] ! j = b"
    and "st[i := a, j := b, k := c, l := d] ! k = c" "st[i := a, j := b, k := c, l := d] ! l = d"
    and "st[i := a, j := b, k := c, l := d, i := a', j := b', k := c', l := d'] =
      st[i := a', j := b', k := c', l := d']"
    and "st[i := st ! i, j := st ! j, k := st ! k, l := st ! l] = st"
  using assms by (auto simp: nth_list_update intro!: nth_equalityI)

lemma G_at_bij:
  assumes "distinct [i, j, k, l]" "i < length st" "j < length st" "k < length st" "l < length st"
  shows "G_at_inv i j k l (G_at i j k l st) = st" "G_at i j k l (G_at_inv i j k l st) = st"
proof -
  note u = G_at_update4 [OF assms]
  obtain a b c d where g: "G (st ! i) (st ! j) (st ! k) (st ! l) = (a, b, c, d)" by (metis prod.exhaust)
  have "G_inv a b c d = (st ! i, st ! j, st ! k, st ! l)"
    using G_inv_G [of "st ! i" "st ! j" "st ! k" "st ! l"] by (simp add: g)
  then show "G_at_inv i j k l (G_at i j k l st) = st"
    by (simp only: G_at_def G_at_inv_def g Let_def prod.case u)
  obtain a b c d where g: "G_inv (st ! i) (st ! j) (st ! k) (st ! l) = (a, b, c, d)" by (metis prod.exhaust)
  have "G a b c d = (st ! i, st ! j, st ! k, st ! l)"
    using G_G_inv [of "st ! i" "st ! j" "st ! k" "st ! l"] by (simp add: g)
  then show "G_at i j k l (G_at_inv i j k l st) = st"
    by (simp only: G_at_def G_at_inv_def g Let_def prod.case u)
qed

definition MercaARXRound_inv :: "State \<Rightarrow> State" where
  "MercaARXRound_inv st =
    G_at_inv 0 4 8 12 (G_at_inv 1 5 9 13 (G_at_inv 2 6 10 14 (G_at_inv 3 7 11 15
      (G_at_inv 0 5 10 15 (G_at_inv 1 6 11 12 (G_at_inv 2 7 8 13 (G_at_inv 3 4 9 14 st)))))))"

lemma length_MercaARX [simp, length_simps]:
  "length (MercaARXColumns st) = length st" "length (MercaARXDiagonals st) = length st"
  "length (MercaARXRound st) = length st" "length (MercaARXRound_inv st) = length st"
  by (simp_all add: MercaARXColumns_def MercaARXDiagonals_def MercaARXRound_def MercaARXRound_inv_def Let_def)

lemma MercaARXRound_inverse:
  "length st = 16 \<Longrightarrow> MercaARXRound_inv (MercaARXRound st) = st"
  "length st = 16 \<Longrightarrow> MercaARXRound (MercaARXRound_inv st) = st"
  by (simp_all add: MercaARXRound_def MercaARXColumns_def MercaARXDiagonals_def MercaARXRound_inv_def
      Let_def G_at_bij)

lemma MercaARXRound_bijective: "bij_betw MercaARXRound {st. length st = 16} {st. length st = 16}"
  by (rule bij_betw_byWitness [where f' = MercaARXRound_inv]) (auto simp: MercaARXRound_inverse)

section \<open>Lines of the scratchpad\<close>

definition WriteLine :: "bytes \<Rightarrow> nat \<Rightarrow> Line \<Rightarrow> bytes option" where
  "WriteLine scratchpad line_index line = do {
    check (line_index < LINE_COUNT);
    let offset = line_index * LINE_BYTES;
    Some (fold (\<lambda>j pad. WriteLE64 pad (offset + j * 8) (line ! j)) [0..<LINE_WORDS] scratchpad)
  }"

definition ReadLine :: "bytes \<Rightarrow> nat \<Rightarrow> Line option" where
  "ReadLine scratchpad line_index = do {
    check (line_index < LINE_COUNT);
    let offset = line_index * LINE_BYTES;
    Some (map (\<lambda>j. ReadLE64 scratchpad (offset + j * 8)) [0..<LINE_WORDS])
  }"

section \<open>Filling\<close>

definition fill_domain :: "State \<Rightarrow> State" where
  "fill_domain state =
    (let state = xor_to 0 0x9E3779B97F4A7C15 state;
         state = xor_to 5 0xBF58476D1CE4E5B9 state;
         state = xor_to 10 0x94D049BB133111EB state
     in xor_to 15 0xD6E8FEB86659FD93 state)"

definition fill_mix :: "ScratchpadFillMode \<Rightarrow> nat \<Rightarrow> State \<Rightarrow> State" where
  "fill_mix mode i state =
    (let x = of_nat i;
         state = add_to 0 x state;
         state = xor_to 7 (word_rotl 17 x) state;
         state = add_to 8 (x XOR 0x9E3779B97F4A7C15) state;
         state = xor_to 15 (word_rotl 41 x) state
     in case mode of
          ALTERNATING_HALF_ROUND \<Rightarrow>
            if i mod 2 = 0 then MercaARXColumns state else MercaARXDiagonals state
        | TWO_FULL_ROUNDS \<Rightarrow> MercaARXRound (MercaARXRound state))"

definition fill_line :: "State \<Rightarrow> Line" where
  "fill_line state = map (\<lambda>j. state ! j XOR state ! (j + 8)) [0..<LINE_WORDS]"

definition fill_feedback :: "Line \<Rightarrow> State \<Rightarrow> State" where
  "fill_feedback line state =
    (let state = add_to 0 (line ! 3) state;
         state = xor_to 1 (word_rotl 11 (line ! 4)) state;
         state = add_to 2 (line ! 5) state;
         state = xor_to 3 (word_rotl 23 (line ! 6)) state;
         state = add_to 4 (line ! 7) state;
         state = xor_to 5 (word_rotl 37 (line ! 0)) state;
         state = add_to 6 (line ! 1) state;
         state = xor_to 7 (word_rotl 53 (line ! 2)) state;
         state = xor_to 8 (line ! 5) state;
         state = add_to 9 (word_rotl 7 (line ! 6)) state;
         state = xor_to 10 (line ! 7) state;
         state = add_to 11 (word_rotl 19 (line ! 0)) state;
         state = xor_to 12 (line ! 1) state;
         state = add_to 13 (word_rotl 31 (line ! 2)) state;
         state = xor_to 14 (line ! 3) state
     in add_to 15 (word_rotl 47 (line ! 4)) state)"

definition FillScratchpad :: "State \<Rightarrow> bytes \<Rightarrow> ScratchpadFillMode \<Rightarrow> (State \<times> bytes) option" where
  "FillScratchpad state scratchpad mode = do {
    check (length scratchpad = SCRATCHPAD_BYTES);
    mfold (\<lambda>i (state, scratchpad). do {
        let state = fill_mix mode i state;
        let line = fill_line state;
        scratchpad \<leftarrow> WriteLine scratchpad i line;
        Some (fill_feedback line state, scratchpad)
      }) [0..<LINE_COUNT] (fill_domain state, scratchpad)
  }"

section \<open>Binding\<close>

definition binding_seed :: "State \<Rightarrow> Line \<Rightarrow> u64 \<Rightarrow> u64 \<Rightarrow> u64" where
  "binding_seed state head block_u64 pass =
    state ! 0 XOR word_rotl 19 (state ! 7) XOR state ! 13 XOR head ! 0 XOR word_rotl 31 (head ! 7)
    XOR (block_u64 * CONSTANTS ! 1) XOR ((pass + 1) * CONSTANTS ! 6)"

definition previous_block :: "nat \<Rightarrow> nat" where
  "previous_block block = (if block = 0 then BIND_BLOCK_COUNT - 1 else block - 1)"

definition reference_block :: "u64 \<Rightarrow> nat \<Rightarrow> nat" where
  "reference_block reference_seed block =
    (if block = 0 then BIND_BLOCK_COUNT - 1 else unat (reference_seed mod of_nat block))"

definition reference_rotation :: "u64 \<Rightarrow> nat" where
  "reference_rotation reference_seed = unat (drop_bit 17 reference_seed AND of_nat (BIND_BLOCK_LINES - 1))"

text \<open>The bookkeeping under \<open>if (diagnostics != nullptr)\<close>.\<close>

definition record_binding :: "nat \<Rightarrow> nat \<Rightarrow> Diagnostics \<Rightarrow> Diagnostics option" where
  "record_binding block ref d = do {
    let block_u64 = of_nat block;
    let distance = block_u64 - of_nat ref;
    let d = (if binding_reference_accesses d = 0 \<or> distance < binding_reference_distance_min d
             then d\<lparr>binding_reference_distance_min := distance\<rparr> else d);
    let d = (if distance > binding_reference_distance_max d
             then d\<lparr>binding_reference_distance_max := distance\<rparr> else d);
    let d = d\<lparr>binding_reference_distance_sum := binding_reference_distance_sum d + distance\<rparr>;
    let relative_region = unat (of_nat ref * of_nat DIAGNOSTIC_REGIONS div (block_u64 :: u64));
    check (relative_region < DIAGNOSTIC_REGIONS);
    let d = d\<lparr>binding_reference_relative_regions :=
          (binding_reference_relative_regions d)[relative_region :=
            binding_reference_relative_regions d ! relative_region + 1]\<rparr>;
    let d = (if binding_reference_seen d ! ref = 0
             then d\<lparr>binding_reference_seen := (binding_reference_seen d)[ref := 1],
                    binding_reference_unique := binding_reference_unique d + 1\<rparr>
             else d);
    Some (d\<lparr>binding_reference_accesses := binding_reference_accesses d + 1\<rparr>)
  }"

definition bound_line :: "State \<Rightarrow> nat \<Rightarrow> u64 \<Rightarrow> Line \<Rightarrow> Line \<Rightarrow> Line \<Rightarrow> Line" where
  "bound_line state line line_tag current previous reference =
    map (\<lambda>j. let x = current ! j + previous ! ((j + 1) mod 8);
                 y = reference ! ((j + 3) mod 8) + state ! ((j + line) mod 16)
             in x XOR word_rotl (ROTATION_1 ! j) y XOR word_rotl (ROTATION_2 ! j) line_tag)
      [0..<LINE_WORDS]"

definition accumulate :: "Line \<Rightarrow> Line \<Rightarrow> Line" where
  "accumulate bound acc =
    fold (\<lambda>j. xor_to j (bound ! j + word_rotl (ROTATION_2 ! j) (bound ! ((j + 1) mod 8)))) [0..<LINE_WORDS] acc"

definition line_tag :: "u64 \<Rightarrow> nat \<Rightarrow> u64 \<Rightarrow> u64" where
  "line_tag block_u64 line pass = block_u64 XOR (of_nat line * CONSTANTS ! 0) XOR (pass * CONSTANTS ! 3)"

text \<open>The inner loop over the lines of one block.\<close>

definition bind_line ::
  "State \<Rightarrow> u64 \<Rightarrow> nat \<Rightarrow> nat \<Rightarrow> nat \<Rightarrow> nat \<Rightarrow> bytes \<times> Line \<Rightarrow> (bytes \<times> Line) option" where
  "bind_line state pass block ref rot line = (\<lambda>(scratchpad, block_accumulator). do {
    let current_line = block * BIND_BLOCK_LINES + line;
    let previous_line = previous_block block * BIND_BLOCK_LINES +
          (line + BIND_BLOCK_LINES - 1) mod BIND_BLOCK_LINES;
    let reference_line = ref * BIND_BLOCK_LINES + (line + rot) mod BIND_BLOCK_LINES;
    current \<leftarrow> ReadLine scratchpad current_line;
    previous \<leftarrow> ReadLine scratchpad previous_line;
    reference \<leftarrow> ReadLine scratchpad reference_line;
    let bound = bound_line state line (line_tag (of_nat block) line pass) current previous reference;
    scratchpad \<leftarrow> WriteLine scratchpad current_line bound;
    Some (scratchpad, accumulate bound block_accumulator)
  })"

definition bind_feedback :: "Line \<Rightarrow> u64 \<Rightarrow> u64 \<Rightarrow> State \<Rightarrow> State" where
  "bind_feedback acc reference_seed block_u64 state =
    fold (\<lambda>j state.
        let state = xor_to j (acc ! j + reference_seed) state
        in add_to (j + 8) (word_rotl (ROTATION_1 ! j) (acc ! ((j + 3) mod 8)) XOR block_u64) state)
      [0..<LINE_WORDS] state"

definition bind_arx :: "nat \<Rightarrow> State \<Rightarrow> State" where
  "bind_arx block state = (if (block + 1) mod BIND_ARX_INTERVAL = 0 then MercaARXRound state else state)"

definition bind_block :: "u64 \<Rightarrow> nat \<Rightarrow> State \<times> bytes \<times> Diagnostics option \<Rightarrow>
    (State \<times> bytes \<times> Diagnostics option) option" where
  "bind_block pass block = (\<lambda>(state, scratchpad, diagnostics). do {
    head \<leftarrow> ReadLine scratchpad (block * BIND_BLOCK_LINES);
    let reference_seed = binding_seed state head (of_nat block) pass;
    let ref = reference_block reference_seed block;
    diagnostics \<leftarrow> (if block \<noteq> 0 then do {
        check (ref < block);
        case diagnostics of None \<Rightarrow> Some None | Some d \<Rightarrow> map_option Some (record_binding block ref d)
      } else Some diagnostics);
    (scratchpad, block_accumulator) \<leftarrow>
      mfold (bind_line state pass block ref (reference_rotation reference_seed))
        [0..<BIND_BLOCK_LINES] (scratchpad, replicate LINE_WORDS 0);
    let state = bind_feedback block_accumulator reference_seed (of_nat block) state;
    Some (bind_arx block state, scratchpad, diagnostics)
  })"

definition bind_pass_start :: "u64 \<Rightarrow> State \<Rightarrow> State" where
  "bind_pass_start pass state =
    (let state = xor_to 0 (pass + CONSTANTS ! 4) state;
         state = add_to 8 ((pass + 1) * CONSTANTS ! 5) state
     in MercaARXRound state)"

definition BindScratchpad :: "State \<Rightarrow> bytes \<Rightarrow> u32 \<Rightarrow> Diagnostics option \<Rightarrow>
    (State \<times> bytes \<times> Diagnostics option) option" where
  "BindScratchpad state scratchpad passes diagnostics = do {
    check (length scratchpad = SCRATCHPAD_BYTES);
    mfold (\<lambda>pass (state, scratchpad, diagnostics). do {
        (state, scratchpad, diagnostics) \<leftarrow>
          mfold (bind_block (of_nat pass)) [0..<BIND_BLOCK_COUNT]
            (bind_pass_start (of_nat pass) state, scratchpad, diagnostics);
        Some (MercaARXRound state, scratchpad, diagnostics)
      }) [0..<unat passes] (state, scratchpad, diagnostics)
  }"

section \<open>Mixing\<close>

record PrimaryResult =
  p_line_index :: nat
  p_written :: Line

definition primary_index :: "State \<Rightarrow> u64 \<Rightarrow> nat" where
  "primary_index state step =
    unat ((state ! 0 XOR word_rotl 17 (state ! 5) XOR state ! 10 XOR word_rotl 41 (state ! 15)
      XOR (step * CONSTANTS ! 0)) AND LINE_MASK)"

definition primary_mix :: "Line \<Rightarrow> u64 \<Rightarrow> State \<Rightarrow> State" where
  "primary_mix memory step state =
    (let state = fold (\<lambda>j state. add_to j
            (memory ! j XOR word_rotl (ROTATION_1 ! j) (state ! (j + 8)) XOR (step * CONSTANTS ! j)) state)
          [0..<LINE_WORDS] state
     in fold (\<lambda>j state.
          let y = state ! j + memory ! ((j + 3) mod 8) + word_rotl (ROTATION_2 ! j) (state ! ((j + 5) mod 8))
          in state[j + 8 := word_rotl (ROTATION_1 ! ((j + 3) mod 8)) (state ! (j + 8) XOR y)])
        [0..<LINE_WORDS] state)"

definition primary_line :: "Line \<Rightarrow> u64 \<Rightarrow> State \<Rightarrow> Line" where
  "primary_line memory step state =
    map (\<lambda>j. memory ! j XOR state ! j XOR word_rotl (ROTATION_2 ! j) (state ! (j + 8))
        XOR (step * CONSTANTS ! ((j + 1) mod 8))) [0..<LINE_WORDS]"

definition primary_feedback :: "Line \<Rightarrow> State \<Rightarrow> State" where
  "primary_feedback written state =
    (let state = xor_to 0 (written ! 5) state;
         state = add_to 1 (word_rotl 9 (written ! 6)) state;
         state = xor_to 2 (written ! 7) state;
         state = add_to 3 (word_rotl 21 (written ! 0)) state;
         state = xor_to 4 (written ! 1) state;
         state = add_to 5 (word_rotl 33 (written ! 2)) state;
         state = xor_to 6 (written ! 3) state;
         state = add_to 7 (word_rotl 45 (written ! 4)) state;
         state = add_to 8 (written ! 3) state;
         state = xor_to 9 (word_rotl 15 (written ! 4)) state;
         state = add_to 10 (written ! 5) state;
         state = xor_to 11 (word_rotl 27 (written ! 6)) state;
         state = add_to 12 (written ! 7) state;
         state = xor_to 13 (word_rotl 39 (written ! 0)) state;
         state = add_to 14 (written ! 1) state
     in xor_to 15 (word_rotl 51 (written ! 2)) state)"

definition PrimaryStep :: "State \<Rightarrow> bytes \<Rightarrow> u64 \<Rightarrow> (State \<times> bytes \<times> PrimaryResult) option" where
  "PrimaryStep state scratchpad step = do {
    let index = primary_index state step;
    memory \<leftarrow> ReadLine scratchpad index;
    let state = primary_mix memory step state;
    let written = primary_line memory step state;
    scratchpad \<leftarrow> WriteLine scratchpad index written;
    Some (primary_feedback written state, scratchpad, \<lparr>p_line_index = index, p_written = written\<rparr>)
  }"

record SecondaryResult =
  s_line_index :: nat
  s_written :: Line
  forced_distinct :: bool

definition secondary_candidate :: "State \<Rightarrow> u64 \<Rightarrow> PrimaryResult \<Rightarrow> nat" where
  "secondary_candidate state step primary =
    unat ((state ! 2 XOR word_rotl 23 (state ! 7) XOR state ! 9 XOR word_rotl 37 (state ! 14)
      XOR p_written primary ! unat (step AND 7) XOR (step * CONSTANTS ! 3)) AND LINE_MASK)"

definition secondary_index :: "State \<Rightarrow> u64 \<Rightarrow> PrimaryResult \<Rightarrow> nat" where
  "secondary_index state step primary =
    (let index = secondary_candidate state step primary
     in if index = p_line_index primary then index XOR 1 else index)"

definition secondary_mix :: "Line \<Rightarrow> u64 \<Rightarrow> State \<Rightarrow> State" where
  "secondary_mix memory step state =
    (let state = fold (\<lambda>j state. add_to (j + 8)
            (word_rotl (ROTATION_2 ! j)
              (memory ! j + state ! ((j + 11) mod 16) + (step XOR CONSTANTS ! ((j + 5) mod 8)))) state)
          [0..<LINE_WORDS] state
     in fold (\<lambda>j state. state[j := word_rotl (ROTATION_1 ! j)
            (state ! j XOR memory ! ((j + 5) mod 8) XOR state ! (j + 8))])
        [0..<LINE_WORDS] state)"

definition secondary_line :: "Line \<Rightarrow> u64 \<Rightarrow> State \<Rightarrow> Line" where
  "secondary_line memory step state =
    map (\<lambda>j. memory ! j + state ! j + word_rotl (ROTATION_1 ! ((j + 2) mod 8)) (state ! (j + 8))
        + step * CONSTANTS ! ((j + 6) mod 8)) [0..<LINE_WORDS]"

definition secondary_feedback :: "Line \<Rightarrow> State \<Rightarrow> State" where
  "secondary_feedback written state =
    (let state = add_to 0 (written ! 7) state;
         state = xor_to 1 (word_rotl 13 (written ! 0)) state;
         state = add_to 2 (written ! 1) state;
         state = xor_to 3 (word_rotl 25 (written ! 2)) state;
         state = add_to 4 (written ! 3) state;
         state = xor_to 5 (word_rotl 35 (written ! 4)) state;
         state = add_to 6 (written ! 5) state;
         state = xor_to 7 (word_rotl 49 (written ! 6)) state;
         state = xor_to 8 (written ! 2) state;
         state = add_to 9 (word_rotl 17 (written ! 3)) state;
         state = xor_to 10 (written ! 4) state;
         state = add_to 11 (word_rotl 29 (written ! 5)) state;
         state = xor_to 12 (written ! 6) state;
         state = add_to 13 (word_rotl 43 (written ! 7)) state;
         state = xor_to 14 (written ! 0) state
     in add_to 15 (word_rotl 55 (written ! 1)) state)"

definition SecondaryStep :: "State \<Rightarrow> bytes \<Rightarrow> u64 \<Rightarrow> PrimaryResult \<Rightarrow> (State \<times> bytes \<times> SecondaryResult) option" where
  "SecondaryStep state scratchpad step primary = do {
    let candidate = secondary_candidate state step primary;
    let index = secondary_index state step primary;
    memory \<leftarrow> ReadLine scratchpad index;
    let state = secondary_mix memory step state;
    let written = secondary_line memory step state;
    scratchpad \<leftarrow> WriteLine scratchpad index written;
    Some (secondary_feedback written state, scratchpad,
      \<lparr>s_line_index = index, s_written = written, forced_distinct = (candidate = p_line_index primary)\<rparr>)
  }"

definition CrossLaneMix :: "State \<Rightarrow> u64 \<Rightarrow> State" where
  "CrossLaneMix state step =
    (let state = xor_to 0 step state;
         state = add_to 8 (step * CONSTANTS ! 2) state
     in MercaARXRound (MercaARXRound state))"

definition WriteHashUint64 :: "(SHA3 \<Rightarrow> bytes \<Rightarrow> SHA3) \<Rightarrow> u64 \<Rightarrow> SHA3 \<Rightarrow> SHA3" where
  "WriteHashUint64 wr v hasher = wr hasher (WriteLE64 (replicate 8 0) 0 v)"

definition Checkpoint :: "State \<Rightarrow> u64 \<Rightarrow> PrimaryResult \<Rightarrow> SecondaryResult \<Rightarrow> State" where
  "Checkpoint state step primary secondary =
    (let hasher = SHA3_512_Write (SHA3_new (replicate 8 0)) (AsBytes CHECKPOINT_DOMAIN);
         hasher = WriteHashUint64 SHA3_512_Write step hasher;
         hasher = WriteHashUint64 SHA3_512_Write (of_nat (p_line_index primary)) hasher;
         hasher = WriteHashUint64 SHA3_512_Write (of_nat (s_line_index secondary)) hasher;
         hasher = fold (WriteHashUint64 SHA3_512_Write) state hasher;
         hasher = fold (WriteHashUint64 SHA3_512_Write) (p_written primary) hasher;
         hasher = fold (WriteHashUint64 SHA3_512_Write) (s_written secondary) hasher;
         digest = snd (SHA3_512_Finalize hasher (replicate 64 0));
         state = fold (\<lambda>j state.
             let state = xor_to j (ReadLE64 digest (j * 8)) state
             in add_to (j + 8) (word_rotl (CHECKPOINT_ROTATION ! j) (ReadLE64 digest ((j + 3) mod 8 * 8))) state)
           [0..<LINE_WORDS] state
     in MercaARXRound state)"

definition mix_step :: "nat \<Rightarrow> State \<times> bytes \<Rightarrow> (State \<times> bytes) option" where
  "mix_step n = (\<lambda>(state, scratchpad). do {
    let step = of_nat n;
    (state, scratchpad, primary) \<leftarrow> PrimaryStep state scratchpad step;
    if step mod SECONDARY_INTERVAL = 0 then do {
      (state, scratchpad, secondary) \<leftarrow> SecondaryStep state scratchpad step primary;
      let state = (if step mod CROSS_LANE_INTERVAL = 0 then CrossLaneMix state step else state);
      let state = (if step mod CHECKPOINT_INTERVAL = 0 then Checkpoint state step primary secondary else state);
      Some (state, scratchpad)
    } else Some (state, scratchpad)
  })"

definition MixScratchpad :: "State \<Rightarrow> bytes \<Rightarrow> u32 \<Rightarrow> (State \<times> bytes) option" where
  "MixScratchpad state scratchpad steps = mfold mix_step [1..<Suc (unat steps)] (state, scratchpad)"

text \<open>The three \<open>seen\<close> vectors of the diagnostic run are bit vectors of \<open>LINE_COUNT\<close> entries.\<close>

definition RecordDiagnosticIndex ::
  "nat \<Rightarrow> bool \<Rightarrow> Diagnostics \<Rightarrow> bool list \<Rightarrow> bool list \<Rightarrow> (Diagnostics \<times> bool list \<times> bool list) option" where
  "RecordDiagnosticIndex line_index primary d seen seen_combined = do {
    check (line_index < LINE_COUNT);
    let d = (if \<not> seen ! line_index
             then (if primary then d\<lparr>primary_unique := primary_unique d + 1\<rparr>
                   else d\<lparr>secondary_unique := secondary_unique d + 1\<rparr>)
             else d);
    let seen = seen[line_index := True];
    let d = (if \<not> seen_combined ! line_index then d\<lparr>combined_unique := combined_unique d + 1\<rparr> else d);
    let seen_combined = seen_combined[line_index := True];
    let region = line_index div (LINE_COUNT div DIAGNOSTIC_REGIONS);
    let d = (if primary
             then d\<lparr>primary_regions := (primary_regions d)[region := primary_regions d ! region + 1]\<rparr>
             else d\<lparr>secondary_regions := (secondary_regions d)[region := secondary_regions d ! region + 1]\<rparr>);
    let count = fold (\<lambda>b ones. if bit line_index b then ones[b := ones ! b + 1] else ones) [0..<LINE_INDEX_BITS];
    let d = (if primary then d\<lparr>primary_bit_ones := count (primary_bit_ones d)\<rparr>
             else d\<lparr>secondary_bit_ones := count (secondary_bit_ones d)\<rparr>);
    Some (d, seen, seen_combined)
  }"

type_synonym diag_state = "State \<times> bytes \<times> Diagnostics \<times> bool list \<times> bool list \<times> bool list"

definition mix_step_diagnostics :: "nat \<Rightarrow> diag_state \<Rightarrow> diag_state option" where
  "mix_step_diagnostics n = (\<lambda>(state, scratchpad, d, seen_primary, seen_secondary, seen_combined). do {
    let step = of_nat n;
    (state, scratchpad, primary) \<leftarrow> PrimaryStep state scratchpad step;
    let d = d\<lparr>primary_accesses := primary_accesses d + 1\<rparr>;
    (d, seen_primary, seen_combined) \<leftarrow>
      RecordDiagnosticIndex (p_line_index primary) True d seen_primary seen_combined;
    if step mod SECONDARY_INTERVAL = 0 then do {
      (state, scratchpad, secondary) \<leftarrow> SecondaryStep state scratchpad step primary;
      let d = d\<lparr>secondary_accesses := secondary_accesses d + 1\<rparr>;
      let d = (if forced_distinct secondary
               then d\<lparr>forced_secondary_distinct := forced_secondary_distinct d + 1\<rparr> else d);
      (d, seen_secondary, seen_combined) \<leftarrow>
        RecordDiagnosticIndex (s_line_index secondary) False d seen_secondary seen_combined;
      let state = (if step mod CROSS_LANE_INTERVAL = 0 then CrossLaneMix state step else state);
      let state = (if step mod CHECKPOINT_INTERVAL = 0 then Checkpoint state step primary secondary else state);
      Some (state, scratchpad, d, seen_primary, seen_secondary, seen_combined)
    } else Some (state, scratchpad, d, seen_primary, seen_secondary, seen_combined)
  })"

definition MixScratchpadDiagnostics ::
  "State \<Rightarrow> bytes \<Rightarrow> u32 \<Rightarrow> Diagnostics \<Rightarrow> (State \<times> bytes \<times> Diagnostics) option" where
  "MixScratchpadDiagnostics state scratchpad steps d = do {
    let seen = replicate LINE_COUNT False;
    (state, scratchpad, d, _) \<leftarrow>
      mfold mix_step_diagnostics [1..<Suc (unat steps)] (state, scratchpad, d, seen, seen, seen);
    Some (state, scratchpad, d)
  }"

section \<open>Final sampling and the digest\<close>

definition sample_index :: "State \<Rightarrow> u64 \<Rightarrow> nat" where
  "sample_index state sample =
    unat ((state ! 0 XOR word_rotl 17 (state ! 5) XOR state ! 10 XOR word_rotl 41 (state ! 15)
      XOR (sample * CONSTANTS ! 0)) AND LINE_MASK)"

definition sample_mix :: "Line \<Rightarrow> u64 \<Rightarrow> nat \<Rightarrow> State \<Rightarrow> State" where
  "sample_mix memory sample index state =
    (let state = fold (\<lambda>j state. add_to j
            (memory ! j XOR word_rotl (ROTATION_1 ! j) (state ! (j + 8)) XOR (sample + CONSTANTS ! j)) state)
          [0..<LINE_WORDS] state;
         state = fold (\<lambda>j state. state[j + 8 := word_rotl (ROTATION_2 ! j)
            (state ! (j + 8) XOR state ! j XOR memory ! ((j + 3) mod 8))]) [0..<LINE_WORDS] state;
         state = xor_to 0 (of_nat index) state;
         state = add_to 8 (word_rotl 29 (of_nat index)) state
     in if (sample + 1) mod 16 = 0 then MercaARXRound state else state)"

definition FinalSample :: "State \<Rightarrow> bytes \<Rightarrow> State option" where
  "FinalSample state scratchpad =
    mfold (\<lambda>n state. do {
        let sample = of_nat n;
        let index = sample_index state sample;
        memory \<leftarrow> ReadLine scratchpad index;
        Some (sample_mix memory sample index state)
      }) [0..<FINAL_READS] state"

definition FinalizeHash :: "State \<Rightarrow> bytes \<Rightarrow> bytes \<Rightarrow> bytes" where
  "FinalizeHash state header out =
    (let hasher = SHA3_256_Write (SHA3_new (replicate 8 0)) (AsBytes FINAL_DOMAIN);
         hasher = SHA3_256_Write hasher header;
         hasher = fold (WriteHashUint64 SHA3_256_Write) state hasher
     in snd (SHA3_256_Finalize hasher out))"

section \<open>The hash functions\<close>

text \<open>The result holds the scratchpad and the output buffer after the call.\<close>

definition Hash :: "bytes \<Rightarrow> bytes \<Rightarrow> bytes \<Rightarrow> WorkParams \<Rightarrow> (bytes \<times> bytes) option" where
  "Hash header scratchpad out params = do {
    check (length header = HEADER_SIZE);
    check (length scratchpad = SCRATCHPAD_BYTES);
    check (length out = OUTPUT_SIZE);
    check (mix_steps params > 0);
    state \<leftarrow> InitialState header;
    (state, scratchpad) \<leftarrow> FillScratchpad state scratchpad (scratchpad_fill params);
    (state, scratchpad, _) \<leftarrow> BindScratchpad state scratchpad (binding_passes params) None;
    (state, scratchpad) \<leftarrow> MixScratchpad state scratchpad (mix_steps params);
    state \<leftarrow> FinalSample state scratchpad;
    Some (scratchpad, FinalizeHash state header out)
  }"

definition V1_PARAMS :: WorkParams where
  "V1_PARAMS = \<lparr>mix_steps = V1_MIX_STEPS, scratchpad_fill = V1_SCRATCHPAD_FILL, binding_passes = V1_BINDING_PASSES\<rparr>"

definition HashV1 :: "bytes \<Rightarrow> bytes \<Rightarrow> bytes \<Rightarrow> (bytes \<times> bytes) option" where
  "HashV1 header scratchpad out = Hash header scratchpad out V1_PARAMS"

definition HashWithDiagnostics ::
  "bytes \<Rightarrow> bytes \<Rightarrow> bytes \<Rightarrow> WorkParams \<Rightarrow> Diagnostics \<Rightarrow> (bytes \<times> bytes \<times> Diagnostics) option" where
  "HashWithDiagnostics header scratchpad out params diagnostics = do {
    check (length header = HEADER_SIZE);
    check (length scratchpad = SCRATCHPAD_BYTES);
    check (length out = OUTPUT_SIZE);
    check (mix_steps params > 0);
    let d = Diagnostics_init;
    state \<leftarrow> InitialState header;
    (state, scratchpad) \<leftarrow> FillScratchpad state scratchpad (scratchpad_fill params);
    (state, scratchpad, diag) \<leftarrow> BindScratchpad state scratchpad (binding_passes params) (Some d);
    (state, scratchpad, d) \<leftarrow> MixScratchpadDiagnostics state scratchpad (mix_steps params) (the diag);
    state \<leftarrow> FinalSample state scratchpad;
    Some (scratchpad, FinalizeHash state header out, d)
  }"

end
