(* ===== verification/MercaHashRefine.thy ===== *)
theory MercaHashRefine
  imports MercaHash
begin

text \<open>
  The proof of work over an array of lines: the byte-level operations of \<open>MercaHash\<close> refine
  pure functions on a list of \<open>LINE_COUNT\<close> lines, no assertion of the source can fail, the result
  does not depend on what the scratchpad or the output buffer held before, and the diagnostic
  run computes the same hash.
\<close>

section \<open>The scratchpad as an array of lines\<close>

definition lines_of :: "bytes \<Rightarrow> Line list" where
  "lines_of pad = dec_array 64 LINE_COUNT (dec_array 8 8 le_word) pad"

definition pack :: "Line list \<Rightarrow> bytes" where
  "pack ls = enc_array (enc_array (le_bytes 8)) ls"

definition valid_lines :: "Line list \<Rightarrow> bool" where
  "valid_lines ls \<longleftrightarrow> length ls = LINE_COUNT \<and> (\<forall>l \<in> set ls. length l = 8)"

lemma LINE_COUNT_val: "LINE_COUNT = 2097152" "LINE_COUNT = 2 ^ 21" "SCRATCHPAD_BYTES = LINE_COUNT * 64"
  "LINE_COUNT = BIND_BLOCK_COUNT * BIND_BLOCK_LINES" "BIND_BLOCK_LINES = 64" "BIND_BLOCK_COUNT = 32768"
  by (simp_all add: LINE_COUNT_def SCRATCHPAD_BYTES_def LINE_BYTES_def BIND_BLOCK_COUNT_def
      BIND_BLOCK_LINES_def BIND_BLOCK_BYTES_def)

lemma LINE_WORDS_val [simp]: "LINE_WORDS = 8"
  by (simp add: LINE_WORDS_def)

lemma check_simps [simp]: "check True = Some ()" "check False = None"
  by (simp_all add: check_def)

lemma valid_linesD: "valid_lines ls \<Longrightarrow> i < LINE_COUNT \<Longrightarrow> length (ls ! i) = 8"
  by (simp add: valid_lines_def)

lemma valid_lines_update: "valid_lines ls \<Longrightarrow> length l = 8 \<Longrightarrow> valid_lines (ls[i := l])"
  by (auto simp: valid_lines_def dest!: set_update_subset_insert [THEN subsetD])

lemma length_pack: "valid_lines ls \<Longrightarrow> length (pack ls) = SCRATCHPAD_BYTES"
  using le64x8.arr.length_enc_array [of ls] by (simp add: valid_lines_def pack_def LINE_COUNT_val)

lemma lines_of_pack: "valid_lines ls \<Longrightarrow> lines_of (pack ls) = ls"
  using le64x8.arr.dec_enc_array [of ls LINE_COUNT] by (simp add: valid_lines_def pack_def lines_of_def)

lemma pack_lines_of: "length pad = SCRATCHPAD_BYTES \<Longrightarrow> pack (lines_of pad) = pad"
  using le64x8.arr.enc_dec_array [of pad LINE_COUNT] by (simp add: lines_of_def pack_def LINE_COUNT_val)

lemma valid_lines_of: "length pad = SCRATCHPAD_BYTES \<Longrightarrow> valid_lines (lines_of pad)"
  by (auto simp: lines_of_def valid_lines_def dec_array_def)

lemma pack_inj: "valid_lines ls \<Longrightarrow> valid_lines ls' \<Longrightarrow> pack ls = pack ls' \<longleftrightarrow> ls = ls'"
  by (metis lines_of_pack)

lemma ReadLine_lines:
  assumes "length pad = SCRATCHPAD_BYTES" "i < LINE_COUNT"
  shows "ReadLine pad i = Some (lines_of pad ! i)"
proof -
  have "lines_of pad ! i = dec_array 8 8 le_word (slice (i * 64) 64 pad)"
    using assms(2) by (simp add: lines_of_def nth_dec_array)
  also have "\<dots> = map (\<lambda>j. ReadLE64 pad (i * LINE_BYTES + j * 8)) [0..<LINE_WORDS]"
    by (auto simp: dec_array_def ReadLE64_def LINE_BYTES_def slice_slice intro!: map_cong)
  finally show ?thesis using assms(2) by (simp add: ReadLine_def)
qed

lemma ReadLine_pack: "valid_lines ls \<Longrightarrow> i < LINE_COUNT \<Longrightarrow> ReadLine (pack ls) i = Some (ls ! i)"
  by (simp add: ReadLine_lines length_pack lines_of_pack)

lemma WriteLine_splice:
  assumes "length pad = SCRATCHPAD_BYTES" "i < LINE_COUNT" "length l = 8"
  shows "WriteLine pad i l = Some (splice (i * 64) (enc_array (le_bytes 8) l) pad)"
proof -
  have "i * 64 + 8 * 8 \<le> length pad" using assms by (simp add: LINE_COUNT_val)
  then have "fold (\<lambda>j. splice (i * 64 + j * 8) (le_bytes 8 (l ! j))) [0..<8] pad =
      splice (i * 64) (enc_array (le_bytes 8) (take 8 l)) pad"
    using assms(3) by (intro le64.fold_write_at) simp_all
  then show ?thesis using assms by (simp add: WriteLine_def WriteLE64_def LINE_BYTES_def)
qed

lemma WriteLine_pack:
  assumes "valid_lines ls" "i < LINE_COUNT" "length l = 8"
  shows "WriteLine (pack ls) i l = Some (pack (ls[i := l]))"
proof -
  let ?pad = "splice (i * 64) (enc_array (le_bytes 8) l) (pack ls)"
  have le: "length (enc_array (le_bytes 8) l) = 64"
    using le64.length_enc_array [of l] assms(3) by simp
  have "lines_of ?pad = (lines_of (pack ls))[i := l]"
    using le64x8.arr.dec_array_write [of l i LINE_COUNT "pack ls"] assms length_pack [OF assms(1)]
    by (simp add: lines_of_def LINE_COUNT_val(3))
  moreover have "length ?pad = SCRATCHPAD_BYTES"
    using assms(2) le length_pack [OF assms(1)] by (simp add: LINE_COUNT_val)
  ultimately have "?pad = pack (ls[i := l])"
    using pack_lines_of [of ?pad] by (simp add: lines_of_pack [OF assms(1)])
  then show ?thesis using assms length_pack [OF assms(1)] by (simp add: WriteLine_splice)
qed

section \<open>Loops that simulate\<close>

lemma mfold_sim:
  assumes "R a c"
    and "\<And>x a c. x \<in> set xs \<Longrightarrow> R a c \<Longrightarrow> \<exists>c'. f x c = Some c' \<and> R (g x a) c'"
  shows "\<exists>c'. mfold f xs c = Some c' \<and> R (fold g xs a) c'"
  using assms
proof (induction xs arbitrary: a c)
  case (Cons x xs)
  then obtain c' where "f x c = Some c'" "R (g x a) c'" by force
  with Cons.IH [of "g x a" c'] Cons.prems(2) show ?case by simp
qed simp

lemma mfold_snoc: "mfold f (xs @ [x]) s = mfold f xs s \<bind> f x"
  by (induction xs arbitrary: s) (simp_all split: bind_splits)

lemma fold_invariant:
  "P s \<Longrightarrow> (\<And>x s. x \<in> set xs \<Longrightarrow> P s \<Longrightarrow> P (f x s)) \<Longrightarrow> P (fold f xs s)"
  by (induction xs arbitrary: s) simp_all

section \<open>Filling\<close>

text \<open>The lines are generated one after the other; the old contents are not used.\<close>

definition fill_step :: "ScratchpadFillMode \<Rightarrow> nat \<Rightarrow> State \<times> Line list \<Rightarrow> State \<times> Line list" where
  "fill_step mode i = (\<lambda>(state, ls).
    let state = fill_mix mode i state; line = fill_line state
    in (fill_feedback line state, ls @ [line]))"

definition fill_spec :: "ScratchpadFillMode \<Rightarrow> State \<Rightarrow> State \<times> Line list" where
  "fill_spec mode state = fold (fill_step mode) [0..<LINE_COUNT] (fill_domain state, [])"

lemma length_fill_line [simp]: "length (fill_line st) = 8"
  by (simp add: fill_line_def)

lemma fill_steps:
  assumes "valid_lines ls0" "n \<le> LINE_COUNT"
  shows "\<exists>st ls. fold (fill_step mode) [0..<n] (st0, []) = (st, ls) \<and>
    length ls = n \<and> (\<forall>l \<in> set ls. length l = 8) \<and>
    mfold (\<lambda>i (state, scratchpad). do {
        let state = fill_mix mode i state;
        let line = fill_line state;
        scratchpad \<leftarrow> WriteLine scratchpad i line;
        Some (fill_feedback line state, scratchpad)
      }) [0..<n] (st0, pack ls0) = Some (st, pack (ls @ drop n ls0))"
    (is "\<exists>st ls. _ \<and> _ \<and> _ \<and> mfold ?f _ _ = _")
  using assms(2)
proof (induction n)
  case (Suc n)
  then obtain st ls where IH: "fold (fill_step mode) [0..<n] (st0, []) = (st, ls)"
    "length ls = n" "\<forall>l \<in> set ls. length l = 8"
    "mfold ?f [0..<n] (st0, pack ls0) = Some (st, pack (ls @ drop n ls0))" by auto
  let ?st = "fill_mix mode n st"
  let ?l = "fill_line ?st"
  have n: "n < length ls0" using assms(1) Suc.prems by (simp add: valid_lines_def)
  have v: "valid_lines (ls @ drop n ls0)"
    using assms(1) IH(2,3) n by (auto simp: valid_lines_def dest: in_set_dropD)
  have u: "(ls @ drop n ls0)[n := ?l] = (ls @ [?l]) @ drop (Suc n) ls0"
    using IH(2) n by (simp add: list_update_append Cons_nth_drop_Suc [symmetric])
  have w: "WriteLine (pack (ls @ drop n ls0)) n ?l = Some (pack ((ls @ [?l]) @ drop (Suc n) ls0))"
    using WriteLine_pack [OF v, of n ?l] Suc.prems u by simp
  have "mfold ?f [0..<Suc n] (st0, pack ls0) = mfold ?f [0..<n] (st0, pack ls0) \<bind> ?f n"
    by (simp add: mfold_snoc)
  also have "\<dots> = Some (fill_feedback ?l ?st, pack ((ls @ [?l]) @ drop (Suc n) ls0))"
    unfolding IH(4) using w by (simp add: Let_def)
  finally have "mfold ?f [0..<Suc n] (st0, pack ls0) =
      Some (fill_feedback ?l ?st, pack ((ls @ [?l]) @ drop (Suc n) ls0))" .
  moreover have "fold (fill_step mode) [0..<Suc n] (st0, []) = (fill_feedback ?l ?st, ls @ [?l])"
    using IH(1) by (simp add: fill_step_def Let_def)
  ultimately show ?case using IH(2,3) by auto
qed simp

lemma FillScratchpad_refines:
  assumes "length pad = SCRATCHPAD_BYTES"
  shows "\<exists>st ls. fill_spec mode state = (st, ls) \<and> valid_lines ls \<and>
    FillScratchpad state pad mode = Some (st, pack ls)"
proof -
  have v: "valid_lines (lines_of pad)" "pack (lines_of pad) = pad"
    using assms by (simp_all add: valid_lines_of pack_lines_of)
  from fill_steps [OF v(1) order_refl, of mode "fill_domain state"] v show ?thesis
    using assms by (auto simp: fill_spec_def FillScratchpad_def valid_lines_def)
qed

section \<open>Binding\<close>

definition bind_line_spec ::
  "State \<Rightarrow> u64 \<Rightarrow> nat \<Rightarrow> nat \<Rightarrow> nat \<Rightarrow> nat \<Rightarrow> Line list \<times> Line \<Rightarrow> Line list \<times> Line" where
  "bind_line_spec state pass block ref rot line = (\<lambda>(ls, acc).
    let bound = bound_line state line (line_tag (of_nat block) line pass)
          (ls ! (block * BIND_BLOCK_LINES + line))
          (ls ! (previous_block block * BIND_BLOCK_LINES + (line + BIND_BLOCK_LINES - 1) mod BIND_BLOCK_LINES))
          (ls ! (ref * BIND_BLOCK_LINES + (line + rot) mod BIND_BLOCK_LINES))
    in (ls[block * BIND_BLOCK_LINES + line := bound], accumulate bound acc))"

definition bind_diag :: "nat \<Rightarrow> nat \<Rightarrow> Diagnostics option \<Rightarrow> Diagnostics option" where
  "bind_diag block ref dg =
    (if block = 0 then dg else map_option (\<lambda>d. the (record_binding block ref d)) dg)"

definition block_seed :: "u64 \<Rightarrow> nat \<Rightarrow> State \<Rightarrow> Line list \<Rightarrow> u64" where
  "block_seed pass block state ls = binding_seed state (ls ! (block * BIND_BLOCK_LINES)) (of_nat block) pass"

definition bind_block_core :: "u64 \<Rightarrow> nat \<Rightarrow> State \<times> Line list \<Rightarrow> State \<times> Line list" where
  "bind_block_core pass block = (\<lambda>(state, ls).
    let seed = block_seed pass block state ls;
        ref = reference_block seed block;
        (ls, acc) = fold (bind_line_spec state pass block ref (reference_rotation seed))
          [0..<BIND_BLOCK_LINES] (ls, replicate 8 0)
    in (bind_arx block (bind_feedback acc seed (of_nat block) state), ls))"

definition bind_block_spec :: "u64 \<Rightarrow> nat \<Rightarrow> (State \<times> Line list) \<times> Diagnostics option \<Rightarrow>
    (State \<times> Line list) \<times> Diagnostics option" where
  "bind_block_spec pass block = (\<lambda>((state, ls), dg).
    (bind_block_core pass block (state, ls),
     bind_diag block (reference_block (block_seed pass block state ls) block) dg))"

definition bind_pass_spec :: "nat \<Rightarrow> (State \<times> Line list) \<times> Diagnostics option \<Rightarrow>
    (State \<times> Line list) \<times> Diagnostics option" where
  "bind_pass_spec pass = (\<lambda>((state, ls), dg).
    let ((state, ls), dg) = fold (bind_block_spec (of_nat pass)) [0..<BIND_BLOCK_COUNT]
          ((bind_pass_start (of_nat pass) state, ls), dg)
    in ((MercaARXRound state, ls), dg))"

definition bind_spec :: "u32 \<Rightarrow> (State \<times> Line list) \<times> Diagnostics option \<Rightarrow>
    (State \<times> Line list) \<times> Diagnostics option" where
  "bind_spec passes = fold bind_pass_spec [0..<unat passes]"

text \<open>The same computation without diagnostics.\<close>

definition bind_pass_core :: "nat \<Rightarrow> State \<times> Line list \<Rightarrow> State \<times> Line list" where
  "bind_pass_core pass = (\<lambda>(state, ls).
    let (state, ls) = fold (bind_block_core (of_nat pass)) [0..<BIND_BLOCK_COUNT]
          (bind_pass_start (of_nat pass) state, ls)
    in (MercaARXRound state, ls))"

definition bind_core :: "u32 \<Rightarrow> State \<times> Line list \<Rightarrow> State \<times> Line list" where
  "bind_core passes = fold bind_pass_core [0..<unat passes]"

lemma fold_fst:
  assumes "\<And>x a. fst (f x a) = g x (fst a)"
  shows "fst (fold f xs a) = fold g xs (fst a)"
  by (induction xs arbitrary: a) (simp_all add: assms)

lemma fst_bind_block_spec: "fst (bind_block_spec p k a) = bind_block_core p k (fst a)"
  by (cases a) (simp add: bind_block_spec_def split: prod.splits)

lemma fst_bind_pass_spec: "fst (bind_pass_spec p a) = bind_pass_core p (fst a)"
proof -
  obtain st ls dg where a: "a = ((st, ls), dg)" by (metis prod.exhaust)
  have "fst (fold (bind_block_spec (of_nat p)) [0..<BIND_BLOCK_COUNT] ((bind_pass_start (of_nat p) st, ls), dg)) =
      fold (bind_block_core (of_nat p)) [0..<BIND_BLOCK_COUNT] (bind_pass_start (of_nat p) st, ls)"
    by (subst fold_fst [where g = "bind_block_core (of_nat p)"]) (simp_all add: fst_bind_block_spec)
  then show ?thesis
    by (auto simp: a bind_pass_spec_def bind_pass_core_def split: prod.splits)
qed

text \<open>The diagnostics never influence the state or the scratchpad.\<close>

lemma fst_bind_spec: "fst (bind_spec passes a) = bind_core passes (fst a)"
  unfolding bind_spec_def bind_core_def by (rule fold_fst) (rule fst_bind_pass_spec)

lemma bind_diag_None [simp]: "bind_diag block ref None = None"
  by (simp add: bind_diag_def)

lemma length_bound_line [simp]: "length (bound_line st line tag cur prev ref) = 8"
  by (simp add: bound_line_def)

lemma previous_block_less: "block < BIND_BLOCK_COUNT \<Longrightarrow> previous_block block < BIND_BLOCK_COUNT"
  by (auto simp: previous_block_def LINE_COUNT_val)

lemma reference_block_below:
  assumes "block \<noteq> 0" "block < BIND_BLOCK_COUNT"
  shows "reference_block seed block < block"
proof -
  have "unat (of_nat block :: u64) = block"
    using assms by (simp add: unat_of_nat_small LINE_COUNT_val)
  then show ?thesis using assms by (simp add: reference_block_def unat_mod)
qed

lemma reference_block_less: "block < BIND_BLOCK_COUNT \<Longrightarrow> reference_block seed block < BIND_BLOCK_COUNT"
  using reference_block_below [of block seed]
  by (cases "block = 0") (simp_all add: reference_block_def LINE_COUNT_val)

lemma block_line_less: "block < BIND_BLOCK_COUNT \<Longrightarrow> line < BIND_BLOCK_LINES \<Longrightarrow>
    block * BIND_BLOCK_LINES + line < LINE_COUNT"
  by (simp add: LINE_COUNT_val)

lemma mod_block_lines: "n mod BIND_BLOCK_LINES < BIND_BLOCK_LINES"
  by (simp add: LINE_COUNT_val)

definition line_rel :: "Line list \<times> Line \<Rightarrow> bytes \<times> Line \<Rightarrow> bool" where
  "line_rel a c \<longleftrightarrow> valid_lines (fst a) \<and> c = (pack (fst a), snd a)"

lemma bind_line_refines:
  assumes "block < BIND_BLOCK_COUNT" "ref < BIND_BLOCK_COUNT" "line < BIND_BLOCK_LINES" "line_rel a c"
  shows "\<exists>c'. bind_line st pass block ref rot line c = Some c' \<and>
    line_rel (bind_line_spec st pass block ref rot line a) c'"
proof -
  obtain ls acc where a: "a = (ls, acc)" and v: "valid_lines ls" and c: "c = (pack ls, acc)"
    using assms(4) by (cases a) (auto simp: line_rel_def)
  note r = ReadLine_pack [OF v block_line_less]
  show ?thesis
    using assms(1-3) v
    by (simp add: a c bind_line_def bind_line_spec_def Let_def r previous_block_less mod_block_lines
        WriteLine_pack block_line_less valid_lines_update line_rel_def)
qed

lemma record_binding_total:
  assumes "ref < block" "block < BIND_BLOCK_COUNT"
  shows "record_binding block ref d \<noteq> None"
proof -
  have b: "unat (of_nat block :: u64) = block" "unat (of_nat ref :: u64) = ref"
    using assms by (simp_all add: unat_of_nat_small LINE_COUNT_val)
  have "unat (of_nat ref * of_nat DIAGNOSTIC_REGIONS :: u64) = ref * 64"
    using assms b by (simp add: unat_word_ariths DIAGNOSTIC_REGIONS_def LINE_COUNT_val)
  then have "unat (of_nat ref * of_nat DIAGNOSTIC_REGIONS div (of_nat block :: u64)) = ref * 64 div block"
    by (simp add: unat_div b)
  moreover have "ref * 64 div block < 64" using assms by (simp add: less_mult_imp_div_less)
  ultimately show ?thesis
    by (simp add: record_binding_def Let_def DIAGNOSTIC_REGIONS_def)
qed

definition pad_rel :: "(State \<times> Line list) \<times> Diagnostics option \<Rightarrow> State \<times> bytes \<times> Diagnostics option \<Rightarrow> bool" where
  "pad_rel a c \<longleftrightarrow> valid_lines (snd (fst a)) \<and> c = (fst (fst a), pack (snd (fst a)), snd a)"

lemma bind_block_refines:
  assumes "block < BIND_BLOCK_COUNT" "pad_rel a c"
  shows "\<exists>c'. bind_block pass block c = Some c' \<and> pad_rel (bind_block_spec pass block a) c'"
proof -
  obtain st ls dg where a: "a = ((st, ls), dg)" by (metis prod.exhaust)
  with assms(2) have v: "valid_lines ls" and c: "c = (st, pack ls, dg)" by (simp_all add: pad_rel_def)
  let ?seed = "block_seed pass block st ls"
  let ?ref = "reference_block ?seed block"
  let ?f = "bind_line st pass block ?ref (reference_rotation ?seed)"
  let ?g = "bind_line_spec st pass block ?ref (reference_rotation ?seed)"
  have head: "ReadLine (pack ls) (block * BIND_BLOCK_LINES) = Some (ls ! (block * BIND_BLOCK_LINES))"
    using ReadLine_pack [OF v block_line_less [OF assms(1), of 0]] by (simp add: LINE_COUNT_val)
  have "line_rel (ls, replicate 8 0) (pack ls, replicate 8 0)" using v by (simp add: line_rel_def)
  moreover have "\<exists>c'. ?f line c = Some c' \<and> line_rel (?g line a) c'"
    if "line \<in> set [0..<BIND_BLOCK_LINES]" "line_rel a c" for line a c
    by (rule bind_line_refines [OF assms(1) reference_block_less [OF assms(1)]]) (use that in simp_all)
  ultimately have "\<exists>c'. mfold ?f [0..<BIND_BLOCK_LINES] (pack ls, replicate 8 0) = Some c' \<and>
      line_rel (fold ?g [0..<BIND_BLOCK_LINES] (ls, replicate 8 0)) c'"
    by (rule mfold_sim)
  then obtain c' where c': "mfold ?f [0..<BIND_BLOCK_LINES] (pack ls, replicate 8 0) = Some c'"
    "line_rel (fold ?g [0..<BIND_BLOCK_LINES] (ls, replicate 8 0)) c'" by blast
  have dg: "(if block \<noteq> 0 then check (?ref < block) \<bind>
      (\<lambda>_. case dg of None \<Rightarrow> Some None | Some d \<Rightarrow> map_option Some (record_binding block ?ref d))
      else Some dg) = Some (bind_diag block ?ref dg)"
    using reference_block_below [of block ?seed] assms(1) record_binding_total [of ?ref block]
    by (auto simp: bind_diag_def split: option.split) metis
  obtain ls' acc where spec: "fold ?g [0..<BIND_BLOCK_LINES] (ls, replicate 8 0) = (ls', acc)"
    by (rule prod.exhaust)
  from c'(2) have c'_eq: "c' = (pack ls', acc)" and v': "valid_lines ls'" by (simp_all add: line_rel_def spec)
  have "bind_block pass block c =
      Some (bind_arx block (bind_feedback acc ?seed (of_nat block) st), pack ls', bind_diag block ?ref dg)"
    unfolding bind_block_def c prod.case head Option.bind.simps Let_def block_seed_def [symmetric]
      dg LINE_WORDS_val c'(1) c'_eq ..
  moreover have "bind_block_spec pass block a =
      ((bind_arx block (bind_feedback acc ?seed (of_nat block) st), ls'), bind_diag block ?ref dg)"
    unfolding bind_block_spec_def bind_block_core_def a prod.case Let_def spec ..
  ultimately show ?thesis using v' by (simp add: pad_rel_def)
qed

lemma BindScratchpad_refines:
  assumes v: "valid_lines ls"
  shows "\<exists>st' ls' dg'. bind_spec passes ((st, ls), dg) = ((st', ls'), dg') \<and> valid_lines ls' \<and>
    BindScratchpad st (pack ls) passes dg = Some (st', pack ls', dg')"
proof -
  let ?body = "\<lambda>pass (state, scratchpad, diagnostics). do {
        (state, scratchpad, diagnostics) \<leftarrow>
          mfold (bind_block (of_nat pass)) [0..<BIND_BLOCK_COUNT]
            (bind_pass_start (of_nat pass) state, scratchpad, diagnostics);
        Some (MercaARXRound state, scratchpad, diagnostics)
      }"
  have pass: "\<exists>c'. ?body pass c = Some c' \<and> pad_rel (bind_pass_spec pass a) c'" if rel: "pad_rel a c" for pass a c
  proof -
    obtain st ls dg where a: "a = ((st, ls), dg)" by (metis prod.exhaust)
    with rel have v: "valid_lines ls" and c: "c = (st, pack ls, dg)" by (simp_all add: pad_rel_def)
    let ?p = "of_nat pass :: u64"
    let ?a = "((bind_pass_start ?p st, ls), dg)"
    have "pad_rel ?a (bind_pass_start ?p st, pack ls, dg)" using v by (simp add: pad_rel_def)
    moreover have "\<exists>c'. bind_block ?p block c = Some c' \<and> pad_rel (bind_block_spec ?p block a) c'"
      if "block \<in> set [0..<BIND_BLOCK_COUNT]" "pad_rel a c" for block a c
      using that by (intro bind_block_refines) simp_all
    ultimately have "\<exists>c'. mfold (bind_block ?p) [0..<BIND_BLOCK_COUNT]
        (bind_pass_start ?p st, pack ls, dg) = Some c' \<and>
        pad_rel (fold (bind_block_spec ?p) [0..<BIND_BLOCK_COUNT] ?a) c'"
      by (rule mfold_sim)
    moreover obtain st' ls' dg' where f: "fold (bind_block_spec ?p) [0..<BIND_BLOCK_COUNT] ?a = ((st', ls'), dg')"
      by (metis prod.exhaust)
    ultimately have "mfold (bind_block ?p) [0..<BIND_BLOCK_COUNT]
        (bind_pass_start ?p st, pack ls, dg) = Some (st', pack ls', dg')" "valid_lines ls'"
      by (auto simp: pad_rel_def)
    then show ?thesis by (simp add: a c bind_pass_spec_def pad_rel_def f)
  qed
  have "pad_rel ((st, ls), dg) (st, pack ls, dg)" using v by (simp add: pad_rel_def)
  then have "\<exists>c'. mfold ?body [0..<unat passes] (st, pack ls, dg) = Some c' \<and>
      pad_rel (bind_spec passes ((st, ls), dg)) c'"
    unfolding bind_spec_def by (rule mfold_sim) (rule pass)
  moreover obtain st' ls' dg' where b: "bind_spec passes ((st, ls), dg) = ((st', ls'), dg')"
    by (metis prod.exhaust)
  ultimately show ?thesis
    by (auto simp: BindScratchpad_def pad_rel_def length_pack v b)
qed

section \<open>Mixing\<close>

definition primary_spec :: "State \<times> Line list \<Rightarrow> u64 \<Rightarrow> (State \<times> Line list) \<times> PrimaryResult" where
  "primary_spec = (\<lambda>(state, ls) step.
    let i = primary_index state step;
        state = primary_mix (ls ! i) step state;
        written = primary_line (ls ! i) step state
    in ((primary_feedback written state, ls[i := written]), \<lparr>p_line_index = i, p_written = written\<rparr>))"

definition secondary_spec ::
  "State \<times> Line list \<Rightarrow> u64 \<Rightarrow> PrimaryResult \<Rightarrow> (State \<times> Line list) \<times> SecondaryResult" where
  "secondary_spec = (\<lambda>(state, ls) step primary.
    let candidate = secondary_candidate state step primary;
        i = secondary_index state step primary;
        state = secondary_mix (ls ! i) step state;
        written = secondary_line (ls ! i) step state
    in ((secondary_feedback written state, ls[i := written]),
        \<lparr>s_line_index = i, s_written = written, forced_distinct = (candidate = p_line_index primary)\<rparr>))"

definition after_secondary :: "u64 \<Rightarrow> PrimaryResult \<Rightarrow> SecondaryResult \<Rightarrow> State \<Rightarrow> State" where
  "after_secondary step primary secondary state =
    (let state = (if step mod CROSS_LANE_INTERVAL = 0 then CrossLaneMix state step else state)
     in if step mod CHECKPOINT_INTERVAL = 0 then Checkpoint state step primary secondary else state)"

definition mix_step_core :: "nat \<Rightarrow> State \<times> Line list \<Rightarrow> State \<times> Line list" where
  "mix_step_core n a =
    (let step = of_nat n; (a, primary) = primary_spec a step
     in if step mod SECONDARY_INTERVAL = 0
        then let ((state, ls), secondary) = secondary_spec a step primary
             in (after_secondary step primary secondary state, ls)
        else a)"

definition mix_core :: "u32 \<Rightarrow> State \<times> Line list \<Rightarrow> State \<times> Line list" where
  "mix_core steps = fold mix_step_core [1..<Suc (unat steps)]"

lemma LINE_MASK_val: "LINE_MASK = mask 21"
  by (simp add: LINE_MASK_def LINE_COUNT_val mask_eq_exp_minus_1)

lemma masked_index_less: "unat (x AND LINE_MASK) < LINE_COUNT"
proof -
  have "unat (take_bit 21 x) < 2 ^ 21"
    using take_bit_nat_less_exp [of 21 "unat x"] by (simp only: unsigned_take_bit_eq)
  then show ?thesis by (simp add: LINE_MASK_val LINE_COUNT_val(2) take_bit_eq_mask [symmetric])
qed

lemma primary_index_less: "primary_index st step < LINE_COUNT"
  by (simp only: primary_index_def masked_index_less)

lemma xor_one_nat: "(i :: nat) XOR 1 = (if even i then i + 1 else i - 1)"
  by (simp only: xor_one_eq) auto

lemma xor_one_less: "i < LINE_COUNT \<Longrightarrow> i XOR 1 < LINE_COUNT"
proof -
  assume "i < LINE_COUNT"
  moreover have "i + 1 \<noteq> 2097152" if "even i" using that by presburger
  ultimately show ?thesis unfolding xor_one_nat LINE_COUNT_val(1) by (split if_split) linarith
qed

lemma secondary_index_less: "secondary_index st step p < LINE_COUNT"
proof -
  have "secondary_candidate st step p < LINE_COUNT"
    by (simp only: secondary_candidate_def masked_index_less)
  then show ?thesis using xor_one_less by (simp add: secondary_index_def Let_def)
qed

lemma secondary_index_distinct: "secondary_index st step p \<noteq> p_line_index p"
proof -
  have "(i :: nat) XOR 1 \<noteq> i" for i
    unfolding xor_one_nat by (split if_split) (metis Suc_eq_plus1 Suc_pred' even_zero gr0I n_not_Suc_n)
  then have "(if i = k then i XOR 1 else i) \<noteq> k" for i k :: nat by metis
  then show ?thesis unfolding secondary_index_def Let_def .
qed

lemma length_written [simp]:
  "length (primary_line m step st) = 8" "length (secondary_line m step st) = 8"
  by (simp_all add: primary_line_def secondary_line_def)

lemma PrimaryStep_refines:
  assumes "valid_lines (snd a)"
  shows "PrimaryStep (fst a) (pack (snd a)) step =
      (case primary_spec a step of ((st, ls), p) \<Rightarrow> Some (st, pack ls, p))"
    and "valid_lines (snd (fst (primary_spec a step)))"
  using assms
  by (cases a; simp add: PrimaryStep_def primary_spec_def Let_def ReadLine_pack WriteLine_pack
      primary_index_less valid_lines_update)+

lemma SecondaryStep_refines:
  assumes "valid_lines (snd a)"
  shows "SecondaryStep (fst a) (pack (snd a)) step p =
      (case secondary_spec a step p of ((st, ls), s) \<Rightarrow> Some (st, pack ls, s))"
    and "valid_lines (snd (fst (secondary_spec a step p)))"
  using assms
  by (cases a; simp add: SecondaryStep_def secondary_spec_def Let_def ReadLine_pack WriteLine_pack
      secondary_index_less valid_lines_update)+

lemma mix_step_valid: "valid_lines (snd a) \<Longrightarrow> valid_lines (snd (mix_step_core n a))"
proof -
  assume "valid_lines (snd a)"
  note v = PrimaryStep_refines(2) [OF this]
  then show ?thesis
    using SecondaryStep_refines(2) [OF v]
    by (simp add: mix_step_core_def Let_def split: prod.splits) (metis fst_conv snd_conv)
qed

lemma mix_step_refines:
  assumes v: "valid_lines (snd a)"
  shows "mix_step n (fst a, pack (snd a)) = Some (fst (mix_step_core n a), pack (snd (mix_step_core n a)))"
proof -
  let ?s = "of_nat n :: u64"
  obtain st ls p where P: "primary_spec a ?s = ((st, ls), p)" by (metis prod.exhaust)
  have v': "valid_lines ls" using PrimaryStep_refines(2) [OF v, of ?s] P by simp
  obtain st' ls' q where S: "secondary_spec (st, ls) ?s p = ((st', ls'), q)" by (metis prod.exhaust)
  show ?thesis
    using PrimaryStep_refines(1) [OF v, of ?s] SecondaryStep_refines(1) [of "(st, ls)" ?s p] v'
    by (simp add: mix_step_def mix_step_core_def P S after_secondary_def Let_def)
qed

lemma MixScratchpad_refines:
  assumes "valid_lines ls"
  shows "\<exists>st' ls'. mix_core steps (st, ls) = (st', ls') \<and> valid_lines ls' \<and>
    MixScratchpad st (pack ls) steps = Some (st', pack ls')"
proof -
  let ?R = "\<lambda>a c. valid_lines (snd a) \<and> c = (fst a, pack (snd a))"
  have "?R (st, ls) (st, pack ls)" using assms by simp
  moreover have "\<exists>c'. mix_step n c = Some c' \<and> ?R (mix_step_core n a) c'"
    if "n \<in> set ns" "?R a c" for n ns a c
    using that mix_step_refines mix_step_valid by simp
  ultimately have "\<exists>c'. mfold mix_step [1..<Suc (unat steps)] (st, pack ls) = Some c' \<and>
      ?R (mix_core steps (st, ls)) c'"
    unfolding mix_core_def by (rule mfold_sim)
  then show ?thesis
    by (cases "mix_core steps (st, ls)") (simp add: MixScratchpad_def)
qed

section \<open>Final sampling\<close>

definition sample_core :: "Line list \<Rightarrow> nat \<Rightarrow> State \<Rightarrow> State" where
  "sample_core ls n state =
    (let index = sample_index state (of_nat n) in sample_mix (ls ! index) (of_nat n) index state)"

definition final_core :: "Line list \<Rightarrow> State \<Rightarrow> State" where
  "final_core ls = fold (sample_core ls) [0..<FINAL_READS]"

lemma FinalSample_refines:
  assumes "valid_lines ls"
  shows "FinalSample st (pack ls) = Some (final_core ls st)"
proof -
  let ?f = "\<lambda>n state. do {
        let sample = of_nat n;
        let index = sample_index state sample;
        memory \<leftarrow> ReadLine (pack ls) index;
        Some (sample_mix memory sample index state)
      }"
  have "?f n state = Some (sample_core ls n state)" for n state
    using ReadLine_pack [OF assms masked_index_less] by (simp add: sample_core_def sample_index_def Let_def)
  then have "mfold ?f ns st = Some (fold (sample_core ls) ns st)" for ns st
    by (induction ns arbitrary: st) simp_all
  then show ?thesis unfolding FinalSample_def final_core_def .
qed

section \<open>Initial state and digests\<close>

definition initial_spec :: "bytes \<Rightarrow> State" where
  "initial_spec header = dec_array 8 8 le_word (sha3_spec 9 8 (AsBytes STATE_DOMAIN_0 @ header)) @
    dec_array 8 8 le_word (sha3_spec 9 8 (AsBytes STATE_DOMAIN_1 @ header))"

definition digest_spec :: "State \<Rightarrow> bytes \<Rightarrow> bytes" where
  "digest_spec state header = sha3_spec 17 4 (AsBytes FINAL_DOMAIN @ header @ enc_array (le_bytes 8) state)"

definition checkpoint_message :: "State \<Rightarrow> u64 \<Rightarrow> PrimaryResult \<Rightarrow> SecondaryResult \<Rightarrow> bytes" where
  "checkpoint_message state step primary secondary = AsBytes CHECKPOINT_DOMAIN @ enc_array (le_bytes 8)
    ([step, of_nat (p_line_index primary), of_nat (s_line_index secondary)] @ state @ p_written primary
      @ s_written secondary)"

lemmas sha3_512_digest = SHA3_digest [OF sha3_512.buffered_hasher_axioms, of 8, simplified,
    folded SHA3_512_Finalize_def]

lemmas sha3_256_digest = SHA3_digest [OF sha3_256.buffered_hasher_axioms, of 4, simplified,
    folded SHA3_256_Finalize_def]

lemma WriteHashUint64_eq: "WriteHashUint64 wr v h = wr h (le_bytes 8 v)"
  by (simp add: WriteHashUint64_def WriteLE64_def splice_def)

lemma fold_WriteHash: "fold (WriteHashUint64 wr) vs h = foldl wr h (map (le_bytes 8) vs)"
  by (induction vs arbitrary: h) (simp_all add: WriteHashUint64_eq)

lemma upt_8: "[0..<8] = [0, 1, 2, 3, 4, 5, 6, 7]"
  by (simp add: upt_rec)

lemma initial_fold:
  "fold (\<lambda>i state. state[i := f i, i + 8 := g i]) [0..<8] (replicate 16 0) = map f [0..<8] @ map g [0..<8]"
  by (simp add: upt_8 eval_nat_numeral)

lemma InitialState_spec: "length header = HEADER_SIZE \<Longrightarrow> InitialState header = Some (initial_spec header)"
  using sha3_512_digest [of "replicate 8 0" "replicate 64 0" "[AsBytes STATE_DOMAIN_0, header]"]
    sha3_512_digest [of "replicate 8 0" "replicate 64 0" "[AsBytes STATE_DOMAIN_1, header]"]
  by (simp add: InitialState_def initial_spec_def initial_fold dec_array_def ReadLE64_def Let_def)

lemma FinalizeHash_spec: "length out = OUTPUT_SIZE \<Longrightarrow> FinalizeHash state header out = digest_spec state header"
  using sha3_256_digest [of "replicate 8 0" out "[AsBytes FINAL_DOMAIN, header] @ map (le_bytes 8) state"]
  by (simp add: FinalizeHash_def digest_spec_def fold_WriteHash OUTPUT_SIZE_def enc_array_def)

lemma Checkpoint_spec:
  "Checkpoint state step primary secondary =
    (let d = dec_array 8 8 le_word (sha3_spec 9 8 (checkpoint_message state step primary secondary))
     in MercaARXRound (fold (\<lambda>j state. add_to (j + 8) (word_rotl (CHECKPOINT_ROTATION ! j) (d ! ((j + 3) mod 8)))
          (xor_to j (d ! j) state)) [0..<8] state))"
proof -
  have "foldl SHA3_512_Write (SHA3_new (replicate 8 0)) (AsBytes CHECKPOINT_DOMAIN # map (le_bytes 8)
      ([step, of_nat (p_line_index primary), of_nat (s_line_index secondary)] @ state @ p_written primary
        @ s_written secondary)) =
    fold (WriteHashUint64 SHA3_512_Write) (s_written secondary)
      (fold (WriteHashUint64 SHA3_512_Write) (p_written primary)
        (fold (WriteHashUint64 SHA3_512_Write) state
          (WriteHashUint64 SHA3_512_Write (of_nat (s_line_index secondary))
            (WriteHashUint64 SHA3_512_Write (of_nat (p_line_index primary))
              (WriteHashUint64 SHA3_512_Write step
                (SHA3_512_Write (SHA3_new (replicate 8 0)) (AsBytes CHECKPOINT_DOMAIN)))))))"
    by (simp add: fold_WriteHash WriteHashUint64_eq)
  note h = this [symmetric]
  have "snd (SHA3_512_Finalize (foldl SHA3_512_Write (SHA3_new (replicate 8 0)) (AsBytes CHECKPOINT_DOMAIN #
      map (le_bytes 8) ([step, of_nat (p_line_index primary), of_nat (s_line_index secondary)] @ state
        @ p_written primary @ s_written secondary))) (replicate 64 0)) =
    sha3_spec 9 8 (checkpoint_message state step primary secondary)"
    by (subst sha3_512_digest) (simp_all add: checkpoint_message_def enc_array_def)
  then show ?thesis
    unfolding Checkpoint_def Let_def h LINE_WORDS_val
    by (intro arg_cong [of _ _ MercaARXRound] fold_cong) (simp_all add: nth_dec_array ReadLE64_def)
qed

section \<open>The whole hash\<close>

definition mercahash_lines :: "bytes \<Rightarrow> WorkParams \<Rightarrow> State \<times> Line list" where
  "mercahash_lines header params =
    mix_core (mix_steps params) (bind_core (binding_passes params)
      (fill_spec (scratchpad_fill params) (initial_spec header)))"

definition mercahash_spec :: "bytes \<Rightarrow> WorkParams \<Rightarrow> bytes" where
  "mercahash_spec header params =
    (let (state, ls) = mercahash_lines header params in digest_spec (final_core ls state) header)"

lemma HashRefines:
  assumes "length header = HEADER_SIZE" "length pad = SCRATCHPAD_BYTES" "length out = OUTPUT_SIZE"
    and "0 < mix_steps params"
  shows "valid_lines (snd (mercahash_lines header params)) \<and>
    Hash header pad out params =
    Some (pack (snd (mercahash_lines header params)), mercahash_spec header params)"
proof -
  obtain st1 ls1 where F: "fill_spec (scratchpad_fill params) (initial_spec header) = (st1, ls1)"
    "valid_lines ls1"
    "FillScratchpad (initial_spec header) pad (scratchpad_fill params) = Some (st1, pack ls1)"
    using FillScratchpad_refines [OF assms(2)] by blast
  obtain st2 ls2 dg where B: "bind_spec (binding_passes params) ((st1, ls1), None) = ((st2, ls2), dg)"
    "valid_lines ls2" "BindScratchpad st1 (pack ls1) (binding_passes params) None = Some (st2, pack ls2, dg)"
    using BindScratchpad_refines [OF F(2)] by blast
  have Bc: "bind_core (binding_passes params) (st1, ls1) = (st2, ls2)"
    using fst_bind_spec [of "binding_passes params" "((st1, ls1), None)"] B(1) by simp
  obtain st3 ls3 where M: "mix_core (mix_steps params) (st2, ls2) = (st3, ls3)" "valid_lines ls3"
    "MixScratchpad st2 (pack ls2) (mix_steps params) = Some (st3, pack ls3)"
    using MixScratchpad_refines [OF B(2)] by blast
  have L: "mercahash_lines header params = (st3, ls3)"
    by (simp add: mercahash_lines_def F(1) Bc M(1))
  show ?thesis
    using assms F(3) B(3) M(3) FinalSample_refines [OF M(2)] M(2)
    by (simp add: Hash_def L InitialState_spec mercahash_spec_def FinalizeHash_spec)
qed

section \<open>The diagnostic run\<close>

lemma check_bind: "(check b \<bind> f = Some y) \<longleftrightarrow> b \<and> f () = Some y"
  by (cases b) simp_all

lemma record_binding_counts:
  "record_binding block ref d = Some d' \<Longrightarrow>
    binding_reference_accesses d' = binding_reference_accesses d + 1 \<and>
    primary_accesses d' = primary_accesses d \<and> secondary_accesses d' = secondary_accesses d"
  by (auto simp: record_binding_def Let_def check_bind)

definition binding_counts :: "nat \<Rightarrow> Diagnostics option \<Rightarrow> bool" where
  "binding_counts n dg \<longleftrightarrow> (\<exists>d. dg = Some d \<and> binding_reference_accesses d = of_nat n \<and>
    primary_accesses d = 0 \<and> secondary_accesses d = 0)"

lemma bind_diag_counts:
  assumes "block < BIND_BLOCK_COUNT" "binding_counts n dg"
  shows "binding_counts (if block = 0 then n else Suc n) (bind_diag block (reference_block seed block) dg)"
proof (cases "block = 0")
  case False
  obtain d where d: "dg = Some d" "binding_reference_accesses d = of_nat n" "primary_accesses d = 0"
    "secondary_accesses d = 0" using assms(2) by (auto simp: binding_counts_def)
  from record_binding_total [OF reference_block_below [OF False assms(1)] assms(1), of seed d]
  obtain d' where "record_binding block (reference_block seed block) d = Some d'" by auto
  with record_binding_counts [OF this] d False show ?thesis
    by (simp add: binding_counts_def bind_diag_def)
qed (use assms in \<open>simp add: bind_diag_def\<close>)

lemma snd_bind_block_spec: "snd (bind_block_spec p k a) =
    bind_diag k (reference_block (block_seed p k (fst (fst a)) (snd (fst a))) k) (snd a)"
  by (cases a) (simp add: bind_block_spec_def split: prod.splits)

lemma bind_blocks_counts:
  "k \<le> BIND_BLOCK_COUNT \<Longrightarrow> binding_counts n (snd a) \<Longrightarrow>
    binding_counts (n + (k - 1)) (snd (fold (bind_block_spec p) [0..<k] a))"
proof (induction k)
  case (Suc k)
  let ?a = "fold (bind_block_spec p) [0..<k] a"
  have "binding_counts (n + (k - 1)) (snd ?a)" using Suc by simp
  from bind_diag_counts [OF _ this, of k] Suc.prems(1)
  have "binding_counts (if k = 0 then n + (k - 1) else Suc (n + (k - 1)))
      (bind_diag k (reference_block seed k) (snd ?a))" for seed by simp
  moreover have "(if k = 0 then n + (k - 1) else Suc (n + (k - 1))) = n + (Suc k - 1)" by simp
  ultimately show ?case by (simp add: snd_bind_block_spec)
qed simp

lemma bind_spec_counts:
  "binding_counts n (snd a) \<Longrightarrow>
    binding_counts (n + unat passes * (BIND_BLOCK_COUNT - 1)) (snd (bind_spec passes a))"
proof -
  have pass: "binding_counts (n + (BIND_BLOCK_COUNT - 1)) (snd (bind_pass_spec p a))"
    if "binding_counts n (snd a)" for n p a
  proof -
    obtain st ls dg where a: "a = ((st, ls), dg)" by (metis prod.exhaust)
    from bind_blocks_counts [OF order_refl, of n "((bind_pass_start (of_nat p) st, ls), dg)" "of_nat p"] that
    show ?thesis by (auto simp: a bind_pass_spec_def split: prod.splits)
  qed
  have "binding_counts n (snd a) \<Longrightarrow>
      binding_counts (n + k * (BIND_BLOCK_COUNT - 1)) (snd (fold bind_pass_spec [0..<k] a))" for k
  proof (induction k)
    case (Suc k)
    from pass [OF Suc.IH [OF Suc.prems], of k] show ?case by (simp add: add.commute add.left_commute)
  qed simp
  then show "binding_counts n (snd a) \<Longrightarrow> ?thesis" by (simp add: bind_spec_def)
qed

lemma RecordDiagnosticIndex_total:
  assumes "i < LINE_COUNT"
  shows "\<exists>d' seen' comb'. RecordDiagnosticIndex i b d seen comb = Some (d', seen', comb') \<and>
    primary_accesses d' = primary_accesses d \<and> secondary_accesses d' = secondary_accesses d \<and>
    binding_reference_accesses d' = binding_reference_accesses d"
  using assms by (simp add: RecordDiagnosticIndex_def Let_def)

text \<open>The counters of the mixing loop next to the computation itself.\<close>

definition count_step :: "nat \<Rightarrow> (State \<times> Line list) \<times> nat \<times> nat \<Rightarrow> (State \<times> Line list) \<times> nat \<times> nat" where
  "count_step n = (\<lambda>(a, np, ns). (mix_step_core n a, np + 1,
    if (of_nat n :: u64) mod SECONDARY_INTERVAL = 0 then ns + 1 else ns))"

definition diag_rel :: "u64 \<Rightarrow> (State \<times> Line list) \<times> nat \<times> nat \<Rightarrow> diag_state \<Rightarrow> bool" where
  "diag_rel nb = (\<lambda>(a, np, ns) (st, pad, d, seen). valid_lines (snd a) \<and> st = fst a \<and> pad = pack (snd a) \<and>
    primary_accesses d = of_nat np \<and> secondary_accesses d = of_nat ns \<and> binding_reference_accesses d = nb)"

lemma mix_step_diagnostics_refines:
  assumes "diag_rel nb a c"
  shows "\<exists>c'. mix_step_diagnostics n c = Some c' \<and> diag_rel nb (count_step n a) c'"
proof -
  let ?s = "of_nat n :: u64"
  obtain st ls np ns where a: "a = ((st, ls), np, ns)" by (metis prod.exhaust)
  obtain d s1 s2 s3 where c: "c = (st, pack ls, d, s1, s2, s3)"
    and v: "valid_lines ls" and cnt: "primary_accesses d = of_nat np" "secondary_accesses d = of_nat ns"
      "binding_reference_accesses d = nb"
    using assms by (cases c) (auto simp: diag_rel_def a)
  obtain st1 ls1 p where P: "primary_spec (st, ls) ?s = ((st1, ls1), p)" by (metis prod.exhaust)
  have pi: "p_line_index p < LINE_COUNT"
    using P primary_index_less by (auto simp: primary_spec_def Let_def)
  have v1: "valid_lines ls1" using PrimaryStep_refines(2) [of "(st, ls)" ?s] v P by simp
  have p1: "PrimaryStep st (pack ls) ?s = Some (st1, pack ls1, p)"
    using PrimaryStep_refines(1) [of "(st, ls)" ?s] v P by simp
  let ?d = "d\<lparr>primary_accesses := primary_accesses d + 1\<rparr>"
  obtain d1 t1 t3 where r1: "RecordDiagnosticIndex (p_line_index p) True ?d s1 s3 = Some (d1, t1, t3)"
    "primary_accesses d1 = of_nat np + 1" "secondary_accesses d1 = of_nat ns" "binding_reference_accesses d1 = nb"
    using RecordDiagnosticIndex_total [OF pi, of True ?d s1 s3] cnt by auto
  show ?thesis
  proof (cases "?s mod SECONDARY_INTERVAL = 0")
    case False
    then show ?thesis using p1 r1 v1
      by (simp add: mix_step_diagnostics_def c a count_step_def mix_step_core_def P diag_rel_def Let_def add.commute)
  next
    case True
    obtain st2 ls2 q where S: "secondary_spec (st1, ls1) ?s p = ((st2, ls2), q)" by (metis prod.exhaust)
    have qi: "s_line_index q < LINE_COUNT"
      using S secondary_index_less by (auto simp: secondary_spec_def Let_def)
    have v2: "valid_lines ls2" using SecondaryStep_refines(2) [of "(st1, ls1)" ?s p] v1 S by simp
    have p2: "SecondaryStep st1 (pack ls1) ?s p = Some (st2, pack ls2, q)"
      using SecondaryStep_refines(1) [of "(st1, ls1)" ?s p] v1 S by simp
    define d2 where "d2 = (let d = d1\<lparr>secondary_accesses := secondary_accesses d1 + 1\<rparr> in
        if forced_distinct q then d\<lparr>forced_secondary_distinct := forced_secondary_distinct d + 1\<rparr> else d)"
    have d2: "primary_accesses d2 = of_nat np + 1" "secondary_accesses d2 = of_nat ns + 1"
      "binding_reference_accesses d2 = nb"
      using r1 by (simp_all add: d2_def Let_def)
    obtain d3 u2 u3 where r2: "RecordDiagnosticIndex (s_line_index q) False d2 s2 t3 = Some (d3, u2, u3)"
      "primary_accesses d3 = of_nat np + 1" "secondary_accesses d3 = of_nat ns + 1" "binding_reference_accesses d3 = nb"
      using RecordDiagnosticIndex_total [OF qi, of False d2 s2 t3] d2 by auto
    have "mix_step_diagnostics n c = Some (after_secondary ?s p q st2, pack ls2, d3, t1, u2, u3)"
      using True p1 p2 r1(1) r2(1) [unfolded d2_def Let_def]
      by (simp add: mix_step_diagnostics_def c after_secondary_def Let_def)
    then show ?thesis using True r2(2-) v2
      by (simp add: a count_step_def mix_step_core_def P S diag_rel_def Let_def add.commute)
  qed
qed

lemma div_16_Suc: "Suc k div 16 = (if Suc k mod 16 = 0 then Suc (k div 16) else k div (16 :: nat))"
  by (rule div_Suc)

lemma count_steps:
  "k < 2 ^ 64 \<Longrightarrow> fold count_step [1..<Suc k] (a, 0, 0) = (fold mix_step_core [1..<Suc k] a, k, k div 16)"
proof (induction k)
  case (Suc k)
  have "unat ((of_nat (Suc k) :: u64) mod SECONDARY_INTERVAL) = Suc k mod 16"
    using Suc.prems by (simp add: unat_mod SECONDARY_INTERVAL_def unat_of_nat_small del: of_nat_Suc)
  then have m: "(of_nat (Suc k) :: u64) mod SECONDARY_INTERVAL = 0 \<longleftrightarrow> Suc k mod 16 = 0"
    by (metis unat_eq_zero)
  have "fold count_step [1..<Suc (Suc k)] (a, 0, 0) = count_step (Suc k) (fold count_step [1..<Suc k] (a, 0, 0))"
    by simp
  then show ?case
    using Suc m by (simp add: count_step_def div_16_Suc del: of_nat_Suc)
qed simp

lemma MixScratchpadDiagnostics_refines:
  assumes "valid_lines ls" "primary_accesses d = 0" "secondary_accesses d = 0"
  shows "\<exists>st' ls' d'. mix_core steps (st, ls) = (st', ls') \<and> valid_lines ls' \<and>
    MixScratchpadDiagnostics st (pack ls) steps d = Some (st', pack ls', d') \<and>
    primary_accesses d' = of_nat (unat steps) \<and> secondary_accesses d' = of_nat (unat steps div 16) \<and>
    binding_reference_accesses d' = binding_reference_accesses d"
proof -
  let ?seen = "replicate LINE_COUNT False"
  have "diag_rel (binding_reference_accesses d) ((st, ls), 0, 0) (st, pack ls, d, ?seen, ?seen, ?seen)"
    using assms by (simp add: diag_rel_def)
  then have "\<exists>c'. mfold mix_step_diagnostics [1..<Suc (unat steps)] (st, pack ls, d, ?seen, ?seen, ?seen) = Some c' \<and>
      diag_rel (binding_reference_accesses d) (fold count_step [1..<Suc (unat steps)] ((st, ls), 0, 0)) c'"
    by (rule mfold_sim) (rule mix_step_diagnostics_refines)
  moreover have "unat steps < 2 ^ LENGTH(32)" by (rule unsigned_less)
  then have "unat steps < 2 ^ 64" by simp
  note cs = count_steps [OF this]
  ultimately obtain st' pad' d' s1 s2 s3 where
    m: "mfold mix_step_diagnostics [1..<Suc (unat steps)] (st, pack ls, d, ?seen, ?seen, ?seen) =
      Some (st', pad', d', s1, s2, s3)"
    and r: "diag_rel (binding_reference_accesses d) (mix_core steps (st, ls), unat steps, unat steps div 16)
      (st', pad', d', s1, s2, s3)"
    unfolding mix_core_def cs by (metis prod.exhaust)
  then show ?thesis
    by (cases "mix_core steps (st, ls)") (simp add: MixScratchpadDiagnostics_def diag_rel_def Let_def)
qed

lemma HashWithDiagnostics_refines:
  assumes "length header = HEADER_SIZE" "length pad = SCRATCHPAD_BYTES" "length out = OUTPUT_SIZE"
    and "0 < mix_steps params"
  shows "\<exists>d'. HashWithDiagnostics header pad out params d =
      Some (pack (snd (mercahash_lines header params)), mercahash_spec header params, d') \<and>
    primary_accesses d' = of_nat (unat (mix_steps params)) \<and>
    secondary_accesses d' = of_nat (unat (mix_steps params) div 16) \<and>
    binding_reference_accesses d' = of_nat (unat (binding_passes params) * (BIND_BLOCK_COUNT - 1))"
proof -
  obtain st1 ls1 where F: "fill_spec (scratchpad_fill params) (initial_spec header) = (st1, ls1)"
    "valid_lines ls1"
    "FillScratchpad (initial_spec header) pad (scratchpad_fill params) = Some (st1, pack ls1)"
    using FillScratchpad_refines [OF assms(2)] by blast
  let ?d0 = "Some Diagnostics_init"
  obtain st2 ls2 dg where B: "bind_spec (binding_passes params) ((st1, ls1), ?d0) = ((st2, ls2), dg)"
    "valid_lines ls2" "BindScratchpad st1 (pack ls1) (binding_passes params) ?d0 = Some (st2, pack ls2, dg)"
    using BindScratchpad_refines [OF F(2)] by blast
  have Bc: "bind_core (binding_passes params) (st1, ls1) = (st2, ls2)"
    using fst_bind_spec [of "binding_passes params" "((st1, ls1), ?d0)"] B(1) by simp
  have "binding_counts 0 ?d0" by (simp add: binding_counts_def Diagnostics_init_def)
  then have "binding_counts (unat (binding_passes params) * (BIND_BLOCK_COUNT - 1)) dg"
    using bind_spec_counts [of 0 "((st1, ls1), ?d0)" "binding_passes params"] B(1) by simp
  then obtain d2 where d2: "dg = Some d2" "primary_accesses d2 = 0" "secondary_accesses d2 = 0"
    "binding_reference_accesses d2 = of_nat (unat (binding_passes params) * (BIND_BLOCK_COUNT - 1))"
    by (auto simp: binding_counts_def)
  obtain st3 ls3 d3 where M: "mix_core (mix_steps params) (st2, ls2) = (st3, ls3)" "valid_lines ls3"
    "MixScratchpadDiagnostics st2 (pack ls2) (mix_steps params) d2 = Some (st3, pack ls3, d3)"
    "primary_accesses d3 = of_nat (unat (mix_steps params))"
    "secondary_accesses d3 = of_nat (unat (mix_steps params) div 16)"
    "binding_reference_accesses d3 = binding_reference_accesses d2"
    using MixScratchpadDiagnostics_refines [OF B(2) d2(2,3)] by blast
  have L: "mercahash_lines header params = (st3, ls3)"
    by (simp add: mercahash_lines_def F(1) Bc M(1))
  show ?thesis
    using assms F(3) B(3) M(3-) d2 FinalSample_refines [OF M(2)]
    by (simp add: HashWithDiagnostics_def L InitialState_spec mercahash_spec_def FinalizeHash_spec)
qed

section \<open>Properties\<close>

lemma V1_mix_steps [simp]: "0 < mix_steps V1_PARAMS"
  by (simp add: V1_PARAMS_def V1_MIX_STEPS_def)

text \<open>C5: The hash refines its specification on a scratchpad of 64-bit lines: for every 80-byte
  header and any contents of the scratchpad and output buffers, \<open>Hash\<close> passes all its assertions
  (no index leaves the scratchpad), leaves the packed lines of the specification in the scratchpad
  and returns the specification's digest.\<close>

theorem Hash_refines_lines:
  assumes "length header = HEADER_SIZE" "length pad = SCRATCHPAD_BYTES" "length out = OUTPUT_SIZE"
    and "0 < mix_steps params"
  shows "Hash header pad out params =
    Some (pack (snd (mercahash_lines header params)), mercahash_spec header params) \<and>
    valid_lines (snd (mercahash_lines header params))"
  using HashRefines [OF assms] by blast

theorem Hash_refines_lines_witness:
  "Hash (replicate HEADER_SIZE 0) (replicate SCRATCHPAD_BYTES 0) (replicate OUTPUT_SIZE 0) V1_PARAMS =
    Some (pack (snd (mercahash_lines (replicate HEADER_SIZE 0) V1_PARAMS)),
      mercahash_spec (replicate HEADER_SIZE 0) V1_PARAMS)"
  using Hash_refines_lines [of "replicate HEADER_SIZE 0" "replicate SCRATCHPAD_BYTES 0"
      "replicate OUTPUT_SIZE 0" V1_PARAMS]
  by simp

text \<open>Mining reuses one scratchpad for every nonce: the digest does not depend on what the
  scratchpad or the output buffer held before, and \<open>HashV1\<close> always returns 32 bytes.\<close>

theorem HashV1_scratchpad_independent:
  assumes "length header = HEADER_SIZE" "length pad = SCRATCHPAD_BYTES" "length pad' = SCRATCHPAD_BYTES"
    and "length out = OUTPUT_SIZE" "length out' = OUTPUT_SIZE"
  shows "HashV1 header pad out = HashV1 header pad' out' \<and>
    (\<exists>pad2 digest. HashV1 header pad out = Some (pad2, digest) \<and> length pad2 = SCRATCHPAD_BYTES \<and> length digest = 32)"
proof -
  have v: "valid_lines (snd (mercahash_lines header V1_PARAMS))"
    using HashRefines [OF assms(1,2,4) V1_mix_steps] by blast
  have "length (mercahash_spec header V1_PARAMS) = 32"
    by (simp add: mercahash_spec_def digest_spec_def length_sha3_spec case_prod_beta)
  then show ?thesis
    using HashRefines [OF assms(1,2,4) V1_mix_steps] HashRefines [OF assms(1,3,5) V1_mix_steps] length_pack [OF v]
    by (simp add: HashV1_def)
qed

theorem HashV1_scratchpad_independent_witness:
  "HashV1 (replicate HEADER_SIZE 0) (replicate SCRATCHPAD_BYTES 0) (replicate OUTPUT_SIZE 0) =
    HashV1 (replicate HEADER_SIZE 0) (replicate SCRATCHPAD_BYTES 255) (replicate OUTPUT_SIZE 7)"
  using HashV1_scratchpad_independent [of "replicate HEADER_SIZE 0" "replicate SCRATCHPAD_BYTES 0"
      "replicate SCRATCHPAD_BYTES 255" "replicate OUTPUT_SIZE 0" "replicate OUTPUT_SIZE 7"]
  by simp

text \<open>C36: Collecting diagnostics does not change the hash: \<open>HashWithDiagnostics\<close> returns the
  scratchpad and digest of \<open>Hash\<close>, and counts one primary access per mixing step, one secondary
  access per sixteen steps and one reference per block of each binding pass but the first.\<close>

theorem HashWithDiagnostics_same_hash:
  assumes "length header = HEADER_SIZE" "length pad = SCRATCHPAD_BYTES" "length out = OUTPUT_SIZE"
    and "0 < mix_steps params"
  shows "\<exists>pad' digest d'. Hash header pad out params = Some (pad', digest) \<and>
    HashWithDiagnostics header pad out params d = Some (pad', digest, d') \<and>
    primary_accesses d' = of_nat (unat (mix_steps params)) \<and>
    secondary_accesses d' = of_nat (unat (mix_steps params) div 16) \<and>
    binding_reference_accesses d' = of_nat (unat (binding_passes params) * (BIND_BLOCK_COUNT - 1))"
  using HashRefines [OF assms] HashWithDiagnostics_refines [OF assms, of d] by auto

theorem HashWithDiagnostics_same_hash_witness:
  "\<exists>pad' digest d'. Hash (replicate HEADER_SIZE 0) (replicate SCRATCHPAD_BYTES 0) (replicate OUTPUT_SIZE 0) V1_PARAMS =
      Some (pad', digest) \<and>
    HashWithDiagnostics (replicate HEADER_SIZE 0) (replicate SCRATCHPAD_BYTES 0) (replicate OUTPUT_SIZE 0)
      V1_PARAMS Diagnostics_init = Some (pad', digest, d')"
  using HashWithDiagnostics_same_hash [of "replicate HEADER_SIZE 0" "replicate SCRATCHPAD_BYTES 0"
      "replicate OUTPUT_SIZE 0" V1_PARAMS Diagnostics_init]
  by force

text \<open>The block that binding reads back for a block other than the first comes strictly before
  it, so a pass never reads a block it has not yet rewritten in that pass.\<close>

theorem binding_reference_precedes:
  assumes "0 < block" "block < BIND_BLOCK_COUNT"
  shows "reference_block seed block < block \<and> reference_block seed 0 < BIND_BLOCK_COUNT"
  using reference_block_below [of block seed] reference_block_less [of 0 seed] assms by simp

theorem binding_reference_precedes_witness:
  "reference_block 0xffffffffffffffff 3 < 3"
  using binding_reference_precedes [of 3 "0xffffffffffffffff"] by (simp add: LINE_COUNT_val)

text \<open>The secondary access of a mixing step reads a line of the scratchpad other than the one
  the primary access of the step has just written, for every state.\<close>

theorem secondary_access_distinct:
  "secondary_index st step p \<noteq> p_line_index p \<and> secondary_index st step p < LINE_COUNT"
  using secondary_index_distinct secondary_index_less by blast

text \<open>A checkpoint injects the SHA3-512 digest of the domain tag, the step, both line indices,
  the whole state and both written lines into the state, then applies one round.\<close>

theorem Checkpoint_injects_digest:
  "Checkpoint state step primary secondary =
    (let d = dec_array 8 8 le_word (sha3_spec 9 8 (checkpoint_message state step primary secondary))
     in MercaARXRound (fold (\<lambda>j state. add_to (j + 8) (word_rotl (CHECKPOINT_ROTATION ! j) (d ! ((j + 3) mod 8)))
          (xor_to j (d ! j) state)) [0..<8] state))"
  by (rule Checkpoint_spec)

text \<open>Every round of the mixing permutation is a bijection on states of sixteen words: no two
  states are merged, and every state is reached.\<close>

theorem MercaARXRound_permutation: "bij_betw MercaARXRound {st. length st = 16} {st. length st = 16}"
  by (rule MercaARXRound_bijective)

end
