(* ===== verification/UInt256.thy ===== *)
theory UInt256
  imports Codec
begin

text \<open>
  \<open>src/uint256.h\<close> and \<open>src/uint256.cpp\<close>: 256-bit values stored as 32 bytes, least significant
  first, their numeric order and their big-endian hexadecimal form. The section on
  hexadecimal strings is the specification shared by all of the program's hex readers.
\<close>

section \<open>Hexadecimal strings\<close>

definition HexDigit :: "char \<Rightarrow> int" where
  "HexDigit c =
    (if CHR ''0'' \<le> c \<and> c \<le> CHR ''9'' then of_char c - of_char CHR ''0''
     else if CHR ''a'' \<le> c \<and> c \<le> CHR ''f'' then of_char c - of_char CHR ''a'' + 10
     else if CHR ''A'' \<le> c \<and> c \<le> CHR ''F'' then of_char c - of_char CHR ''A'' + 10
     else - 1)"

definition HEX :: string where
  "HEX = ''0123456789abcdef''"

text \<open>\<open>static_cast<unsigned char>((high << 4) | low)\<close>.\<close>

definition hex_pair :: "int \<Rightarrow> int \<Rightarrow> byte" where
  "hex_pair high low = word_of_int (push_bit 4 high OR low)"

definition hex_high :: "byte \<Rightarrow> char" where
  "hex_high b = HEX ! unat (drop_bit 4 b)"

definition hex_low :: "byte \<Rightarrow> char" where
  "hex_low b = HEX ! unat (b AND 0x0f)"

fun hex_decode :: "string \<Rightarrow> bytes option" where
  "hex_decode [] = Some []"
| "hex_decode [c] = None"
| "hex_decode (a # b # cs) =
    (if HexDigit a < 0 \<or> HexDigit b < 0 then None
     else map_option ((#) (hex_pair (HexDigit a) (HexDigit b))) (hex_decode cs))"

fun hex_encode :: "bytes \<Rightarrow> string" where
  "hex_encode [] = []"
| "hex_encode (b # bs) = hex_high b # hex_low b # hex_encode bs"

lemma length_hex_encode [simp, length_simps]: "length (hex_encode bs) = 2 * length bs"
  by (induction bs) simp_all

lemma hex_decode_length: "hex_decode s = Some bs \<Longrightarrow> length s = 2 * length bs"
  by (induction s arbitrary: bs rule: hex_decode.induct) (auto split: if_splits)

lemma HexDigit_HEX: "n < 16 \<Longrightarrow> HexDigit (HEX ! n) = int n"
proof -
  have "\<forall>n \<in> set [0..<16]. HexDigit (HEX ! n) = int n"
    by code_simp
  then show "n < 16 \<Longrightarrow> ?thesis" by simp
qed

lemma HexDigit_bounds: "-1 \<le> HexDigit c \<and> HexDigit c < 16"
proof -
  have "(of_char c :: int) = int (of_char c)" by (simp add: of_char_def)
  then show ?thesis by (auto simp: HexDigit_def less_eq_char_def simp del: of_nat_of_char)
qed

lemma nibble_high_less: "unat (drop_bit 4 (b :: byte)) < 16"
  by (simp add: unat_drop_bit_eq drop_bit_eq_div [of 4 "unat b"] less_mult_imp_div_less)

lemma nibble_low_less: "unat (b AND 0x0f :: byte) < 16"
proof -
  have b: "b AND 0x0f = take_bit 4 b" by (simp add: take_bit_eq_mask mask_eq_exp_minus_1)
  have "unat (take_bit 4 b) = take_bit 4 (unat b)" by (rule unsigned_take_bit_eq)
  also have "\<dots> < 2 ^ 4" by (rule take_bit_nat_less_exp)
  finally show ?thesis unfolding b by simp
qed

lemma hex_digits [simp]:
  "HexDigit (hex_high b) = uint (drop_bit 4 b)"
  "HexDigit (hex_low b) = uint (b AND 0x0f)"
  by (simp_all only: hex_high_def hex_low_def HexDigit_HEX nibble_high_less nibble_low_less
      uint_nat [symmetric]) 

lemma hex_pair_nibbles [simp]: "hex_pair (uint (drop_bit 4 b)) (uint (b AND 0x0f)) = b"
proof (rule bit_word_eqI)
  fix n assume n: "n < LENGTH(8)"
  have m: "(0x0f :: byte) = mask 4" by (simp add: mask_eq_exp_minus_1)
  show "bit (hex_pair (uint (drop_bit 4 b)) (uint (b AND 0x0f))) n = bit b n"
    using n unfolding hex_pair_def m
    by (auto simp: bit_simps not_le)
qed

lemma hex_decode_encode [simp]: "hex_decode (hex_encode bs) = Some bs"
  by (induction bs) simp_all

lemma hex_decode_append:
  "hex_decode s = Some bs \<Longrightarrow> hex_decode (s @ t) = map_option ((@) bs) (hex_decode t)"
  by (induction s arbitrary: bs rule: hex_decode.induct; cases "hex_decode t")
    (auto split: if_splits)

lemma hex_decode_Some_iff:
  "(\<exists>bs. hex_decode s = Some bs) \<longleftrightarrow> even (length s) \<and> (\<forall>c \<in> set s. 0 \<le> HexDigit c)"
  by (induction s rule: hex_decode.induct) auto

section \<open>The class \<open>UInt256\<close>\<close>

text \<open>
  The only field of the class is a 32-byte array, so the type is exactly the byte lists of
  length 32: \<open>bytes_of\<close> is the accessor \<open>bytes()\<close>, \<open>UInt256 bs\<close> the constructor from a
  \<open>Storage\<close> array.
\<close>

definition SIZE :: nat where
  "SIZE = 32"

typedef UInt256 = "{bs :: bytes. length bs = 32}"
  morphisms bytes_of UInt256
  by (rule exI [where x = "replicate 32 0"]) simp

lemma length_bytes_of [simp, length_simps]: "length (bytes_of u) = 32"
  using bytes_of [of u] by simp

lemma bytes_of_UInt256 [simp]: "length bs = 32 \<Longrightarrow> bytes_of (UInt256 bs) = bs"
  by (simp add: UInt256_inverse)

lemma UInt256_bytes_of [simp]: "UInt256 (bytes_of u) = u"
  by (rule bytes_of_inverse)

lemma UInt256_eq_iff: "u = v \<longleftrightarrow> bytes_of u = bytes_of v"
  by (simp add: bytes_of_inject)

instantiation UInt256 :: equal
begin

definition equal_UInt256 :: "UInt256 \<Rightarrow> UInt256 \<Rightarrow> bool" where
  "equal_UInt256 u v \<longleftrightarrow> bytes_of u = bytes_of v"

instance
  by standard (simp add: equal_UInt256_def UInt256_eq_iff)

end

text \<open>The value-initialised \<open>UInt256{}\<close>.\<close>

definition UInt256_zero :: UInt256 where
  "UInt256_zero = UInt256 (replicate 32 0)"

fun FromHexBE_loop :: "string \<Rightarrow> nat list \<Rightarrow> bytes \<Rightarrow> bytes option" where
  "FromHexBE_loop hex [] bytes = Some bytes"
| "FromHexBE_loop hex (be_index # rest) bytes =
    (let high = HexDigit (hex ! (be_index * 2));
         low = HexDigit (hex ! (be_index * 2 + 1))
     in if high < 0 \<or> low < 0 then None
        else FromHexBE_loop hex rest (bytes[SIZE - 1 - be_index := hex_pair high low]))"

definition FromHexBE :: "string \<Rightarrow> UInt256 option" where
  "FromHexBE hex =
    (if length hex \<noteq> SIZE * 2 then None
     else map_option UInt256 (FromHexBE_loop hex [0..<SIZE] (replicate SIZE 0)))"

definition ToHexBE :: "UInt256 \<Rightarrow> string" where
  "ToHexBE u =
    fold (\<lambda>be_index result.
        let byte = bytes_of u ! (SIZE - 1 - be_index)
        in result[be_index * 2 := hex_high byte, be_index * 2 + 1 := hex_low byte])
      [0..<SIZE] (replicate (SIZE * 2) CHR ''0'')"

definition IsZero :: "UInt256 \<Rightarrow> bool" where
  "IsZero u = list_all (\<lambda>byte. byte = 0) (bytes_of u)"

fun compare_below :: "bytes \<Rightarrow> bytes \<Rightarrow> nat \<Rightarrow> int" where
  "compare_below a b 0 = 0"
| "compare_below a b (Suc i) =
    (if a ! i < b ! i then - 1 else if a ! i > b ! i then 1 else compare_below a b i)"

definition CompareNumeric :: "UInt256 \<Rightarrow> UInt256 \<Rightarrow> int" where
  "CompareNumeric u v = compare_below (bytes_of u) (bytes_of v) SIZE"

section \<open>Numeric order\<close>

definition value_of :: "UInt256 \<Rightarrow> nat" where
  "value_of u = le_nat (bytes_of u)"

lemma value_of_inj [simp]: "value_of u = value_of v \<longleftrightarrow> u = v"
  by (simp add: value_of_def le_nat_inj UInt256_eq_iff)

lemma value_of_less: "value_of u < 2 ^ 256"
  using le_nat_less [of "bytes_of u"] by (simp add: value_of_def power_mult [symmetric])

lemma value_of_zero [simp]: "value_of UInt256_zero = 0"
  by (simp add: value_of_def UInt256_zero_def)

lemma IsZero_iff: "IsZero u \<longleftrightarrow> u = UInt256_zero"
  by (auto simp: IsZero_def UInt256_zero_def UInt256_eq_iff list_all_length list_eq_iff_nth_eq)

lemma le_nat_take_Suc:
  "i < length a \<Longrightarrow> le_nat (take (Suc i) a) = le_nat (take i a) + 256 ^ i * unat (a ! i)"
  by (simp add: take_Suc_conv_app_nth le_nat_append)

lemma compare_below_le_nat:
  "i \<le> length a \<Longrightarrow> i \<le> length b \<Longrightarrow>
    compare_below a b i = (if le_nat (take i a) < le_nat (take i b) then - 1
      else if le_nat (take i a) > le_nat (take i b) then 1 else 0)"
proof (induction i)
  case (Suc i)
  let ?x = "le_nat (take i a)" and ?y = "le_nat (take i b)"
  have b: "?x < 256 ^ i" "?y < 256 ^ i"
    using le_nat_less [of "take i a"] le_nat_less [of "take i b"] Suc.prems by (simp_all add: min_def)
  have lt: "?x + 256 ^ i * u < ?y + 256 ^ i * v" if "u < v" for u v :: nat
  proof -
    have "256 ^ i * Suc u \<le> 256 ^ i * v" using that by (intro mult_le_mono2) simp
    with b show ?thesis by simp
  qed
  have gt: "?y + 256 ^ i * v < ?x + 256 ^ i * u" if "v < u" for u v :: nat
  proof -
    have "256 ^ i * Suc v \<le> 256 ^ i * u" using that by (intro mult_le_mono2) simp
    with b show ?thesis by simp
  qed
  consider "a ! i < b ! i" | "a ! i > b ! i" | "a ! i = b ! i" by (rule linorder_cases)
  then show ?case
  proof cases
    case 1
    then have "unat (a ! i) < unat (b ! i)" by (simp add: word_less_nat_alt)
    from lt [OF this] 1 Suc.prems show ?thesis by (simp add: le_nat_take_Suc)
  next
    case 2
    then have "unat (b ! i) < unat (a ! i)" by (simp add: word_less_nat_alt)
    from gt [OF this] 2 Suc.prems show ?thesis by (simp add: le_nat_take_Suc)
  next
    case 3
    with Suc show ?thesis by (simp add: le_nat_take_Suc)
  qed
qed simp

lemma CompareNumeric_value:
  "CompareNumeric u v =
    (if value_of u < value_of v then - 1 else if value_of u > value_of v then 1 else 0)"
  by (simp add: CompareNumeric_def SIZE_def compare_below_le_nat value_of_def)

text \<open>The comparison operators of the class make \<open>UInt256\<close> a linear order.\<close>

instantiation UInt256 :: linorder
begin

definition less_eq_UInt256 :: "UInt256 \<Rightarrow> UInt256 \<Rightarrow> bool" where
  "less_eq_UInt256 u v \<longleftrightarrow> CompareNumeric u v \<le> 0"

definition less_UInt256 :: "UInt256 \<Rightarrow> UInt256 \<Rightarrow> bool" where
  "less_UInt256 u v \<longleftrightarrow> CompareNumeric u v < 0"

instance
  by standard
    (auto simp: less_eq_UInt256_def less_UInt256_def CompareNumeric_value split: if_splits)

end

lemma UInt256_le_value: "u \<le> v \<longleftrightarrow> value_of u \<le> value_of v"
  by (auto simp: less_eq_UInt256_def CompareNumeric_value)

lemma UInt256_less_value: "u < v \<longleftrightarrow> value_of u < value_of v"
  by (auto simp: less_UInt256_def CompareNumeric_value)

section \<open>Digits that throw\<close>

text \<open>
  The block builder and the payout address decode digits alike and throw their own exceptions.
\<close>

definition digit_or_throw :: "exn \<Rightarrow> char \<Rightarrow> byte res" where
  "digit_or_throw err c =
    (if CHR ''0'' \<le> c \<and> c \<le> CHR ''9'' then ok (of_char c - of_char CHR ''0'')
     else if CHR ''a'' \<le> c \<and> c \<le> CHR ''f'' then ok (of_char c - of_char CHR ''a'' + 10)
     else if CHR ''A'' \<le> c \<and> c \<le> CHR ''F'' then ok (of_char c - of_char CHR ''A'' + 10)
     else throw err)"

lemma digit_or_throw_iff: "digit_or_throw err c = Inr d \<longleftrightarrow> 0 \<le> HexDigit c \<and> d = word_of_int (HexDigit c)"
proof -
  have w: "(of_char x :: byte) = word_of_int (of_char x)" for x by (simp add: of_char_def)
  have i: "(of_char x :: int) = int (of_char x)" for x by (simp add: of_char_def)
  consider "CHR ''0'' \<le> c" "c \<le> CHR ''9''"
    | "\<not> (CHR ''0'' \<le> c \<and> c \<le> CHR ''9'')" "CHR ''a'' \<le> c" "c \<le> CHR ''f''"
    | "\<not> (CHR ''0'' \<le> c \<and> c \<le> CHR ''9'')" "\<not> (CHR ''a'' \<le> c \<and> c \<le> CHR ''f'')"
      "CHR ''A'' \<le> c" "c \<le> CHR ''F''"
    | "\<not> (CHR ''0'' \<le> c \<and> c \<le> CHR ''9'')" "\<not> (CHR ''a'' \<le> c \<and> c \<le> CHR ''f'')"
      "\<not> (CHR ''A'' \<le> c \<and> c \<le> CHR ''F'')"
    by blast
  then show ?thesis
  proof cases
    case 1
    then have "(0 :: int) \<le> of_char c - of_char CHR ''0''" unfolding i less_eq_char_def by linarith
    then show ?thesis using 1 unfolding digit_or_throw_def HexDigit_def
      by (simp only: if_True simp_thms w throw_ok_simps sum.inject of_int_diff) (rule eq_commute)
  next
    case 2
    then have "(0 :: int) \<le> of_char c - of_char CHR ''a'' + 10" unfolding i less_eq_char_def by linarith
    then show ?thesis using 2(2-) unfolding digit_or_throw_def HexDigit_def if_not_P [OF 2(1)]
      by (simp only: if_True simp_thms w throw_ok_simps sum.inject of_int_diff of_int_add of_int_numeral) (rule eq_commute)
  next
    case 3
    then have "(0 :: int) \<le> of_char c - of_char CHR ''A'' + 10" unfolding i less_eq_char_def by linarith
    then show ?thesis using 3(3-) unfolding digit_or_throw_def HexDigit_def if_not_P [OF 3(1)] if_not_P [OF 3(2)]
      by (simp only: if_True simp_thms w throw_ok_simps sum.inject of_int_diff of_int_add of_int_numeral) (rule eq_commute)
  next
    case 4
    then show ?thesis by (simp only: digit_or_throw_def HexDigit_def if_False throw_ok_simps) simp
  qed
qed

lemma digit_or_throw_Inl: "digit_or_throw err c = Inl e \<Longrightarrow> e = err"
  by (simp add: digit_or_throw_def split: if_splits)

lemma hex_pair_eq: "hex_pair h l = push_bit 4 (word_of_int h) OR word_of_int l"
  by (rule bit_word_eqI) (auto simp: hex_pair_def bit_simps)

section \<open>Hexadecimal form\<close>

lemma hex_decode_Cons_Cons_Some:
  "hex_decode (a # b # cs) = Some bs \<longleftrightarrow> 0 \<le> HexDigit a \<and> 0 \<le> HexDigit b \<and>
    (\<exists>bs'. hex_decode cs = Some bs' \<and> bs = hex_pair (HexDigit a) (HexDigit b) # bs')"
  by auto

lemma drop_two:
  assumes "length hex = 2 * n" "k < n"
  shows "drop (2 * k) hex = hex ! (k * 2) # hex ! (k * 2 + 1) # drop (2 * Suc k) hex"
  using assms Cons_nth_drop_Suc [of "2 * k" hex] Cons_nth_drop_Suc [of "Suc (2 * k)" hex]
  by (simp add: mult.commute)

lemma FromHexBE_loop_decode:
  assumes "length hex = 2 * SIZE" "length acc = SIZE" "k \<le> SIZE"
  shows "FromHexBE_loop hex [k..<SIZE] acc =
    map_option (\<lambda>bs. rev bs @ drop (SIZE - k) acc) (hex_decode (drop (2 * k) hex))"
  using assms
proof (induction "SIZE - k" arbitrary: k acc)
  case 0
  then show ?case by simp
next
  case (Suc d)
  then have k: "k < SIZE" and d: "d = SIZE - Suc k" by simp_all
  let ?h = "HexDigit (hex ! (k * 2))" and ?l = "HexDigit (hex ! Suc (k * 2))"
  let ?acc = "acc[SIZE - Suc k := hex_pair ?h ?l]"
  have up: "[k..<SIZE] = k # [Suc k..<SIZE]" using k by (rule upt_conv_Cons)
  have acc: "drop (SIZE - Suc k) ?acc = hex_pair ?h ?l # drop (SIZE - k) acc"
  proof -
    have "SIZE - Suc k < length ?acc" using Suc.prems k by simp
    from Cons_nth_drop_Suc [OF this, symmetric] Suc.prems k show ?thesis
      by (simp add: Suc_diff_Suc)
  qed
  show ?case
  proof (cases "?h < 0 \<or> ?l < 0")
    case True
    then show ?thesis by (auto simp: up drop_two [OF Suc.prems(1) k] Let_def)
  next
    case False
    have "FromHexBE_loop hex [Suc k..<SIZE] ?acc = map_option
        (\<lambda>bs. rev bs @ drop (SIZE - Suc k) ?acc) (hex_decode (drop (2 * Suc k) hex))"
      by (rule Suc.hyps(1) [OF d]) (use Suc.prems k in simp_all)
    with False show ?thesis
      by (simp add: up drop_two [OF Suc.prems(1) k] Let_def acc option.map_comp comp_def
          del: mult_Suc_right)
  qed
qed

lemma FromHexBE_decode:
  "FromHexBE hex =
    (if length hex = 64 then map_option (\<lambda>bs. UInt256 (rev bs)) (hex_decode hex) else None)"
proof (cases "length hex = 64")
  case True
  then have "FromHexBE_loop hex [0..<SIZE] (replicate SIZE 0) =
      map_option (\<lambda>bs. rev bs @ drop (SIZE - 0) (replicate SIZE 0)) (hex_decode (drop (2 * 0) hex))"
    by (intro FromHexBE_loop_decode) (simp_all add: SIZE_def)
  with True show ?thesis by (simp add: FromHexBE_def SIZE_def option.map_comp comp_def)
qed (simp add: FromHexBE_def SIZE_def)

lemma hex_encode_append: "hex_encode (xs @ ys) = hex_encode xs @ hex_encode ys"
  by (induction xs) simp_all

lemma ToHexBE_fold:
  "k \<le> SIZE \<Longrightarrow>
    fold (\<lambda>be_index result.
        let byte = bs ! (SIZE - 1 - be_index)
        in result[be_index * 2 := hex_high byte, be_index * 2 + 1 := hex_low byte])
      [0..<k] (replicate (SIZE * 2) CHR ''0'') =
    hex_encode (map (\<lambda>i. bs ! (SIZE - 1 - i)) [0..<k]) @ replicate (SIZE * 2 - k * 2) CHR ''0''"
proof (induction k)
  case (Suc k)
  then have "SIZE * 2 - k * 2 = Suc (Suc (SIZE * 2 - Suc k * 2))" by simp
  with Suc show ?case
    by (simp add: hex_encode_append list_update_append Let_def mult.commute)
qed simp

lemma ToHexBE_encode: "ToHexBE u = hex_encode (rev (bytes_of u))"
proof -
  have "map (\<lambda>i. bytes_of u ! (SIZE - 1 - i)) [0..<SIZE] = rev (bytes_of u)"
    by (rule list_eq_iff_nth_eq' [where n = SIZE]) (simp_all add: SIZE_def rev_nth)
  then show ?thesis
    unfolding ToHexBE_def by (subst ToHexBE_fold) (simp_all add: SIZE_def)
qed

lemma length_ToHexBE [simp, length_simps]: "length (ToHexBE u) = 64"
  by (simp add: ToHexBE_encode)

lemma FromHexBE_ToHexBE [simp]: "FromHexBE (ToHexBE u) = Some u"
  by (simp add: FromHexBE_decode) (simp add: ToHexBE_encode)

lemma FromHexBE_Some_length: "FromHexBE hex = Some u \<Longrightarrow> length hex = 64"
  by (simp add: FromHexBE_decode split: if_splits)

text \<open>The number a hexadecimal string denotes, most significant digit first.\<close>

definition hex_value :: "string \<Rightarrow> int" where
  "hex_value s = foldl (\<lambda>acc c. acc * 16 + HexDigit c) 0 s"

section \<open>Properties\<close>

text \<open>The big-endian hexadecimal text of a 256-bit value reads back as that value, and a text is
  accepted exactly when it has 64 hexadecimal digits; what is accepted in lower case is printed
  back unchanged.\<close>

theorem hex_roundtrip:
  "FromHexBE (ToHexBE u) = Some u \<and> length (ToHexBE u) = 64 \<and>
    (FromHexBE hex \<noteq> None \<longleftrightarrow> length hex = 64 \<and> hex_decode hex \<noteq> None)"
  by (auto simp: FromHexBE_decode ToHexBE_encode)

text \<open>The byte-wise comparison is the comparison of the numbers the bytes denote in little
  endian: negative, zero or positive as the first number is less than, equal to or greater than
  the second, and the number zero is exactly what \<open>IsZero\<close> reports.\<close>

theorem CompareNumeric_orders:
  "(CompareNumeric u v < 0 \<longleftrightarrow> value_of u < value_of v) \<and> (CompareNumeric u v = 0 \<longleftrightarrow> u = v) \<and>
    (0 < CompareNumeric u v \<longleftrightarrow> value_of v < value_of u) \<and> (IsZero u \<longleftrightarrow> value_of u = 0)"
  using value_of_inj [of u UInt256_zero] by (auto simp: CompareNumeric_value IsZero_iff)

end
