(* ===== verification/Header.thy ===== *)
theory Header
  imports UInt256
begin

text \<open>
  \<open>src/header.h\<close> and \<open>src/header.cpp\<close>: the 80-byte block header. The signed \<open>version\<close> is
  kept as its 32 bits.
\<close>

record BlockHeader =
  h_version :: u32
  h_previous_block :: UInt256
  h_merkle_root :: UInt256
  h_time :: u32
  h_bits :: u32
  h_nonce :: u32

definition header_WriteLE32 :: "bytes \<Rightarrow> nat \<Rightarrow> u32 \<Rightarrow> bytes" where
  "header_WriteLE32 out p v =
    out[p := ucast v, p + 1 := ucast (drop_bit 8 v), p + 2 := ucast (drop_bit 16 v),
        p + 3 := ucast (drop_bit 24 v)]"

definition Serialize :: "BlockHeader \<Rightarrow> bytes" where
  "Serialize h =
    (let out = replicate 80 0;
         out = header_WriteLE32 out 0 (h_version h);
         out = splice 4 (bytes_of (h_previous_block h)) out;
         out = splice 36 (bytes_of (h_merkle_root h)) out;
         out = header_WriteLE32 out 68 (h_time h);
         out = header_WriteLE32 out 72 (h_bits h)
     in header_WriteLE32 out 76 (h_nonce h))"

section \<open>Layout and injectivity\<close>

lemma le_bytes_4: "le_bytes 4 v = [ucast v, ucast (drop_bit 8 v), ucast (drop_bit 16 v), ucast (drop_bit 24 v)]"
  by (simp add: eval_nat_numeral drop_bit_drop_bit)

lemma update4_splice:
  assumes "p + 4 \<le> length xs"
  shows "xs[p := a, p + 1 := b, p + 2 := c, p + 3 := d] = splice p [a, b, c, d] xs"
proof (rule list_eq_iff_nth_eq' [where n = "length xs"])
  fix i assume "i < length xs"
  moreover have "i = p \<or> i = p + 1 \<or> i = p + 2 \<or> i = p + 3 \<or> \<not> (p \<le> i \<and> i < p + 4)" by linarith
  ultimately show "xs[p := a, p + 1 := b, p + 2 := c, p + 3 := d] ! i = splice p [a, b, c, d] xs ! i"
    using assms by (elim disjE) (simp_all add: nth_splice nth_list_update)
qed (use assms in simp_all)

lemma header_WriteLE32_splice:
  "p + 4 \<le> length out \<Longrightarrow> header_WriteLE32 out p v = splice p (le_bytes 4 v) out"
  by (simp only: header_WriteLE32_def update4_splice le_bytes_4)

lemma splice_extend: "length pre = p \<Longrightarrow> splice p ys (pre @ zs) = pre @ ys @ drop (length ys) zs"
  by (simp add: splice_def)

definition header_bytes :: "BlockHeader \<Rightarrow> bytes" where
  "header_bytes h = le_bytes 4 (h_version h) @ bytes_of (h_previous_block h) @ bytes_of (h_merkle_root h) @
    le_bytes 4 (h_time h) @ le_bytes 4 (h_bits h) @ le_bytes 4 (h_nonce h)"

lemma Serialize_layout: "Serialize h = header_bytes h"
proof -
  let ?v = "le_bytes 4 (h_version h)" and ?p = "bytes_of (h_previous_block h)"
  let ?m = "bytes_of (h_merkle_root h)" and ?t = "le_bytes 4 (h_time h)" and ?b = "le_bytes 4 (h_bits h)"
  have s1: "header_WriteLE32 (replicate 80 0) 0 (h_version h) = ?v @ replicate 76 0"
    by (subst header_WriteLE32_splice) (simp_all add: splice_def)
  have s2: "splice 4 ?p (?v @ replicate 76 0) = (?v @ ?p) @ replicate 44 0"
    by (subst splice_extend) simp_all
  have s3: "splice 36 ?m ((?v @ ?p) @ replicate 44 0) = (?v @ ?p @ ?m) @ replicate 12 0"
    by (subst splice_extend) simp_all
  have s4: "header_WriteLE32 ((?v @ ?p @ ?m) @ replicate 12 0) 68 (h_time h) = (?v @ ?p @ ?m @ ?t) @ replicate 8 0"
    by (subst header_WriteLE32_splice, simp, subst splice_extend) simp_all
  have s5: "header_WriteLE32 ((?v @ ?p @ ?m @ ?t) @ replicate 8 0) 72 (h_bits h) =
      (?v @ ?p @ ?m @ ?t @ ?b) @ replicate 4 0"
    by (subst header_WriteLE32_splice, simp, subst splice_extend) simp_all
  have s6: "header_WriteLE32 ((?v @ ?p @ ?m @ ?t @ ?b) @ replicate 4 0) 76 (h_nonce h) = header_bytes h"
    by (subst header_WriteLE32_splice, simp, subst splice_extend) (simp_all add: header_bytes_def)
  show ?thesis unfolding Serialize_def Let_def s1 s2 s3 s4 s5 s6 ..
qed

lemma length_Serialize [simp, length_simps]: "length (Serialize h) = 80"
  by (simp add: Serialize_layout header_bytes_def)

text \<open>The decoder of the wire format, against which the serialiser is checked.\<close>

definition parse_header :: "bytes \<Rightarrow> BlockHeader" where
  "parse_header bs =
    \<lparr>h_version = le_word (slice 0 4 bs), h_previous_block = UInt256 (slice 4 32 bs),
     h_merkle_root = UInt256 (slice 36 32 bs), h_time = le_word (slice 68 4 bs),
     h_bits = le_word (slice 72 4 bs), h_nonce = le_word (slice 76 4 bs)\<rparr>"

lemma parse_Serialize: "parse_header (Serialize h) = h"
  by (simp add: Serialize_layout header_bytes_def parse_header_def slice_append_right slice_0_append
      le_word_le_bytes_id) (simp add: slice_def le_word_le_bytes_id)

lemma Serialize_inj: "Serialize h = Serialize h' \<longleftrightarrow> h = h'"
  by (metis parse_Serialize)

text \<open>Changing the nonce rewrites the last four bytes only.\<close>

lemma Serialize_nonce: "Serialize (h\<lparr>h_nonce := n\<rparr>) = take 76 (Serialize h) @ le_bytes 4 n"
  by (simp add: Serialize_layout header_bytes_def)

section \<open>Properties\<close>

text \<open>C35: A header serialises to exactly 80 bytes from which every field is read back, so two
  different headers never serialise to the same bytes.\<close>

theorem Serialize_roundtrip:
  "parse_header (Serialize h) = h \<and> length (Serialize h) = 80 \<and> (Serialize h = Serialize h' \<longleftrightarrow> h = h')"
  by (simp add: parse_Serialize Serialize_inj)

text \<open>Changing the nonce changes the last four bytes of the serialised header only.\<close>

theorem Serialize_set_nonce:
  "Serialize (h\<lparr>h_nonce := n\<rparr>) = take 76 (Serialize h) @ le_bytes 4 n"
  by (rule Serialize_nonce)

end
