(* ===== verification/Target.thy ===== *)
theory Target
  imports UInt256
begin

text \<open>
  \<open>src/target.h\<close> and \<open>src/target.cpp\<close>: compact difficulty bits, their decoding to a 256-bit
  target, and the proof-of-work comparison.
\<close>

record CompactTarget =
  ct_target :: UInt256
  ct_negative :: bool
  ct_overflow :: bool

definition CompactTarget_IsValid :: "CompactTarget \<Rightarrow> bool" where
  "CompactTarget_IsValid c \<longleftrightarrow> \<not> ct_negative c \<and> \<not> ct_overflow c \<and> \<not> IsZero (ct_target c)"

definition DecodeCompact :: "u32 \<Rightarrow> CompactTarget" where
  "DecodeCompact compact =
    (let size = unat (drop_bit 24 compact);
         word = compact AND 0x007fffff;
         bytes = replicate 32 0;
         word = (if size \<le> 3 then drop_bit (8 * (3 - size)) word else word);
         bytes = (if size \<le> 3
           then fold (\<lambda>i bytes. bytes[i := ucast (drop_bit (8 * i) word)]) [0..<4] bytes
           else fold (\<lambda>i bytes. if size - 3 + i < 32
                  then bytes[size - 3 + i := ucast (drop_bit (8 * i) word)] else bytes) [0..<3] bytes)
     in \<lparr>ct_target = UInt256 bytes,
         ct_negative = (word \<noteq> 0 \<and> compact AND 0x00800000 \<noteq> 0),
         ct_overflow = (word \<noteq> 0 \<and> (size > 34 \<or> word > 0xff \<and> size > 33 \<or> word > 0xffff \<and> size > 32))\<rparr>)"

definition ValidTargetFromCompact :: "u32 \<Rightarrow> UInt256 option" where
  "ValidTargetFromCompact compact =
    (let decoded = DecodeCompact compact
     in if \<not> CompactTarget_IsValid decoded then None else Some (ct_target decoded))"

fun ParseBitsHex_loop :: "string \<Rightarrow> u32 \<Rightarrow> u32 option" where
  "ParseBitsHex_loop [] v = Some v"
| "ParseBitsHex_loop (c # cs) v =
    (let digit = HexDigit c
     in if digit < 0 then None else ParseBitsHex_loop cs (push_bit 4 v OR word_of_int digit))"

definition ParseBitsHex :: "string \<Rightarrow> u32 option" where
  "ParseBitsHex hex = (if length hex \<noteq> 8 then None else ParseBitsHex_loop hex 0)"

definition MeetsTarget :: "UInt256 \<Rightarrow> UInt256 \<Rightarrow> bool" where
  "MeetsTarget hash t = (hash \<le> t)"

section \<open>The number a compact target denotes\<close>

definition compact_size :: "u32 \<Rightarrow> nat" where
  "compact_size compact = unat compact div 2 ^ 24"

definition compact_mantissa :: "u32 \<Rightarrow> nat" where
  "compact_mantissa compact = unat compact mod 2 ^ 23"

text \<open>\<open>mantissa * 256 ^ (size - 3)\<close>, truncated when \<open>size < 3\<close>.\<close>

definition compact_value :: "u32 \<Rightarrow> nat" where
  "compact_value compact =
    (let s = compact_size compact; m = compact_mantissa compact
     in if s \<le> 3 then m div 256 ^ (3 - s) else m * 256 ^ (s - 3))"

lemma compact_size_eq: "unat (drop_bit 24 (c :: u32)) = compact_size c"
  by (simp add: compact_size_def unat_drop_bit_eq drop_bit_eq_div [of 24 "unat c"])

lemma compact_mantissa_eq: "unat (c AND 0x007fffff :: u32) = compact_mantissa c"
proof -
  have "(0x007fffff :: u32) = mask 23" by (simp add: mask_eq_exp_minus_1)
  then have "c AND 0x007fffff = take_bit 23 c" by (simp only: take_bit_eq_mask)
  then show ?thesis by (simp only: compact_mantissa_def unsigned_take_bit_eq take_bit_eq_mod [of 23 "unat c"])
qed

lemma shifted_mantissa:
  "unat (drop_bit (8 * k) (c AND 0x007fffff) :: u32) = compact_mantissa c div 256 ^ k"
proof -
  have "(256 :: nat) ^ k = 2 ^ (8 * k)" by (simp add: power_mult)
  then show ?thesis
    by (simp only: unat_drop_bit_eq compact_mantissa_eq drop_bit_eq_div [of "8 * k" "compact_mantissa c"])
qed

lemma four_bytes: "fold (\<lambda>i bytes. bytes[i := ucast (drop_bit (8 * i) w)]) [0..<4] (replicate 32 (0 :: byte)) =
    le_bytes 4 (w :: u32) @ replicate 28 0"
  by (simp add: upt_rec eval_nat_numeral drop_bit_drop_bit)

lemma le_nat_three: "le_nat [ucast (w :: u32), ucast (drop_bit 8 w), ucast (drop_bit 16 w)] = unat w mod 2 ^ 24"
proof -
  have "le_bytes 3 w = [ucast w, ucast (drop_bit 8 w), ucast (drop_bit 16 w)]"
    by (simp add: numeral_3_eq_3 drop_bit_drop_bit)
  moreover have "(256 :: nat) ^ 3 = 2 ^ 24" by simp
  ultimately show ?thesis using le_nat_le_bytes [of 3 w] by (simp only:)
qed

lemma three_bytes_at:
  "fold (\<lambda>i bytes. if off + i < 32 then bytes[off + i := f i] else bytes) [0..<3] (replicate 32 (0 :: byte)) =
    take 32 (replicate off 0 @ [f 0, f 1, f 2] @ replicate 32 0)" (is "?l = ?r")
proof (rule list_eq_iff_nth_eq' [where n = 32])
  have u: "[0..<3] = [0, 1, 2]" by (simp add: upt_rec)
  show "length ?l = 32" by (simp add: u)
  fix i :: nat assume i: "i < 32"
  consider "i < off" | "i = off" | "i = off + 1" | "i = off + 2" | "off + 3 \<le> i" by linarith
  then show "?l ! i = ?r ! i"
    using i by cases (simp_all add: u nth_append nth_list_update nth_Cons')
qed simp

lemma DecodeCompact_value:
  "value_of (ct_target (DecodeCompact c)) = compact_value c mod 2 ^ 256"
proof -
  let ?s = "compact_size c" and ?w = "c AND 0x007fffff" and ?m = "compact_mantissa c"
  have p256: "(2 :: nat) ^ 256 = 256 ^ 32" by (simp add: power_mult [symmetric])
  show ?thesis
  proof (cases "?s \<le> 3")
    case True
    define w' where "w' = drop_bit (8 * (3 - ?s)) ?w"
    have w'c: "unat w' = compact_value c"
      unfolding w'_def shifted_mantissa using True by (simp add: compact_value_def Let_def)
    have "le_nat (le_bytes 4 w') = unat w'"
      using unsigned_less [of w', where ?'a = nat] by (simp add: le_nat_le_bytes)
    then have "value_of (ct_target (DecodeCompact c)) = compact_value c"
      using True four_bytes [of w']
      by (simp add: DecodeCompact_def Let_def compact_size_eq value_of_def le_nat_append w'c w'_def [symmetric]
          del: drop_bit_and)
    then show ?thesis using value_of_less [of "ct_target (DecodeCompact c)"] by simp
  next
    case False
    let ?off = "?s - 3"
    let ?bs = "[ucast ?w, ucast (drop_bit 8 ?w), ucast (drop_bit 16 ?w)] :: bytes"
    have "?m < 2 ^ 24" by (simp add: compact_mantissa_def)
    then have m: "le_nat ?bs = ?m"
      using le_nat_three [of ?w] by (simp only: compact_mantissa_eq mod_less)
    have "fold (\<lambda>i bytes. if ?off + i < 32 then bytes[?off + i := ucast (drop_bit (8 * i) ?w)] else bytes)
        [0..<3] (replicate 32 (0 :: byte)) = take 32 (replicate ?off 0 @ ?bs @ replicate 32 0)"
      by (subst three_bytes_at) simp
    then have "bytes_of (ct_target (DecodeCompact c)) = take 32 (replicate ?off 0 @ ?bs @ replicate 32 0)"
      using False by (simp add: DecodeCompact_def Let_def compact_size_eq)
    then have "value_of (ct_target (DecodeCompact c)) = (256 ^ ?off * le_nat ?bs) mod 256 ^ 32"
      by (simp only: value_of_def le_nat_take le_nat_append le_nat_replicate_0 length_replicate) simp
    then show ?thesis
      using False by (simp only: m p256 compact_value_def Let_def if_False mult.commute)
  qed
qed

text \<open>
  The flags: negative when the sign bit is set on a non-zero value, overflow exactly when the
  number does not fit into 256 bits. So a target is accepted exactly when it is the number
  itself, positive and below \<open>2 ^ 256\<close>.
\<close>

lemma compact_mantissa_less: "compact_mantissa c < 2 ^ 23"
  by (simp add: compact_mantissa_def)

lemma word_greater_unat: "(w :: u32) > n \<longleftrightarrow> unat w > unat n"
  by (simp add: word_less_nat_alt)

lemma mult_power_ge:
  assumes "(m :: nat) < 2 ^ 23" "3 < s"
  shows "2 ^ 256 \<le> m * 256 ^ (s - 3) \<longleftrightarrow> m \<noteq> 0 \<and> (s > 34 \<or> m > 0xff \<and> s > 33 \<or> m > 0xffff \<and> s > 32)"
proof -
  have p: "(256 :: nat) ^ (s - 3) = 256 ^ k * 256 ^ (s - 3 - k)" if "k \<le> s - 3" for k
    using that by (simp add: power_add [symmetric])
  have q: "(2 :: nat) ^ 256 = 256 ^ 32" by (simp add: power_mult [symmetric])
  consider "s \<le> 32" | "s = 33" | "s = 34" | "34 < s" by linarith
  then show ?thesis
  proof cases
    case 1
    then have "(256 :: nat) ^ (s - 3) \<le> 256 ^ 29" by (intro power_increasing) simp_all
    then have "m * 256 ^ (s - 3) \<le> 2 ^ 23 * 256 ^ 29" using assms(1) by (intro mult_le_mono) simp_all
    also have "\<dots> < (2 :: nat) ^ 256" by simp
    finally show ?thesis using 1 by simp
  next
    case 4
    then have "(256 :: nat) ^ 32 \<le> 256 ^ (s - 3)" by (intro power_increasing) simp_all
    then have "2 ^ 256 \<le> m * 256 ^ (s - 3)" if "m \<noteq> 0"
      using that unfolding q by (metis le_trans mult_le_mono1 nat_mult_1 not_less_eq_eq One_nat_def le_zero_eq)
    then show ?thesis using 4 by (cases "m = 0") simp_all
  qed (use assms in auto)
qed

lemma DecodeCompact_overflow: "ct_overflow (DecodeCompact c) \<longleftrightarrow> 2 ^ 256 \<le> compact_value c"
proof (cases "compact_size c \<le> 3")
  case True
  have "compact_value c \<le> compact_mantissa c" using True by (simp add: compact_value_def Let_def)
  also have "\<dots> < 2 ^ 256" using compact_mantissa_less [of c] by simp
  finally show ?thesis using True by (simp add: DecodeCompact_def Let_def compact_size_eq)
next
  case False
  let ?w = "c AND 0x007fffff"
  have w: "?w = 0 \<longleftrightarrow> compact_mantissa c = 0"
    by (simp only: compact_mantissa_eq [symmetric] unat_eq_zero)
  have "ct_overflow (DecodeCompact c) \<longleftrightarrow> compact_mantissa c \<noteq> 0 \<and>
      (compact_size c > 34 \<or> compact_mantissa c > 0xff \<and> compact_size c > 33 \<or>
        compact_mantissa c > 0xffff \<and> compact_size c > 32)"
    using False by (simp add: DecodeCompact_def Let_def compact_size_eq w word_greater_unat compact_mantissa_eq)
  also have "\<dots> \<longleftrightarrow> 2 ^ 256 \<le> compact_value c"
    using False mult_power_ge [OF compact_mantissa_less, of "compact_size c" c]
    by (simp add: compact_value_def Let_def)
  finally show ?thesis .
qed

lemma sign_bit: "c AND 0x00800000 \<noteq> 0 \<longleftrightarrow> bit c 23" for c :: u32
proof -
  have e: "(0x00800000 :: u32) = push_bit 23 1" by simp
  show ?thesis unfolding e by (rule bit_iff_and_push_bit_not_eq_0 [symmetric])
qed

lemma DecodeCompact_negative:
  "ct_negative (DecodeCompact c) \<longleftrightarrow> bit c 23 \<and> compact_value c \<noteq> 0"
proof -
  let ?w = "c AND 0x007fffff" and ?s = "compact_size c"
  let ?w' = "if ?s \<le> 3 then drop_bit (8 * (3 - ?s)) ?w else ?w"
  have "?w' = 0 \<longleftrightarrow> unat ?w' = 0" by (simp only: unat_eq_zero)
  also have "\<dots> \<longleftrightarrow> compact_value c = 0"
    by (cases "?s \<le> 3") (simp_all only: if_True if_False compact_value_def Let_def shifted_mantissa
        compact_mantissa_eq mult_eq_0_iff power_eq_0_iff, simp_all)
  finally show ?thesis
    by (simp add: DecodeCompact_def Let_def compact_size_eq sign_bit) blast
qed

lemma ValidTargetFromCompact_iff:
  "ValidTargetFromCompact c = Some t \<longleftrightarrow>
    0 < compact_value c \<and> compact_value c < 2 ^ 256 \<and> \<not> bit c 23 \<and> value_of t = compact_value c"
proof -
  let ?d = "DecodeCompact c"
  have "IsZero (ct_target ?d) \<longleftrightarrow> value_of (ct_target ?d) = 0"
    by (simp add: IsZero_iff value_of_inj [symmetric] del: value_of_inj)
  then have "CompactTarget_IsValid ?d \<longleftrightarrow> 0 < compact_value c \<and> compact_value c < 2 ^ 256 \<and> \<not> bit c 23"
    unfolding CompactTarget_IsValid_def DecodeCompact_negative DecodeCompact_overflow DecodeCompact_value
    by (cases "compact_value c < 2 ^ 256") auto
  moreover have "value_of (ct_target ?d) = compact_value c" if "compact_value c < 2 ^ 256"
    using that by (simp add: DecodeCompact_value)
  ultimately show ?thesis
    by (auto simp: ValidTargetFromCompact_def Let_def value_of_inj [symmetric] simp del: value_of_inj)
qed

lemma MeetsTarget_value: "MeetsTarget h t \<longleftrightarrow> value_of h \<le> value_of t"
  by (simp add: MeetsTarget_def UInt256_le_value)

section \<open>Hexadecimal bits\<close>

lemma hex_step:
  assumes d: "0 \<le> d" "d < 16" and v: "uint (v :: u32) < 2 ^ 28"
  shows "uint (push_bit 4 v OR word_of_int d) = uint v * 16 + d"
proof -
  have td: "take_bit 4 d = d" using d by (simp add: take_bit_int_eq_self)
  have "push_bit 4 (uint v) AND take_bit 4 d = 0"
    by (rule bit_eqI) (auto simp: bit_simps)
  then have "push_bit 4 (uint v) OR d = push_bit 4 (uint v) + d"
    by (simp only: td disjunctive_add_eq_or)
  then have e: "push_bit 4 (uint v) OR d = uint v * 16 + d" by (simp add: push_bit_eq_mult)
  have "uint (push_bit 4 v) = push_bit 4 (uint v)"
    unfolding unsigned_push_bit_eq using v by (simp add: push_bit_eq_mult take_bit_int_eq_self)
  moreover have "uint (word_of_int d :: u32) = d"
    using d by (simp add: uint_word_of_int_eq take_bit_int_eq_self)
  ultimately show ?thesis by (simp only: unsigned_or_eq e)
qed

lemma ParseBitsHex_loop_spec:
  assumes "uint v < 16 ^ k" "k + length cs \<le> 8"
  shows "ParseBitsHex_loop cs v =
    (if \<forall>c \<in> set cs. 0 \<le> HexDigit c
     then Some (word_of_int (foldl (\<lambda>acc c. acc * 16 + HexDigit c) (uint v) cs)) else None)"
  using assms
proof (induction cs arbitrary: v k)
  case (Cons c cs)
  show ?case
  proof (cases "HexDigit c < 0")
    case False
    have b: "HexDigit c < 16" using HexDigit_bounds [of c] by simp
    have "(16 :: int) ^ k \<le> 16 ^ 7" using Cons.prems(2) by (intro power_increasing) simp_all
    then have "uint v < 2 ^ 28" using Cons.prems(1) by simp
    then have s: "uint (push_bit 4 v OR word_of_int (HexDigit c)) = uint v * 16 + HexDigit c"
      using False b by (intro hex_step) simp_all
    moreover have "uint v * 16 + HexDigit c < 16 ^ Suc k" using Cons.prems(1) b by simp
    ultimately show ?thesis
      using Cons.IH [of "push_bit 4 v OR word_of_int (HexDigit c)" "Suc k"] Cons.prems(2) False
      by (simp add: Let_def not_less)
  qed (auto simp: Let_def)
qed simp

lemma ParseBitsHex_spec:
  "ParseBitsHex hex =
    (if length hex = 8 \<and> (\<forall>c \<in> set hex. 0 \<le> HexDigit c) then Some (word_of_int (hex_value hex)) else None)"
  using ParseBitsHex_loop_spec [of 0 0 hex] by (auto simp: ParseBitsHex_def hex_value_def)

section \<open>Properties\<close>

text \<open>Decoding compact bits gives the number \<open>mantissa * 256 ^ (size - 3)\<close> modulo \<open>2 ^ 256\<close>; the
  overflow flag is set exactly when that number does not fit, and the negative flag exactly when
  the sign bit is set on a nonzero number.\<close>

theorem DecodeCompact_number:
  "value_of (ct_target (DecodeCompact c)) = compact_value c mod 2 ^ 256 \<and>
    (ct_overflow (DecodeCompact c) \<longleftrightarrow> 2 ^ 256 \<le> compact_value c) \<and>
    (ct_negative (DecodeCompact c) \<longleftrightarrow> bit c 23 \<and> compact_value c \<noteq> 0)"
  by (intro conjI DecodeCompact_value DecodeCompact_overflow DecodeCompact_negative)

text \<open>C34: Compact bits are accepted as a target exactly when they denote a positive number below
  \<open>2 ^ 256\<close> with a clear sign bit, and the target is that number.\<close>

theorem ValidTargetFromCompact_accepts:
  "ValidTargetFromCompact c = Some t \<longleftrightarrow>
    0 < compact_value c \<and> compact_value c < 2 ^ 256 \<and> \<not> bit c 23 \<and> value_of t = compact_value c"
  by (rule ValidTargetFromCompact_iff)

text \<open>The proof-of-work comparison: a hash meets a target exactly when the number its bytes
  denote in little endian is at most the target's.\<close>

theorem MeetsTarget_number: "MeetsTarget h t \<longleftrightarrow> value_of h \<le> value_of t"
  by (rule MeetsTarget_value)

text \<open>The bits of a template are read from exactly eight hexadecimal digits, most significant
  first; any other text is rejected.\<close>

theorem ParseBitsHex_number:
  "ParseBitsHex hex =
    (if length hex = 8 \<and> list_all (\<lambda>c. 0 \<le> HexDigit c) hex then Some (word_of_int (hex_value hex)) else None)"
  by (simp add: ParseBitsHex_spec list_all_iff)

end
