(* ===== verification/Scanner.thy ===== *)
theory Scanner
  imports MercaHashRefine Header Target
begin

text \<open>
  \<open>src/scanner.h\<close> and \<open>src/scanner.cpp\<close>: the search of a range of nonces for a header whose hash
  meets the target, with three cancellation flags that other threads may set at any time.
\<close>

datatype ScanStatus = FOUND | EXHAUSTED | CANCELLED

record ScanResult =
  sr_status :: ScanStatus
  sr_nonce :: u32
  sr_hash :: UInt256
  sr_hashes_checked :: u64

text \<open>
  A flag is a pointer to an \<open>atomic_bool\<close>: \<open>None\<close> is the null pointer, and \<open>Some f\<close> says what the
  flag reads as at the \<open>k\<close>-th iteration of the loop.
\<close>

type_synonym flag = "(nat \<Rightarrow> bool) option"

definition load_flag :: "flag \<Rightarrow> nat \<Rightarrow> bool" where
  "load_flag fl k = (case fl of None \<Rightarrow> False | Some f \<Rightarrow> f k)"

definition poll_cancelled :: "flag \<Rightarrow> flag \<Rightarrow> flag \<Rightarrow> nat \<Rightarrow> bool" where
  "poll_cancelled cancelled cancelled_secondary cancelled_tertiary k \<longleftrightarrow>
    load_flag cancelled k \<or> load_flag cancelled_secondary k \<or> load_flag cancelled_tertiary k"

text \<open>The scratchpad of a new scanner: zero bytes.\<close>

definition NonceScanner_new :: bytes where
  "NonceScanner_new = replicate SCRATCHPAD_BYTES 0"

text \<open>Hashing one nonce: the header with the nonce, hashed on the scanner's scratchpad.\<close>

definition hash_nonce :: "BlockHeader \<Rightarrow> u32 \<Rightarrow> bytes \<Rightarrow> (bytes \<times> UInt256) option" where
  "hash_nonce header nonce scratchpad =
    HashV1 (Serialize (header\<lparr>h_nonce := nonce\<rparr>)) scratchpad (replicate OUTPUT_SIZE 0) \<bind>
    (\<lambda>(scratchpad, out). Some (scratchpad, UInt256 out))"

text \<open>The distance to the last nonce, modulo \<open>2 ^ 32\<close>, decreases: the loop ends even without the
  check of the range.\<close>

lemma nonce_distance:
  assumes "(nonce :: u32) \<noteq> nonce_end"
  shows "unat (nonce_end - (nonce + 1)) < unat (nonce_end - nonce)"
proof -
  have "nonce_end - nonce \<noteq> 0" using assms by simp
  then have "unat (nonce_end - nonce - 1) = unat (nonce_end - nonce) - 1" by (rule unat_minus_one)
  moreover have "0 < unat (nonce_end - nonce)" using assms by (simp add: unat_gt_0)
  ultimately show ?thesis by (simp add: diff_diff_eq)
qed

text \<open>
  The loop. The result is that of the scan, the scratchpad and the counter \<open>live_hashes\<close> (if there
  is one); \<open>None\<close> is a failed assertion of the hash.
\<close>

function scan_loop :: "(nat \<Rightarrow> bool) \<Rightarrow> BlockHeader \<Rightarrow> UInt256 \<Rightarrow> u32 \<Rightarrow> nat \<Rightarrow> u32 \<Rightarrow> u64 \<Rightarrow> bytes \<Rightarrow>
    u64 option \<Rightarrow> (ScanResult \<times> bytes \<times> u64 option) option" where
  "scan_loop cancelled header target nonce_end k nonce hashes_checked scratchpad live_hashes =
    (if cancelled k then
       Some (\<lparr>sr_status = CANCELLED, sr_nonce = nonce, sr_hash = UInt256_zero,
              sr_hashes_checked = hashes_checked\<rparr>, scratchpad, live_hashes)
     else case hash_nonce header nonce scratchpad of
       None \<Rightarrow> None
     | Some (scratchpad, hash) \<Rightarrow>
         if MeetsTarget hash target then
           Some (\<lparr>sr_status = FOUND, sr_nonce = nonce, sr_hash = hash,
                  sr_hashes_checked = hashes_checked + 1\<rparr>, scratchpad, map_option (\<lambda>n. n + 1) live_hashes)
         else if nonce = nonce_end then
           Some (\<lparr>sr_status = EXHAUSTED, sr_nonce = nonce, sr_hash = hash,
                  sr_hashes_checked = hashes_checked + 1\<rparr>, scratchpad, map_option (\<lambda>n. n + 1) live_hashes)
         else scan_loop cancelled header target nonce_end (k + 1) (nonce + 1) (hashes_checked + 1)
           scratchpad (map_option (\<lambda>n. n + 1) live_hashes))"
  by pat_completeness auto

termination
  by (relation "measure (\<lambda>(cancelled, header, target, nonce_end, k, nonce, rest). unat (nonce_end - nonce))")
    (auto simp: nonce_distance)

declare scan_loop.simps [simp del]

definition Scan :: "bytes \<Rightarrow> BlockHeader \<Rightarrow> UInt256 \<Rightarrow> u32 \<Rightarrow> u32 \<Rightarrow> flag \<Rightarrow> flag \<Rightarrow> flag \<Rightarrow> u64 option \<Rightarrow>
    (ScanResult \<times> bytes \<times> u64 option) option res" where
  "Scan scratchpad header target nonce_begin nonce_end cancelled cancelled_secondary cancelled_tertiary live_hashes =
    rbind (throw_if (nonce_begin > nonce_end) (InvalidArgument ''nonce range begin exceeds nonce range end'')) (\<lambda>_.
    ok (scan_loop (poll_cancelled cancelled cancelled_secondary cancelled_tertiary) header target nonce_end
      0 nonce_begin 0 scratchpad live_hashes))"

section \<open>The hash of a nonce\<close>

definition nonce_hash :: "BlockHeader \<Rightarrow> u32 \<Rightarrow> UInt256" where
  "nonce_hash header nonce = UInt256 (mercahash_spec (Serialize (header\<lparr>h_nonce := nonce\<rparr>)) V1_PARAMS)"

lemma hash_nonce_spec:
  assumes "length pad = SCRATCHPAD_BYTES"
  shows "\<exists>pad'. hash_nonce header nonce pad = Some (pad', nonce_hash header nonce) \<and> length pad' = SCRATCHPAD_BYTES"
proof -
  have "length (Serialize (header\<lparr>h_nonce := nonce\<rparr>)) = HEADER_SIZE" by (simp add: HEADER_SIZE_def)
  from HashRefines [OF this assms _ V1_mix_steps, of "replicate OUTPUT_SIZE 0"] length_pack
  show ?thesis by (auto simp: hash_nonce_def HashV1_def nonce_hash_def)
qed

text \<open>Whether a nonce solves the header.\<close>

definition solves :: "BlockHeader \<Rightarrow> UInt256 \<Rightarrow> nat \<Rightarrow> bool" where
  "solves header target n \<longleftrightarrow> value_of (nonce_hash header (of_nat n)) \<le> value_of target"

lemma MeetsTarget_solves: "MeetsTarget (nonce_hash header nonce) target \<longleftrightarrow> solves header target (unat nonce)"
  by (simp add: solves_def MeetsTarget_def UInt256_le_value)

text \<open>What a scan of the nonces from \<open>b\<close> to \<open>e\<close> reports.\<close>

definition scan_report :: "(nat \<Rightarrow> bool) \<Rightarrow> BlockHeader \<Rightarrow> UInt256 \<Rightarrow> nat \<Rightarrow> nat \<Rightarrow> ScanResult \<Rightarrow> bool" where
  "scan_report cancelled header target b e r \<longleftrightarrow>
    (let n = unat (sr_nonce r) in b \<le> n \<and> n \<le> e \<and> (\<forall>m. b \<le> m \<and> m < n \<longrightarrow> \<not> solves header target m) \<and>
     (case sr_status r of
        FOUND \<Rightarrow> solves header target n \<and> sr_hash r = nonce_hash header (sr_nonce r) \<and>
          sr_hashes_checked r = of_nat (n - b + 1)
      | EXHAUSTED \<Rightarrow> n = e \<and> \<not> solves header target n \<and> sr_hash r = nonce_hash header (sr_nonce r) \<and>
          sr_hashes_checked r = of_nat (n - b + 1)
      | CANCELLED \<Rightarrow> cancelled (n - b) \<and> sr_hash r = UInt256_zero \<and> sr_hashes_checked r = of_nat (n - b)))"

lemma scan_loop_report:
  assumes "length pad = SCRATCHPAD_BYTES" "b \<le> unat nonce" "nonce \<le> nonce_end"
    and "\<forall>m. b \<le> m \<and> m < unat nonce \<longrightarrow> \<not> solves header target m"
  shows "\<exists>r pad' live'. scan_loop cancelled header target nonce_end (unat nonce - b) nonce (of_nat (unat nonce - b)) pad live =
      Some (r, pad', live') \<and> scan_report cancelled header target b (unat nonce_end) r \<and>
    length pad' = SCRATCHPAD_BYTES"
  using assms
proof (induction "unat (nonce_end - nonce)" arbitrary: nonce pad live rule: less_induct)
  case less
  obtain pad' where h: "hash_nonce header nonce pad = Some (pad', nonce_hash header nonce)"
    "length pad' = SCRATCHPAD_BYTES"
    using hash_nonce_spec [OF less.prems(1)] by blast
  have le: "unat nonce \<le> unat nonce_end" using less.prems(3) by (simp add: word_le_nat_alt)
  consider "cancelled (unat nonce - b)" | "\<not> cancelled (unat nonce - b)" "solves header target (unat nonce)"
    | "\<not> cancelled (unat nonce - b)" "\<not> solves header target (unat nonce)" "nonce = nonce_end"
    | "\<not> cancelled (unat nonce - b)" "\<not> solves header target (unat nonce)" "nonce \<noteq> nonce_end" by blast
  then show ?case
  proof cases
    case 4
    then have "nonce < nonce_end" using less.prems(3) by simp
    then have n: "unat nonce < unat nonce_end" by (simp add: word_less_nat_alt)
    then have u: "unat (nonce + 1) = Suc (unat nonce)"
      using unsigned_less [of nonce_end, where ?'a = nat] by (simp add: unat_word_ariths)
    then have k: "unat (nonce + 1) - b = unat nonce - b + 1" using less.prems(2) by simp
    have "nonce + 1 \<le> nonce_end" using n u by (simp add: word_le_nat_alt)
    moreover have "\<forall>m. b \<le> m \<and> m < unat (nonce + 1) \<longrightarrow> \<not> solves header target m"
      using less.prems(4) 4(2) unfolding u by (metis less_SucE)
    ultimately have "\<exists>r pad'' live'. scan_loop cancelled header target nonce_end (unat nonce - b + 1) (nonce + 1)
        (of_nat (unat nonce - b + 1)) pad' (map_option (\<lambda>n. n + 1) live) = Some (r, pad'', live') \<and>
        scan_report cancelled header target b (unat nonce_end) r \<and> length pad'' = SCRATCHPAD_BYTES"
      using less.hyps [OF nonce_distance [OF 4(3)] h(2), of "map_option (\<lambda>n. n + 1) live"] less.prems(2)
      unfolding k by (simp add: u)
    then show ?thesis using 4 h(1)
      by (subst scan_loop.simps) (simp add: MeetsTarget_solves add.commute)
  qed (use less.prems h le in \<open>auto simp: scan_loop.simps [of cancelled] scan_report_def MeetsTarget_solves\<close>)
qed

text \<open>The shared counter grows by the number of hashes reported.\<close>

lemma scan_loop_counts:
  "scan_loop cancelled header target nonce_end k nonce hashes pad live = Some (r, pad', live') \<Longrightarrow>
    live' = map_option (\<lambda>n. n + (sr_hashes_checked r - hashes)) live"
proof (induction cancelled header target nonce_end k nonce hashes pad live rule: scan_loop.induct)
  case (1 cancelled header target nonce_end k nonce hashes pad live)
  show ?case
  proof (cases "cancelled k \<or> hash_nonce header nonce pad = None")
    case True
    then show ?thesis using 1(2) by (subst (asm) scan_loop.simps) (auto split: if_splits option.splits simp: option.map_ident)
  next
    case False
    then obtain pad1 hash where h: "\<not> cancelled k" "hash_nonce header nonce pad = Some (pad1, hash)" by auto
    show ?thesis
    proof (cases "MeetsTarget hash target \<or> nonce = nonce_end")
      case True
      then show ?thesis using 1(2) h by (subst (asm) scan_loop.simps) (auto split: if_splits)
    next
      case False
      then have rec: "scan_loop cancelled header target nonce_end (k + 1) (nonce + 1) (hashes + 1) pad1
          (map_option (\<lambda>n. n + 1) live) = Some (r, pad', live')"
        using 1(2) h by (subst (asm) scan_loop.simps) simp
      have "live' = map_option (\<lambda>n. n + (sr_hashes_checked r - (hashes + 1))) (map_option (\<lambda>n. n + 1) live)"
        using 1(1) [OF h(1,2) refl _ _ rec] False by simp
      then show ?thesis by (simp add: option.map_comp o_def)
    qed
  qed
qed

lemma Scan_reports:
  assumes "length pad = SCRATCHPAD_BYTES" "b \<le> e"
  shows "\<exists>r pad' live'. Scan pad header target b e c1 c2 c3 live = Inr (Some (r, pad', live')) \<and>
    scan_report (poll_cancelled c1 c2 c3) header target (unat b) (unat e) r \<and> length pad' = SCRATCHPAD_BYTES \<and>
    live' = map_option (\<lambda>n. n + sr_hashes_checked r) live"
proof -
  obtain r pad' live' where s: "scan_loop (poll_cancelled c1 c2 c3) header target e 0 b 0 pad live = Some (r, pad', live')"
    "scan_report (poll_cancelled c1 c2 c3) header target (unat b) (unat e) r" "length pad' = SCRATCHPAD_BYTES"
    using scan_loop_report [OF assms(1) _ assms(2), of "unat b"] by fastforce
  moreover have "\<not> b > e" using assms(2) by simp
  ultimately show ?thesis using scan_loop_counts [OF s(1)] by (simp add: Scan_def)
qed

lemma scan_report_found:
  "scan_report (\<lambda>_. False) header target b e r \<Longrightarrow>
    if sr_status r = FOUND then solves header target (unat (sr_nonce r)) else \<not> (\<exists>n. b \<le> n \<and> n \<le> e \<and> solves header target n)"
  by (cases "sr_status r") (auto simp: scan_report_def Let_def le_less)

section \<open>Properties\<close>

text \<open>C14: A scan of a range of nonces always returns. It reports \<open>FOUND\<close> with the first nonce of the
  range whose hash meets the target and that hash, \<open>EXHAUSTED\<close> when no nonce of the range does, or
  \<open>CANCELLED\<close> at a nonce below which none does, and then one of the flags was set at that iteration.
  The number of hashes is exact, and the shared counter grows by it; \<open>nonce_end\<close> may be the largest
  32-bit number.\<close>

theorem Scan_first_solution:
  assumes "length pad = SCRATCHPAD_BYTES" "nonce_begin \<le> nonce_end"
  shows "\<exists>r pad' live'. Scan pad header target nonce_begin nonce_end c1 c2 c3 live = Inr (Some (r, pad', live')) \<and>
    scan_report (poll_cancelled c1 c2 c3) header target (unat nonce_begin) (unat nonce_end) r \<and>
    length pad' = SCRATCHPAD_BYTES \<and> live' = map_option (\<lambda>n. n + sr_hashes_checked r) live"
  using assms by (rule Scan_reports)

theorem Scan_first_solution_witness:
  "\<exists>r pad' live'. Scan NonceScanner_new (parse_header (replicate 80 0)) UInt256_zero 0xfffffff0 0xffffffff None None None (Some 7) =
      Inr (Some (r, pad', live')) \<and> live' = Some (7 + sr_hashes_checked r)"
  using Scan_first_solution [of NonceScanner_new "0xfffffff0" "0xffffffff" "parse_header (replicate 80 0)" UInt256_zero
      None None None "Some 7"]
  by (force simp: NonceScanner_new_def)

text \<open>Without a cancellation a solution is found whenever there is one: the status is \<open>FOUND\<close> exactly
  when some nonce of the range solves the header, and \<open>EXHAUSTED\<close> otherwise.\<close>

theorem Scan_finds_solution:
  assumes "length pad = SCRATCHPAD_BYTES" "nonce_begin \<le> nonce_end"
  shows "\<exists>r pad' live'. Scan pad header target nonce_begin nonce_end None None None live = Inr (Some (r, pad', live')) \<and>
    (sr_status r = FOUND \<longleftrightarrow> (\<exists>n. unat nonce_begin \<le> n \<and> n \<le> unat nonce_end \<and> solves header target n)) \<and>
    sr_status r \<noteq> CANCELLED"
proof -
  have p: "poll_cancelled None None None = (\<lambda>_. False)" by (simp add: poll_cancelled_def load_flag_def fun_eq_iff)
  obtain r pad' live' where s: "Scan pad header target nonce_begin nonce_end None None None live = Inr (Some (r, pad', live'))"
    "scan_report (\<lambda>_. False) header target (unat nonce_begin) (unat nonce_end) r"
    using Scan_reports [OF assms, of header target None None None live] unfolding p by blast
  have "sr_status r \<noteq> CANCELLED" using s(2) by (auto simp: scan_report_def Let_def)
  moreover have "unat nonce_begin \<le> unat (sr_nonce r) \<and> unat (sr_nonce r) \<le> unat nonce_end"
    using s(2) by (simp add: scan_report_def Let_def)
  ultimately show ?thesis using s(1) scan_report_found [OF s(2)] by (auto split: if_splits)
qed

theorem Scan_finds_solution_witness:
  "\<exists>r pad' live'. Scan NonceScanner_new (parse_header (replicate 80 0)) (UInt256 (replicate 32 255)) 0 9 None None None None =
      Inr (Some (r, pad', live')) \<and> sr_status r \<noteq> CANCELLED"
  using Scan_finds_solution [of NonceScanner_new 0 9 "parse_header (replicate 80 0)" "UInt256 (replicate 32 255)" None]
  by (force simp: NonceScanner_new_def)

end
