(* ===== verification/Json.thy ===== *)
theory Json
  imports UInt256
begin

text \<open>
  The JSON library of the program (nlohmann::json) is third-party code: a record of the
  operations the sources call, an argument of every definition that reads or builds JSON. The
  datatype at the end is one concrete instance of it, the values of a JSON document.
\<close>

record 'j json_api =
  j_is_null :: "'j \<Rightarrow> bool"
  j_is_boolean :: "'j \<Rightarrow> bool"
  j_is_string :: "'j \<Rightarrow> bool"
  j_is_object :: "'j \<Rightarrow> bool"
  j_is_array :: "'j \<Rightarrow> bool"
  j_is_unsigned :: "'j \<Rightarrow> bool"
  j_is_integer :: "'j \<Rightarrow> bool"
  j_bool :: "'j \<Rightarrow> bool"
  j_string :: "'j \<Rightarrow> string"
  j_u64 :: "'j \<Rightarrow> u64"
  j_i64 :: "'j \<Rightarrow> u64"
  j_int :: "'j \<Rightarrow> int"
  j_find :: "'j \<Rightarrow> string \<Rightarrow> 'j option"
  j_elems :: "'j \<Rightarrow> 'j list"
  j_parse :: "string \<Rightarrow> string + 'j"
  j_dump :: "'j \<Rightarrow> string + string"
  j_mk_string :: "string \<Rightarrow> 'j"
  j_mk_u64 :: "u64 \<Rightarrow> 'j"
  j_mk_int :: "int \<Rightarrow> 'j"
  j_mk_array :: "'j list \<Rightarrow> 'j"
  j_mk_object :: "(string \<times> 'j) list \<Rightarrow> 'j"

text \<open>
  \<open>j_is_unsigned\<close> and \<open>j_is_integer\<close> are \<open>is_number_unsigned()\<close> and
  \<open>is_number_integer()\<close>; \<open>j_u64\<close>, \<open>j_i64\<close> and \<open>j_int\<close> are \<open>get<std::uint64_t>()\<close>,
  \<open>get<std::int64_t>()\<close> (its 64 bits) and \<open>get<int>()\<close>; \<open>j_find\<close> is \<open>find()\<close> with
  \<open>end()\<close> as \<open>None\<close>; \<open>j_parse\<close> is \<open>parse()\<close> with the message of a \<open>parse_error\<close>
  on the left; \<open>j_dump\<close> is \<open>dump()\<close> with the message of the \<open>type_error\<close> for text that is not
  UTF-8 on the left.
\<close>

section \<open>Documents\<close>

datatype json = JNull | JBool bool | JUnsigned u64 | JNegative u64 | JString string
  | JArray "json list" | JObject "(string \<times> json) list"

fun json_find :: "json \<Rightarrow> string \<Rightarrow> json option" where
  "json_find (JObject kvs) k = map_of kvs k"
| "json_find _ k = None"

fun json_elems :: "json \<Rightarrow> json list" where
  "json_elems (JArray vs) = vs"
| "json_elems _ = []"

fun json_u64 :: "json \<Rightarrow> u64" where
  "json_u64 (JUnsigned n) = n"
| "json_u64 (JNegative n) = n"
| "json_u64 _ = 0"

fun json_string :: "json \<Rightarrow> string" where
  "json_string (JString s) = s"
| "json_string _ = []"

definition documents :: "(string \<Rightarrow> string + json) \<Rightarrow> (json \<Rightarrow> string + string) \<Rightarrow> json json_api" where
  "documents parse dump =
    \<lparr>j_is_null = (\<lambda>j. j = JNull),
     j_is_boolean = (\<lambda>j. case j of JBool b \<Rightarrow> True | _ \<Rightarrow> False),
     j_is_string = (\<lambda>j. case j of JString s \<Rightarrow> True | _ \<Rightarrow> False),
     j_is_object = (\<lambda>j. case j of JObject kvs \<Rightarrow> True | _ \<Rightarrow> False),
     j_is_array = (\<lambda>j. case j of JArray vs \<Rightarrow> True | _ \<Rightarrow> False),
     j_is_unsigned = (\<lambda>j. case j of JUnsigned n \<Rightarrow> True | _ \<Rightarrow> False),
     j_is_integer = (\<lambda>j. case j of JUnsigned n \<Rightarrow> True | JNegative n \<Rightarrow> True | _ \<Rightarrow> False),
     j_bool = (\<lambda>j. case j of JBool b \<Rightarrow> b | _ \<Rightarrow> False),
     j_string = json_string,
     j_u64 = json_u64,
     j_i64 = json_u64,
     j_int = (\<lambda>j. sint (ucast (json_u64 j) :: u32)),
     j_find = json_find,
     j_elems = json_elems,
     j_parse = parse,
     j_dump = dump,
     j_mk_string = JString,
     j_mk_u64 = JUnsigned,
     j_mk_int = (\<lambda>n. JNegative (word_of_int n)),
     j_mk_array = JArray,
     j_mk_object = JObject\<rparr>"

end
