(* ===== verification/Gbt.thy ===== *)
theory Gbt
  imports Json Target
begin

text \<open>
  \<open>src/gbt.cpp\<close>: parsing of \<open>getblockchaininfo\<close> and \<open>getblocktemplate\<close> results. Every
  check of the source is a branch; the theorems state what a successfully parsed template
  satisfies.
\<close>

record BlockchainInfo =
  bi_chain :: string
  bi_blocks :: u64
  bi_headers :: u64
  bi_best_block_hash :: UInt256
  bi_bits :: u32
  bi_target :: UInt256

record TemplateTransaction =
  tx_data_hex :: string
  tx_txid :: UInt256
  tx_wtxid :: UInt256
  tx_depends :: "nat list"
  tx_fee :: u64
  tx_sigops :: u64
  tx_weight :: u64

record BlockTemplate =
  bt_version :: u32
  bt_rules :: "string list"
  bt_previous_block_hash :: UInt256
  bt_transactions :: "TemplateTransaction list"
  bt_coinbase_aux_flags :: string
  bt_coinbase_value :: u64
  bt_longpoll_id :: string
  bt_submit_old :: "bool option"
  bt_target :: UInt256
  bt_bits :: u32
  bt_minimum_time :: u32
  bt_current_time :: u32
  bt_height :: u64
  bt_nonce_min :: u32
  bt_nonce_max :: u32
  bt_sigop_limit :: u64
  bt_size_limit :: u64
  bt_weight_limit :: "u64 option"
  bt_witness_commitment_hex :: string

definition Fail :: "string \<Rightarrow> string \<Rightarrow> exn" where
  "Fail field reason = TemplateException (''Invalid '' @ field @ '': '' @ reason)"

section \<open>Members\<close>

definition RequireMember :: "'j json_api \<Rightarrow> 'j \<Rightarrow> string \<Rightarrow> 'j res" where
  "RequireMember J obj name = of_option (Fail name ''missing field'') (j_find J obj name)"

definition RequireString :: "'j json_api \<Rightarrow> 'j \<Rightarrow> string \<Rightarrow> string res" where
  "RequireString J obj name =
    rbind (RequireMember J obj name) (\<lambda>v.
    rbind (throw_if (\<not> j_is_string J v) (Fail name ''expected string'')) (\<lambda>_.
    ok (j_string J v)))"

definition UnsignedInteger :: "'j json_api \<Rightarrow> 'j \<Rightarrow> string \<Rightarrow> u64 res" where
  "UnsignedInteger J v field =
    (if j_is_unsigned J v then ok (j_u64 J v)
     else if j_is_integer J v then
       rbind (throw_if (sint (j_i64 J v) < 0) (Fail field ''must not be negative'')) (\<lambda>_. ok (j_i64 J v))
     else throw (Fail field ''expected integer''))"

definition RequireUnsigned :: "'j json_api \<Rightarrow> 'j \<Rightarrow> string \<Rightarrow> u64 res" where
  "RequireUnsigned J obj name = rbind (RequireMember J obj name) (\<lambda>v. UnsignedInteger J v name)"

definition SignedInteger :: "'j json_api \<Rightarrow> 'j \<Rightarrow> string \<Rightarrow> u64 res" where
  "SignedInteger J v field =
    (if j_is_unsigned J v then
       rbind (throw_if (j_u64 J v > 0x7fffffffffffffff) (Fail field ''integer out of range'')) (\<lambda>_.
       ok (j_u64 J v))
     else if j_is_integer J v then ok (j_i64 J v)
     else throw (Fail field ''expected integer''))"

definition RequireSigned :: "'j json_api \<Rightarrow> 'j \<Rightarrow> string \<Rightarrow> u64 res" where
  "RequireSigned J obj name = rbind (RequireMember J obj name) (\<lambda>v. SignedInteger J v name)"

definition RequireUint32 :: "'j json_api \<Rightarrow> 'j \<Rightarrow> string \<Rightarrow> u32 res" where
  "RequireUint32 J obj name =
    rbind (RequireUnsigned J obj name) (\<lambda>v.
    rbind (throw_if (v > 0xffffffff) (Fail name ''integer out of uint32 range'')) (\<lambda>_. ok (ucast v)))"

definition RequireInt32 :: "'j json_api \<Rightarrow> 'j \<Rightarrow> string \<Rightarrow> u32 res" where
  "RequireInt32 J obj name =
    rbind (RequireSigned J obj name) (\<lambda>v.
    rbind (throw_if (sint v < - 0x80000000 \<or> sint v > 0x7fffffff)
      (Fail name ''integer out of int32 range'')) (\<lambda>_. ok (ucast v)))"

definition IsHexDigit :: "char \<Rightarrow> bool" where
  "IsHexDigit c \<longleftrightarrow> CHR ''0'' \<le> c \<and> c \<le> CHR ''9'' \<or> CHR ''a'' \<le> c \<and> c \<le> CHR ''f'' \<or>
    CHR ''A'' \<le> c \<and> c \<le> CHR ''F''"

definition IsEvenHex :: "string \<Rightarrow> bool" where
  "IsEvenHex s \<longleftrightarrow> s \<noteq> [] \<and> length s mod 2 = 0 \<and> list_all IsHexDigit s"

definition RequireUInt256 :: "'j json_api \<Rightarrow> 'j \<Rightarrow> string \<Rightarrow> UInt256 res" where
  "RequireUInt256 J obj name =
    rbind (RequireString J obj name) (\<lambda>text.
    of_option (Fail name ''expected exactly 64 hexadecimal characters'') (FromHexBE text))"

section \<open>Rules and the witness commitment\<close>

definition ParseRules :: "'j json_api \<Rightarrow> 'j \<Rightarrow> string list res" where
  "ParseRules J obj =
    rbind (RequireMember J obj ''rules'') (\<lambda>rules.
    rbind (throw_if (\<not> j_is_array J rules) (Fail ''rules'' ''expected array'')) (\<lambda>_.
    rmap (\<lambda>v. rbind (throw_if (\<not> j_is_string J v) (Fail ''rules'' ''every rule must be a string'')) (\<lambda>_.
        ok (j_string J v)))
      (j_elems J rules)))"

definition RuleMatches :: "string \<Rightarrow> string \<Rightarrow> bool" where
  "RuleMatches candidate wanted =
    ((if candidate \<noteq> [] \<and> hd candidate = CHR ''!'' then tl candidate else candidate) = wanted)"

definition rules_match :: "string list \<Rightarrow> string \<Rightarrow> bool" where
  "rules_match rules rule = list_ex (\<lambda>candidate. RuleMatches candidate rule) rules"

definition HasTemplateRule :: "BlockTemplate \<Rightarrow> string \<Rightarrow> bool" where
  "HasTemplateRule t rule = rules_match (bt_rules t) rule"

text \<open>\<open>std::tolower\<close> in the classic locale.\<close>

definition to_lower :: "char \<Rightarrow> char" where
  "to_lower c = (if CHR ''A'' \<le> c \<and> c \<le> CHR ''Z'' then char_of ((of_char c :: nat) + 32) else c)"

definition NormalizeLower :: "string \<Rightarrow> string" where
  "NormalizeLower s = map to_lower s"

definition ValidateCommitmentHex :: "string \<Rightarrow> unit res" where
  "ValidateCommitmentHex commitment =
    rbind (throw_if (length commitment \<noteq> 76 \<or> \<not> IsEvenHex commitment)
      (Fail ''default_witness_commitment'' ''expected 38-byte hexadecimal script'')) (\<lambda>_.
    throw_if (take 12 (NormalizeLower commitment) \<noteq> ''6a24aa21a9ed'')
      (Fail ''default_witness_commitment'' ''unexpected witness commitment prefix''))"

section \<open>Transactions\<close>

definition ParseDependency :: "'j json_api \<Rightarrow> nat \<Rightarrow> 'j \<Rightarrow> nat res" where
  "ParseDependency J i dependency =
    rbind (UnsignedInteger J dependency ''transactions.depends'') (\<lambda>index.
    rbind (throw_if (index = 0 \<or> index > of_nat i)
      (Fail ''transactions.depends'' ''dependency must refer to an earlier transaction'')) (\<lambda>_.
    ok (unat index)))"

definition ParseTransaction :: "'j json_api \<Rightarrow> nat \<Rightarrow> 'j \<Rightarrow> TemplateTransaction res" where
  "ParseTransaction J i tx =
    rbind (throw_if (\<not> j_is_object J tx) (Fail ''transactions'' ''transaction entry must be object'')) (\<lambda>_.
    rbind (RequireString J tx ''data'') (\<lambda>data_hex.
    rbind (throw_if (\<not> IsEvenHex data_hex)
      (Fail ''transactions.data'' ''expected non-empty even-length hexadecimal'')) (\<lambda>_.
    rbind (RequireUInt256 J tx ''txid'') (\<lambda>txid.
    rbind (RequireUInt256 J tx ''hash'') (\<lambda>wtxid.
    rbind (RequireMember J tx ''depends'') (\<lambda>depends.
    rbind (throw_if (\<not> j_is_array J depends) (Fail ''transactions.depends'' ''expected array'')) (\<lambda>_.
    rbind (rmap (ParseDependency J i) (j_elems J depends)) (\<lambda>depends.
    rbind (RequireSigned J tx ''fee'') (\<lambda>fee.
    rbind (RequireUnsigned J tx ''sigops'') (\<lambda>sigops.
    rbind (RequireUnsigned J tx ''weight'') (\<lambda>weight.
    ok \<lparr>tx_data_hex = data_hex, tx_txid = txid, tx_wtxid = wtxid, tx_depends = depends,
        tx_fee = fee, tx_sigops = sigops, tx_weight = weight\<rparr>)))))))))))"

definition ParseTransactions :: "'j json_api \<Rightarrow> 'j \<Rightarrow> TemplateTransaction list res" where
  "ParseTransactions J obj =
    rbind (RequireMember J obj ''transactions'') (\<lambda>txs.
    rbind (throw_if (\<not> j_is_array J txs) (Fail ''transactions'' ''expected array'')) (\<lambda>_.
    rmap (\<lambda>(i, tx). ParseTransaction J i tx) (zip [0..<length (j_elems J txs)] (j_elems J txs))))"

section \<open>\<open>getblockchaininfo\<close>\<close>

definition ParseBlockchainInfo :: "'j json_api \<Rightarrow> 'j \<Rightarrow> BlockchainInfo res" where
  "ParseBlockchainInfo J v =
    rbind (throw_if (\<not> j_is_object J v)
      (TemplateException ''Invalid getblockchaininfo: expected object'')) (\<lambda>_.
    rbind (RequireString J v ''chain'') (\<lambda>chain.
    rbind (throw_if (chain = []) (Fail ''chain'' ''must not be empty'')) (\<lambda>_.
    rbind (RequireUnsigned J v ''blocks'') (\<lambda>blocks.
    rbind (RequireUnsigned J v ''headers'') (\<lambda>headers.
    rbind (RequireUInt256 J v ''bestblockhash'') (\<lambda>best_block_hash.
    rbind (RequireString J v ''bits'') (\<lambda>bits_text.
    rbind (of_option (Fail ''bits'' ''expected exactly 8 hexadecimal characters'') (ParseBitsHex bits_text)) (\<lambda>bits.
    rbind (RequireUInt256 J v ''target'') (\<lambda>target.
    rbind (of_option (Fail ''bits'' ''compact target is invalid'') (ValidTargetFromCompact bits)) (\<lambda>derived.
    rbind (throw_if (derived \<noteq> target) (Fail ''target'' ''does not agree with bits'')) (\<lambda>_.
    ok \<lparr>bi_chain = chain, bi_blocks = blocks, bi_headers = headers, bi_best_block_hash = best_block_hash,
        bi_bits = bits, bi_target = target\<rparr>)))))))))))"

section \<open>\<open>getblocktemplate\<close>\<close>

text \<open>The function of the source, cut at the fields of the result; the order of the checks is kept.\<close>

definition ParseCoinbaseAux :: "'j json_api \<Rightarrow> 'j \<Rightarrow> string res" where
  "ParseCoinbaseAux J v =
    rbind (RequireMember J v ''coinbaseaux'') (\<lambda>coinbase_aux.
    rbind (throw_if (\<not> j_is_object J coinbase_aux) (Fail ''coinbaseaux'' ''expected object'')) (\<lambda>_.
    case j_find J coinbase_aux ''flags'' of
      None \<Rightarrow> ok []
    | Some flags \<Rightarrow>
        rbind (throw_if (\<not> j_is_string J flags) (Fail ''coinbaseaux.flags'' ''expected hexadecimal string'')) (\<lambda>_.
        rbind (throw_if (j_string J flags \<noteq> [] \<and> \<not> IsEvenHex (j_string J flags))
          (Fail ''coinbaseaux.flags'' ''expected even-length hexadecimal'')) (\<lambda>_.
        ok (j_string J flags)))))"

definition ParseSubmitOld :: "'j json_api \<Rightarrow> 'j \<Rightarrow> bool option res" where
  "ParseSubmitOld J v =
    (case j_find J v ''submitold'' of
      None \<Rightarrow> ok None
    | Some b \<Rightarrow>
        rbind (throw_if (\<not> j_is_boolean J b) (Fail ''submitold'' ''expected boolean'')) (\<lambda>_.
        ok (Some (j_bool J b))))"

definition ParseTemplateTarget :: "'j json_api \<Rightarrow> 'j \<Rightarrow> (u32 \<times> UInt256) res" where
  "ParseTemplateTarget J v =
    rbind (RequireString J v ''bits'') (\<lambda>bits_text.
    rbind (of_option (Fail ''bits'' ''expected exactly 8 hexadecimal characters'') (ParseBitsHex bits_text)) (\<lambda>bits.
    rbind (of_option (Fail ''bits'' ''compact target is invalid'') (ValidTargetFromCompact bits)) (\<lambda>derived.
    rbind (RequireUInt256 J v ''target'') (\<lambda>target.
    rbind (throw_if (derived \<noteq> target) (Fail ''target'' ''does not agree with bits'')) (\<lambda>_.
    ok (bits, target))))))"

definition ParseTemplateTimes :: "'j json_api \<Rightarrow> 'j \<Rightarrow> (u32 \<times> u32) res" where
  "ParseTemplateTimes J v =
    rbind (RequireUint32 J v ''mintime'') (\<lambda>minimum_time.
    rbind (RequireUint32 J v ''curtime'') (\<lambda>current_time.
    rbind (throw_if (current_time < minimum_time)
      (Fail ''curtime'' ''must be greater than or equal to mintime'')) (\<lambda>_.
    ok (minimum_time, current_time))))"

definition ParseNonceRange :: "'j json_api \<Rightarrow> 'j \<Rightarrow> (u32 \<times> u32) res" where
  "ParseNonceRange J v =
    rbind (RequireString J v ''noncerange'') (\<lambda>nonce_range.
    rbind (throw_if (length nonce_range \<noteq> 16 \<or> \<not> IsEvenHex nonce_range)
      (Fail ''noncerange'' ''expected exactly 16 hexadecimal characters'')) (\<lambda>_.
    let nonce_min = ParseBitsHex (take 8 nonce_range);
        nonce_max = ParseBitsHex (take 8 (drop 8 nonce_range))
    in rbind (throw_if (nonce_min = None \<or> nonce_max = None) (Fail ''noncerange'' ''invalid hexadecimal range'')) (\<lambda>_.
    rbind (throw_if (the nonce_min > the nonce_max) (Fail ''noncerange'' ''minimum exceeds maximum'')) (\<lambda>_.
    ok (the nonce_min, the nonce_max)))))"

definition ParseWeightLimit :: "'j json_api \<Rightarrow> 'j \<Rightarrow> u64 option res" where
  "ParseWeightLimit J v =
    (case j_find J v ''weightlimit'' of
      None \<Rightarrow> ok None
    | Some w \<Rightarrow>
        rbind (UnsignedInteger J w ''weightlimit'') (\<lambda>weight_limit.
        rbind (throw_if (weight_limit = 0) (Fail ''weightlimit'' ''must be greater than zero'')) (\<lambda>_.
        ok (Some weight_limit))))"

definition ParseBlockTemplate :: "'j json_api \<Rightarrow> 'j \<Rightarrow> BlockTemplate res" where
  "ParseBlockTemplate J v =
    rbind (throw_if (\<not> j_is_object J v)
      (TemplateException ''Invalid getblocktemplate: expected object'')) (\<lambda>_.
    rbind (RequireInt32 J v ''version'') (\<lambda>version.
    rbind (ParseRules J v) (\<lambda>rules.
    rbind (throw_if (\<not> rules_match rules ''segwit'') (Fail ''rules'' ''segwit rule is required'')) (\<lambda>_.
    rbind (RequireUInt256 J v ''previousblockhash'') (\<lambda>previous_block_hash.
    rbind (ParseTransactions J v) (\<lambda>transactions.
    rbind (ParseCoinbaseAux J v) (\<lambda>coinbase_aux_flags.
    rbind (RequireUnsigned J v ''coinbasevalue'') (\<lambda>coinbase_value.
    rbind (RequireString J v ''longpollid'') (\<lambda>longpoll_id.
    rbind (throw_if (longpoll_id = []) (Fail ''longpollid'' ''must not be empty'')) (\<lambda>_.
    rbind (ParseSubmitOld J v) (\<lambda>submit_old.
    rbind (ParseTemplateTarget J v) (\<lambda>(bits, target).
    rbind (ParseTemplateTimes J v) (\<lambda>(minimum_time, current_time).
    rbind (RequireUnsigned J v ''height'') (\<lambda>height.
    rbind (throw_if (height = 0) (Fail ''height'' ''must be greater than zero'')) (\<lambda>_.
    rbind (ParseNonceRange J v) (\<lambda>(nonce_min, nonce_max).
    rbind (RequireUnsigned J v ''sigoplimit'') (\<lambda>sigop_limit.
    rbind (RequireUnsigned J v ''sizelimit'') (\<lambda>size_limit.
    rbind (throw_if (size_limit = 0) (Fail ''sizelimit'' ''must be greater than zero'')) (\<lambda>_.
    rbind (ParseWeightLimit J v) (\<lambda>weight_limit.
    rbind (RequireString J v ''default_witness_commitment'') (\<lambda>witness_commitment_hex.
    rbind (ValidateCommitmentHex witness_commitment_hex) (\<lambda>_.
    ok \<lparr>bt_version = version, bt_rules = rules, bt_previous_block_hash = previous_block_hash,
        bt_transactions = transactions, bt_coinbase_aux_flags = coinbase_aux_flags,
        bt_coinbase_value = coinbase_value, bt_longpoll_id = longpoll_id, bt_submit_old = submit_old,
        bt_target = target, bt_bits = bits, bt_minimum_time = minimum_time,
        bt_current_time = current_time, bt_height = height, bt_nonce_min = nonce_min,
        bt_nonce_max = nonce_max, bt_sigop_limit = sigop_limit, bt_size_limit = size_limit,
        bt_weight_limit = weight_limit,
        bt_witness_commitment_hex = witness_commitment_hex\<rparr>))))))))))))))))))))))"

section \<open>What a parsed template satisfies\<close>

text \<open>Decodable hexadecimal, as the block builder needs it.\<close>

lemma IsHexDigit_iff: "IsHexDigit c \<longleftrightarrow> 0 \<le> HexDigit c"
proof -
  have "(of_char c :: int) = int (of_char c)" by (simp add: of_char_def)
  then show ?thesis
    by (auto simp: IsHexDigit_def HexDigit_def less_eq_char_def simp del: of_nat_of_char)
qed

lemma hex_decode_total: "even (length s) \<Longrightarrow> list_all IsHexDigit s \<Longrightarrow> \<exists>bs. hex_decode s = Some bs"
  by (induction s rule: hex_decode.induct) (auto simp: IsHexDigit_iff)

lemma IsEvenHex_decode: "IsEvenHex s \<Longrightarrow> \<exists>bs. hex_decode s = Some bs \<and> bs \<noteq> []"
  using hex_decode_total [of s] hex_decode_length [of s]
  by (fastforce simp: IsEvenHex_def even_iff_mod_2_eq_zero)

definition valid_transaction :: "nat \<Rightarrow> TemplateTransaction \<Rightarrow> bool" where
  "valid_transaction i tx \<longleftrightarrow> (\<exists>bs. hex_decode (tx_data_hex tx) = Some bs \<and> bs \<noteq> []) \<and>
    (\<forall>d \<in> set (tx_depends tx). 0 < d \<and> d \<le> i)"

definition valid_template :: "BlockTemplate \<Rightarrow> bool" where
  "valid_template t \<longleftrightarrow>
    HasTemplateRule t ''segwit'' \<and>
    (\<forall>i < length (bt_transactions t). valid_transaction i (bt_transactions t ! i)) \<and>
    (\<exists>bs. hex_decode (bt_coinbase_aux_flags t) = Some bs) \<and>
    bt_longpoll_id t \<noteq> [] \<and>
    value_of (bt_target t) = compact_value (bt_bits t) \<and> 0 < value_of (bt_target t) \<and>
    bt_minimum_time t \<le> bt_current_time t \<and>
    0 < bt_height t \<and> bt_nonce_min t \<le> bt_nonce_max t \<and> 0 < bt_size_limit t \<and>
    bt_weight_limit t \<noteq> Some 0 \<and>
    (\<exists>bs. hex_decode (bt_witness_commitment_hex t) = Some bs \<and> length bs = 38 \<and>
      take 6 bs = [0x6a, 0x24, 0xaa, 0x21, 0xa9, 0xed])"

lemma HexDigit_nat: "HexDigit c = (let n = (of_char c :: nat) in
    if 48 \<le> n \<and> n \<le> 57 then int n - 48 else if 97 \<le> n \<and> n \<le> 102 then int n - 87
    else if 65 \<le> n \<and> n \<le> 70 then int n - 55 else - 1)"
proof -
  have "(of_char c :: int) = int (of_char c)" by (simp add: of_char_def)
  then show ?thesis by (simp add: HexDigit_def less_eq_char_def Let_def del: of_nat_of_char)
qed

lemma of_char_to_lower: "(of_char (to_lower c) :: nat) =
    (if 65 \<le> (of_char c :: nat) \<and> (of_char c :: nat) \<le> 90 then of_char c + 32 else of_char c)"
  by (simp add: to_lower_def less_eq_char_def of_char_of)

lemma HexDigit_to_lower [simp]: "HexDigit (to_lower c) = HexDigit c"
  by (simp add: HexDigit_nat of_char_to_lower Let_def)

lemma hex_decode_lower: "hex_decode (NormalizeLower s) = hex_decode s"
  unfolding NormalizeLower_def by (induction s rule: hex_decode.induct) simp_all

lemma ValidateCommitmentHex_decode:
  assumes "ValidateCommitmentHex s = Inr u"
  shows "\<exists>bs. hex_decode s = Some bs \<and> length bs = 38 \<and> take 6 bs = [0x6a, 0x24, 0xaa, 0x21, 0xa9, 0xed]"
proof -
  have s: "length s = 76" "IsEvenHex s" and pre: "take 12 (NormalizeLower s) = ''6a24aa21a9ed''"
    using assms by (auto simp: ValidateCommitmentHex_def rbind_Inr_iff)
  obtain bs where bs: "hex_decode s = Some bs" using IsEvenHex_decode [OF s(2)] by blast
  have l: "length bs = 38" using hex_decode_length [OF bs] s(1) by simp
  have "NormalizeLower s = ''6a24aa21a9ed'' @ drop 12 (NormalizeLower s)"
    using pre by (metis append_take_drop_id)
  then have "hex_decode s = hex_decode (''6a24aa21a9ed'' @ drop 12 (NormalizeLower s))"
    using hex_decode_lower [of s] by metis
  moreover have lit: "hex_decode ''6a24aa21a9ed'' = Some [0x6a, 0x24, 0xaa, 0x21, 0xa9, 0xed]"
    by code_simp
  ultimately have "Some bs = map_option ((@) [0x6a, 0x24, 0xaa, 0x21, 0xa9, 0xed])
      (hex_decode (drop 12 (NormalizeLower s)))"
    unfolding bs hex_decode_append [OF lit] by iprover
  then show ?thesis using bs l by (cases "hex_decode (drop 12 (NormalizeLower s))") simp_all
qed

lemmas parse_simps = rbind_Inr_iff throw_if_simps throw_ok_simps of_option_simps

lemma ParseDependency_range:
  "ParseDependency J i d = Inr k \<Longrightarrow> i < 2 ^ 64 \<Longrightarrow> 0 < k \<and> k \<le> i"
proof -
  assume "ParseDependency J i d = Inr k" and i: "i < 2 ^ 64"
  then obtain index :: u64 where "index \<noteq> 0" "\<not> of_nat i < index" "k = unat index"
    by (auto simp: ParseDependency_def parse_simps)
  then show ?thesis using i by (simp add: word_less_nat_alt unat_of_nat_small unat_gt_0)
qed

lemma ParseTransaction_checks:
  "ParseTransaction J i v = Inr tx \<Longrightarrow>
    \<exists>d. rmap (ParseDependency J i) (j_elems J d) = Inr (tx_depends tx) \<and> IsEvenHex (tx_data_hex tx)"
  apply (simp only: ParseTransaction_def parse_simps not_not sum.inject)
  apply (elim exE conjE)
  apply hypsubst
  apply (rule exI, rule conjI; simp only: TemplateTransaction.select_convs)
  done

lemma ParseTransaction_valid:
  assumes "ParseTransaction J i v = Inr tx" "i < 2 ^ 64"
  shows "valid_transaction i tx"
proof -
  obtain depends where d: "rmap (ParseDependency J i) (j_elems J depends) = Inr (tx_depends tx)"
    and h: "IsEvenHex (tx_data_hex tx)"
    using ParseTransaction_checks [OF assms(1)] by blast
  have "0 < k \<and> k \<le> i" if k: "k \<in> set (tx_depends tx)" for k
  proof -
    obtain v where "ParseDependency J i v = Inr k" using rmap_Inr_set [OF d k] by (rule exE)
    then show ?thesis by (rule ParseDependency_range) (rule assms(2))
  qed
  then show ?thesis
    unfolding valid_transaction_def using IsEvenHex_decode [OF h] by blast
qed

lemma ParseTransactions_valid:
  assumes "ParseTransactions J v = Inr txs" "i < length txs" "length txs < 2 ^ 64"
  shows "valid_transaction i (txs ! i)"
proof -
  obtain a where "rmap (\<lambda>(i, tx). ParseTransaction J i tx)
      (zip [0..<length (j_elems J a)] (j_elems J a)) = Inr txs"
    using assms(1) by (auto simp: ParseTransactions_def parse_simps)
  then have r: "list_all2 (\<lambda>(i, tx) y. ParseTransaction J i tx = Inr y)
      (zip [0..<length (j_elems J a)] (j_elems J a)) txs"
    unfolding rmap_Inr_iff by (rule list_all2_mono) auto
  then have "length txs = length (j_elems J a)" by (simp add: list_all2_lengthD [symmetric])
  then have "ParseTransaction J i (j_elems J a ! i) = Inr (txs ! i)"
    using list_all2_nthD2 [OF r assms(2)] assms(2) by simp
  then show ?thesis by (rule ParseTransaction_valid) (use assms in simp)
qed

lemma ParseCoinbaseAux_hex: "ParseCoinbaseAux J v = Inr flags \<Longrightarrow> \<exists>bs. hex_decode flags = Some bs"
  using IsEvenHex_decode [of flags] by (cases "flags = []")
    (auto simp: ParseCoinbaseAux_def parse_simps split: option.splits)

lemma ParseTemplateTarget_valid:
  "ParseTemplateTarget J v = Inr (b, t) \<Longrightarrow> value_of t = compact_value b \<and> 0 < value_of t"
  by (auto simp: ParseTemplateTarget_def parse_simps ValidTargetFromCompact_iff)

lemma ParseTemplateTimes_valid: "ParseTemplateTimes J v = Inr (lo, hi) \<Longrightarrow> lo \<le> hi"
  by (auto simp: ParseTemplateTimes_def parse_simps not_less)

lemma ParseNonceRange_valid: "ParseNonceRange J v = Inr (lo, hi) \<Longrightarrow> lo \<le> hi"
  by (auto simp: ParseNonceRange_def parse_simps Let_def not_less)

lemma ParseWeightLimit_valid: "ParseWeightLimit J v = Inr w \<Longrightarrow> w \<noteq> Some 0"
  by (auto simp: ParseWeightLimit_def parse_simps split: option.splits)

lemma ParseBlockTemplate_nonces:
  assumes "ParseBlockTemplate J w = Inr t"
  shows "bt_nonce_min t \<le> bt_nonce_max t"
proof -
  have "ParseNonceRange J w = Inr (bt_nonce_min t, bt_nonce_max t)"
    using assms unfolding ParseBlockTemplate_def rbind_Inr_iff case_prod_beta
    by (elim exE conjE) (metis (no_types, lifting) BlockTemplate.select_convs Inr_inject ok_def prod.collapse)
  then show ?thesis by (rule ParseNonceRange_valid)
qed

lemma ParseBlockTemplate_valid:
  assumes "ParseBlockTemplate J v = Inr t" "length (bt_transactions t) < 2 ^ 64"
  shows "valid_template t"
proof -
  have tx: "ParseTransactions J v = Inr (bt_transactions t)"
    and aux: "ParseCoinbaseAux J v = Inr (bt_coinbase_aux_flags t)"
    and target: "ParseTemplateTarget J v = Inr (bt_bits t, bt_target t)"
    and times: "ParseTemplateTimes J v = Inr (bt_minimum_time t, bt_current_time t)"
    and nonces: "ParseNonceRange J v = Inr (bt_nonce_min t, bt_nonce_max t)"
    and weight: "ParseWeightLimit J v = Inr (bt_weight_limit t)"
    and commitment: "ValidateCommitmentHex (bt_witness_commitment_hex t) = Inr ()"
    and rest: "HasTemplateRule t ''segwit''" "bt_longpoll_id t \<noteq> []" "bt_height t \<noteq> 0" "bt_size_limit t \<noteq> 0"
    using assms(1) by (auto simp: ParseBlockTemplate_def parse_simps HasTemplateRule_def)
  show ?thesis
    unfolding valid_template_def
    using ParseTransactions_valid [OF tx _ assms(2)] ParseCoinbaseAux_hex [OF aux]
      ParseTemplateTarget_valid [OF target] ParseTemplateTimes_valid [OF times]
      ParseNonceRange_valid [OF nonces] ParseWeightLimit_valid [OF weight]
      ValidateCommitmentHex_decode [OF commitment] rest
    by (simp add: word_neq_0_conv)
qed

text \<open>The parsers throw nothing but \<open>TemplateException\<close>.\<close>

definition template_error :: "'a res \<Rightarrow> bool" where
  "template_error m \<longleftrightarrow> (\<forall>e. m = Inl e \<longrightarrow> (\<exists>msg. e = TemplateException msg))"

lemma template_error_intros [intro, simp]:
  "template_error (Inr x)" "template_error (ok x)" "template_error (throw (Fail f r))"
  "template_error (throw_if c (Fail f r))" "template_error (throw_if c (TemplateException m))"
  "template_error (of_option (Fail f r) opt)"
  by (auto simp: template_error_def Fail_def of_option_def throw_if_def split: option.splits)

lemma template_error_rbind [intro]:
  "template_error m \<Longrightarrow> (\<And>x. template_error (f x)) \<Longrightarrow> template_error (rbind m f)"
  by (cases m) (auto simp: template_error_def)

lemma template_error_rmap [intro]: "(\<And>x. template_error (f x)) \<Longrightarrow> template_error (rmap f xs)"
  by (induction xs) (auto simp del: throw_ok_simps)

lemma template_error_case [intro]:
  "(\<And>x. template_error (f x)) \<Longrightarrow> template_error g \<Longrightarrow> template_error (case opt of None \<Rightarrow> g | Some x \<Rightarrow> f x)"
  "(\<And>x y. template_error (h x y)) \<Longrightarrow> template_error (case p of (x, y) \<Rightarrow> h x y)"
  "template_error a \<Longrightarrow> template_error b \<Longrightarrow> template_error (if c then a else b)"
  by (auto split: option.splits prod.splits)

lemmas template_error_rules = template_error_intros template_error_rbind template_error_rmap template_error_case

lemma member_errors [intro, simp]:
  "template_error (RequireMember J v f)" "template_error (RequireString J v f)"
  "template_error (UnsignedInteger J v f)" "template_error (RequireUnsigned J v f)"
  "template_error (SignedInteger J v f)" "template_error (RequireSigned J v f)"
  "template_error (RequireUint32 J v f)" "template_error (RequireInt32 J v f)"
  "template_error (RequireUInt256 J v f)"
  by (simp_all only: RequireMember_def RequireString_def UnsignedInteger_def RequireUnsigned_def
      SignedInteger_def RequireSigned_def RequireUint32_def RequireInt32_def RequireUInt256_def)
    (intro template_error_rules)+

lemma part_errors [intro, simp]:
  "template_error (ParseRules J v)" "template_error (ParseDependency J i v)"
  "template_error (ParseCoinbaseAux J v)" "template_error (ParseSubmitOld J v)"
  "template_error (ParseTemplateTarget J v)" "template_error (ParseTemplateTimes J v)"
  "template_error (ParseNonceRange J v)" "template_error (ParseWeightLimit J v)"
  "template_error (ValidateCommitmentHex s)"
  by (simp_all only: ParseRules_def ParseDependency_def ParseCoinbaseAux_def ParseSubmitOld_def
      ParseTemplateTarget_def ParseTemplateTimes_def ParseNonceRange_def ParseWeightLimit_def
      ValidateCommitmentHex_def Let_def)
    (intro template_error_rules member_errors)+

lemma ParseTransaction_error [intro, simp]: "template_error (ParseTransaction J i v)"
  unfolding ParseTransaction_def by (intro template_error_rules member_errors part_errors)

lemma ParseTransactions_error [intro, simp]: "template_error (ParseTransactions J v)"
  unfolding ParseTransactions_def by (intro template_error_rules member_errors ParseTransaction_error)

lemma parser_errors:
  "template_error (ParseBlockTemplate J v)" "template_error (ParseBlockchainInfo J v)"
  unfolding ParseBlockTemplate_def ParseBlockchainInfo_def
  by (intro template_error_rules member_errors part_errors ParseTransactions_error)+

section \<open>A template that parses\<close>

definition sample_template :: json where
  "sample_template = JObject
    [(''version'', JUnsigned 0x20000000), (''rules'', JArray [JString ''!segwit'']),
     (''previousblockhash'', JString (replicate 64 CHR ''0'')),
     (''transactions'', JArray [JObject [(''data'', JString ''00''), (''txid'', JString (replicate 64 CHR ''1'')),
        (''hash'', JString (replicate 64 CHR ''1'')), (''depends'', JArray []), (''fee'', JUnsigned 0),
        (''sigops'', JUnsigned 0), (''weight'', JUnsigned 4)]]),
     (''coinbaseaux'', JObject []), (''coinbasevalue'', JUnsigned 5000000000), (''longpollid'', JString ''tip1''),
     (''bits'', JString ''03000001''), (''target'', JString (replicate 63 CHR ''0'' @ ''1'')),
     (''mintime'', JUnsigned 1), (''curtime'', JUnsigned 2), (''height'', JUnsigned 1),
     (''noncerange'', JString ''00000000ffffffff''), (''sigoplimit'', JUnsigned 80000),
     (''sizelimit'', JUnsigned 4000000),
     (''default_witness_commitment'', JString (''6a24aa21a9ed'' @ replicate 64 CHR ''0''))]"


definition sample_json :: "json json_api" where
  "sample_json = documents (\<lambda>_. Inl []) (\<lambda>_. Inr [])"

lemma RequireUInt256_hex:
  "RequireString J v f = Inr s \<Longrightarrow> length s = 64 \<Longrightarrow> hex_decode s = Some bs \<Longrightarrow>
    RequireUInt256 J v f = Inr (UInt256 (rev bs))"
  by (simp add: RequireUInt256_def FromHexBE_decode)

lemma sample_target: "ParseTemplateTarget sample_json sample_template = Inr (0x03000001, UInt256 (1 # replicate 31 0))"
proof -
  have s: "RequireString sample_json sample_template ''bits'' = Inr ''03000001''"
    "ParseBitsHex ''03000001'' = Some 0x03000001" by code_simp+
  have t: "RequireString sample_json sample_template ''target'' = Inr (replicate 63 CHR ''0'' @ ''1'')"
    "hex_decode (replicate 63 CHR ''0'' @ ''1'') = Some (replicate 31 0 @ [1])" by code_simp+
  have "value_of (UInt256 (1 # replicate 31 0)) = compact_value 0x03000001"
    by (simp add: value_of_def compact_value_def compact_size_def compact_mantissa_def Let_def)
  then have "ValidTargetFromCompact 0x03000001 = Some (UInt256 (1 # replicate 31 0))"
    unfolding ValidTargetFromCompact_iff
    by (auto simp: compact_value_def compact_size_def compact_mantissa_def Let_def bit_iff_odd)
  then show ?thesis using RequireUInt256_hex [OF t(1) _ t(2)] by (simp add: ParseTemplateTarget_def s)
qed

lemma sample_transactions: "\<exists>u. ParseTransactions sample_json sample_template =
      Inr [\<lparr>tx_data_hex = ''00'', tx_txid = u, tx_wtxid = u, tx_depends = [], tx_fee = 0, tx_sigops = 0, tx_weight = 4\<rparr>]"
proof -
  let ?tx = "JObject [(''data'', JString ''00''), (''txid'', JString (replicate 64 CHR ''1'')),
        (''hash'', JString (replicate 64 CHR ''1'')), (''depends'', JArray []), (''fee'', JUnsigned 0),
        (''sigops'', JUnsigned 0), (''weight'', JUnsigned 4)]"
  have a: "RequireMember sample_json sample_template ''transactions'' = Inr (JArray [?tx])"
     "j_elems sample_json (JArray [?tx]) = [?tx]" "j_is_array sample_json (JArray [?tx])"
    "j_is_object sample_json ?tx" by code_simp+
  have t: "RequireString sample_json ?tx ''txid'' = Inr (replicate 64 CHR ''1'')"
    "RequireString sample_json ?tx ''hash'' = Inr (replicate 64 CHR ''1'')"
    "RequireString sample_json ?tx ''data'' = Inr ''00''"
    "IsEvenHex ''00''" "RequireMember sample_json ?tx ''depends'' = Inr (JArray [])"
    "j_is_array sample_json (JArray [])" "j_elems sample_json (JArray []) = []"
    "RequireSigned sample_json ?tx ''fee'' = Inr 0"
    "RequireUnsigned sample_json ?tx ''sigops'' = Inr 0"
    "RequireUnsigned sample_json ?tx ''weight'' = Inr 4" by code_simp+
  have h: "hex_decode (replicate 64 CHR ''1'') = Some (replicate 32 0x11)" by code_simp
  have "ParseTransaction sample_json 0 ?tx = Inr \<lparr>tx_data_hex = ''00'', tx_txid = UInt256 (replicate 32 0x11), tx_wtxid = UInt256 (replicate 32 0x11), tx_depends = [], tx_fee = 0, tx_sigops = 0, tx_weight = 4\<rparr>"
    unfolding ParseTransaction_def using RequireUInt256_hex [OF t(1) _ h] RequireUInt256_hex [OF t(2) _ h]
    by (simp add: a t)
  then have "ParseTransactions sample_json sample_template =
      Inr [\<lparr>tx_data_hex = ''00'', tx_txid = UInt256 (replicate 32 0x11), tx_wtxid = UInt256 (replicate 32 0x11), tx_depends = [], tx_fee = 0, tx_sigops = 0, tx_weight = 4\<rparr>]"
    unfolding ParseTransactions_def by (simp add: a)
  then show ?thesis by blast
qed

lemma sample_parses: "\<exists>t. ParseBlockTemplate sample_json sample_template = Inr t \<and> length (bt_transactions t) = 1"
proof -
  have p: "j_is_object sample_json sample_template"
    "RequireInt32 sample_json sample_template ''version'' = Inr 0x20000000"
    "ParseRules sample_json sample_template = Inr [''!segwit'']"
    "rules_match [''!segwit''] ''segwit''"
    "ParseCoinbaseAux sample_json sample_template = Inr []"
    "RequireUnsigned sample_json sample_template ''coinbasevalue'' = Inr 5000000000"
    "RequireString sample_json sample_template ''longpollid'' = Inr ''tip1''"
    "ParseSubmitOld sample_json sample_template = Inr None"
    "ParseTemplateTimes sample_json sample_template = Inr (1, 2)"
    "RequireUnsigned sample_json sample_template ''height'' = Inr 1"
    "ParseNonceRange sample_json sample_template = Inr (0, 0xffffffff)"
    "RequireUnsigned sample_json sample_template ''sigoplimit'' = Inr 80000"
    "RequireUnsigned sample_json sample_template ''sizelimit'' = Inr 4000000"
    "ParseWeightLimit sample_json sample_template = Inr None"
    by code_simp+
  have c: "RequireString sample_json sample_template ''default_witness_commitment'' = Inr (''6a24aa21a9ed'' @ replicate 64 CHR ''0'')"
    "ValidateCommitmentHex (''6a24aa21a9ed'' @ replicate 64 CHR ''0'') = Inr ()" by code_simp+
  define cm where "cm = ''6a24aa21a9ed'' @ replicate 64 CHR ''0''"
  note c = c [folded cm_def]
  have h: "RequireString sample_json sample_template ''previousblockhash'' = Inr (replicate 64 CHR ''0'')"
    "hex_decode (replicate 64 CHR ''0'') = Some (replicate 32 0)" by code_simp+
  obtain u where u: "ParseTransactions sample_json sample_template =
      Inr [\<lparr>tx_data_hex = ''00'', tx_txid = u, tx_wtxid = u, tx_depends = [], tx_fee = 0, tx_sigops = 0, tx_weight = 4\<rparr>]"
    using sample_transactions by blast
  show ?thesis using RequireUInt256_hex [OF h(1) _ h(2)]
    unfolding ParseBlockTemplate_def by (simp add: p c u sample_target)
qed

section \<open>Properties\<close>

text \<open>C12: A template that the parser accepts is one the miner can work on: it signals segwit, every
  transaction is decodable hexadecimal and depends on earlier transactions only, the target is the
  positive number its bits denote, the times and the nonce range are ordered, height and limits are
  positive and the witness commitment is a 38-byte script with the right prefix.\<close>

theorem ParseBlockTemplate_accepts_valid:
  assumes "ParseBlockTemplate J v = Inr t" "length (bt_transactions t) < 2 ^ 64"
  shows "valid_template t"
  using assms by (rule ParseBlockTemplate_valid)

theorem ParseBlockTemplate_accepts_valid_witness:
  "\<exists>t. ParseBlockTemplate sample_json sample_template = Inr t \<and> valid_template t"
  using sample_parses ParseBlockTemplate_accepts_valid [of sample_json sample_template] by force

text \<open>Whatever the JSON value, with fields missing, of the wrong type or out of range, the two
  parsers return a result or throw a \<open>TemplateException\<close>; no other exception escapes.\<close>

theorem parsers_throw_TemplateException:
  "template_error (ParseBlockTemplate J v) \<and> template_error (ParseBlockchainInfo J v)"
  by (intro conjI parser_errors)

end
