(* ===== verification/Sha256.thy ===== *)
theory Sha256
  imports Absorb UInt256
begin

text \<open>
  \<open>src/crypto/sha256.cpp\<close> and \<open>src/hash256.cpp\<close>: the unrolled compression function, the
  buffering class \<open>CSHA256\<close>, \<open>Sha256\<close> and \<open>DoubleSha256\<close>. The compression function is
  proved equal to the schedule-and-loop definition of FIPS 180-4, the class to padding the whole
  message and compressing it block by block. The build disables the vector
  implementations, so \<open>Transform\<close> is the portable one.
\<close>

section \<open>The compression function\<close>

definition Ch :: "u32 \<Rightarrow> u32 \<Rightarrow> u32 \<Rightarrow> u32" where
  "Ch x y z = z XOR (x AND (y XOR z))"

definition Maj :: "u32 \<Rightarrow> u32 \<Rightarrow> u32 \<Rightarrow> u32" where
  "Maj x y z = (x AND y) OR (z AND (x OR y))"

definition Sigma0 :: "u32 \<Rightarrow> u32" where
  "Sigma0 x = (drop_bit 2 x OR push_bit 30 x) XOR (drop_bit 13 x OR push_bit 19 x)
    XOR (drop_bit 22 x OR push_bit 10 x)"

definition Sigma1 :: "u32 \<Rightarrow> u32" where
  "Sigma1 x = (drop_bit 6 x OR push_bit 26 x) XOR (drop_bit 11 x OR push_bit 21 x)
    XOR (drop_bit 25 x OR push_bit 7 x)"

definition sigma0 :: "u32 \<Rightarrow> u32" where
  "sigma0 x = (drop_bit 7 x OR push_bit 25 x) XOR (drop_bit 18 x OR push_bit 14 x) XOR drop_bit 3 x"

definition sigma1 :: "u32 \<Rightarrow> u32" where
  "sigma1 x = (drop_bit 17 x OR push_bit 15 x) XOR (drop_bit 19 x OR push_bit 13 x) XOR drop_bit 10 x"

text \<open>\<open>Round\<close> assigns its reference arguments \<open>d\<close> and \<open>h\<close>; here it returns them.\<close>

definition Round :: "u32 \<Rightarrow> u32 \<Rightarrow> u32 \<Rightarrow> u32 \<Rightarrow> u32 \<Rightarrow> u32 \<Rightarrow> u32 \<Rightarrow> u32 \<Rightarrow> u32 \<Rightarrow> u32 \<times> u32" where
  "Round a b c d e f g h k =
    (let t1 = h + Sigma1 e + Ch e f g + k;
         t2 = Sigma0 a + Maj a b c
     in (d + t1, t1 + t2))"

definition Initialize :: "u32 list" where
  "Initialize = [0x6a09e667, 0xbb67ae85, 0x3c6ef372, 0xa54ff53a, 0x510e527f, 0x9b05688c,
    0x1f83d9ab, 0x5be0cd19]"

text \<open>The body of the loop over blocks, unrolled as in the source.\<close>

definition Transform_block :: "u32 list \<Rightarrow> bytes \<Rightarrow> u32 list" where
  "Transform_block s chunk =
    (let a = s ! 0; b = s ! 1; c = s ! 2; d = s ! 3; e = s ! 4; f = s ! 5; g = s ! 6; h = s ! 7;
         w0 = ReadBE32 chunk 0; (d, h) = Round a b c d e f g h (0x428a2f98 + w0);
         w1 = ReadBE32 chunk 4; (c, g) = Round h a b c d e f g (0x71374491 + w1);
         w2 = ReadBE32 chunk 8; (b, f) = Round g h a b c d e f (0xb5c0fbcf + w2);
         w3 = ReadBE32 chunk 12; (a, e) = Round f g h a b c d e (0xe9b5dba5 + w3);
         w4 = ReadBE32 chunk 16; (h, d) = Round e f g h a b c d (0x3956c25b + w4);
         w5 = ReadBE32 chunk 20; (g, c) = Round d e f g h a b c (0x59f111f1 + w5);
         w6 = ReadBE32 chunk 24; (f, b) = Round c d e f g h a b (0x923f82a4 + w6);
         w7 = ReadBE32 chunk 28; (e, a) = Round b c d e f g h a (0xab1c5ed5 + w7);
         w8 = ReadBE32 chunk 32; (d, h) = Round a b c d e f g h (0xd807aa98 + w8);
         w9 = ReadBE32 chunk 36; (c, g) = Round h a b c d e f g (0x12835b01 + w9);
         w10 = ReadBE32 chunk 40; (b, f) = Round g h a b c d e f (0x243185be + w10);
         w11 = ReadBE32 chunk 44; (a, e) = Round f g h a b c d e (0x550c7dc3 + w11);
         w12 = ReadBE32 chunk 48; (h, d) = Round e f g h a b c d (0x72be5d74 + w12);
         w13 = ReadBE32 chunk 52; (g, c) = Round d e f g h a b c (0x80deb1fe + w13);
         w14 = ReadBE32 chunk 56; (f, b) = Round c d e f g h a b (0x9bdc06a7 + w14);
         w15 = ReadBE32 chunk 60; (e, a) = Round b c d e f g h a (0xc19bf174 + w15);
         w0 = w0 + (sigma1 w14 + w9 + sigma0 w1); (d, h) = Round a b c d e f g h (0xe49b69c1 + w0);
         w1 = w1 + (sigma1 w15 + w10 + sigma0 w2); (c, g) = Round h a b c d e f g (0xefbe4786 + w1);
         w2 = w2 + (sigma1 w0 + w11 + sigma0 w3); (b, f) = Round g h a b c d e f (0x0fc19dc6 + w2);
         w3 = w3 + (sigma1 w1 + w12 + sigma0 w4); (a, e) = Round f g h a b c d e (0x240ca1cc + w3);
         w4 = w4 + (sigma1 w2 + w13 + sigma0 w5); (h, d) = Round e f g h a b c d (0x2de92c6f + w4);
         w5 = w5 + (sigma1 w3 + w14 + sigma0 w6); (g, c) = Round d e f g h a b c (0x4a7484aa + w5);
         w6 = w6 + (sigma1 w4 + w15 + sigma0 w7); (f, b) = Round c d e f g h a b (0x5cb0a9dc + w6);
         w7 = w7 + (sigma1 w5 + w0 + sigma0 w8); (e, a) = Round b c d e f g h a (0x76f988da + w7);
         w8 = w8 + (sigma1 w6 + w1 + sigma0 w9); (d, h) = Round a b c d e f g h (0x983e5152 + w8);
         w9 = w9 + (sigma1 w7 + w2 + sigma0 w10); (c, g) = Round h a b c d e f g (0xa831c66d + w9);
         w10 = w10 + (sigma1 w8 + w3 + sigma0 w11); (b, f) = Round g h a b c d e f (0xb00327c8 + w10);
         w11 = w11 + (sigma1 w9 + w4 + sigma0 w12); (a, e) = Round f g h a b c d e (0xbf597fc7 + w11);
         w12 = w12 + (sigma1 w10 + w5 + sigma0 w13); (h, d) = Round e f g h a b c d (0xc6e00bf3 + w12);
         w13 = w13 + (sigma1 w11 + w6 + sigma0 w14); (g, c) = Round d e f g h a b c (0xd5a79147 + w13);
         w14 = w14 + (sigma1 w12 + w7 + sigma0 w15); (f, b) = Round c d e f g h a b (0x06ca6351 + w14);
         w15 = w15 + (sigma1 w13 + w8 + sigma0 w0); (e, a) = Round b c d e f g h a (0x14292967 + w15);
         w0 = w0 + (sigma1 w14 + w9 + sigma0 w1); (d, h) = Round a b c d e f g h (0x27b70a85 + w0);
         w1 = w1 + (sigma1 w15 + w10 + sigma0 w2); (c, g) = Round h a b c d e f g (0x2e1b2138 + w1);
         w2 = w2 + (sigma1 w0 + w11 + sigma0 w3); (b, f) = Round g h a b c d e f (0x4d2c6dfc + w2);
         w3 = w3 + (sigma1 w1 + w12 + sigma0 w4); (a, e) = Round f g h a b c d e (0x53380d13 + w3);
         w4 = w4 + (sigma1 w2 + w13 + sigma0 w5); (h, d) = Round e f g h a b c d (0x650a7354 + w4);
         w5 = w5 + (sigma1 w3 + w14 + sigma0 w6); (g, c) = Round d e f g h a b c (0x766a0abb + w5);
         w6 = w6 + (sigma1 w4 + w15 + sigma0 w7); (f, b) = Round c d e f g h a b (0x81c2c92e + w6);
         w7 = w7 + (sigma1 w5 + w0 + sigma0 w8); (e, a) = Round b c d e f g h a (0x92722c85 + w7);
         w8 = w8 + (sigma1 w6 + w1 + sigma0 w9); (d, h) = Round a b c d e f g h (0xa2bfe8a1 + w8);
         w9 = w9 + (sigma1 w7 + w2 + sigma0 w10); (c, g) = Round h a b c d e f g (0xa81a664b + w9);
         w10 = w10 + (sigma1 w8 + w3 + sigma0 w11); (b, f) = Round g h a b c d e f (0xc24b8b70 + w10);
         w11 = w11 + (sigma1 w9 + w4 + sigma0 w12); (a, e) = Round f g h a b c d e (0xc76c51a3 + w11);
         w12 = w12 + (sigma1 w10 + w5 + sigma0 w13); (h, d) = Round e f g h a b c d (0xd192e819 + w12);
         w13 = w13 + (sigma1 w11 + w6 + sigma0 w14); (g, c) = Round d e f g h a b c (0xd6990624 + w13);
         w14 = w14 + (sigma1 w12 + w7 + sigma0 w15); (f, b) = Round c d e f g h a b (0xf40e3585 + w14);
         w15 = w15 + (sigma1 w13 + w8 + sigma0 w0); (e, a) = Round b c d e f g h a (0x106aa070 + w15);
         w0 = w0 + (sigma1 w14 + w9 + sigma0 w1); (d, h) = Round a b c d e f g h (0x19a4c116 + w0);
         w1 = w1 + (sigma1 w15 + w10 + sigma0 w2); (c, g) = Round h a b c d e f g (0x1e376c08 + w1);
         w2 = w2 + (sigma1 w0 + w11 + sigma0 w3); (b, f) = Round g h a b c d e f (0x2748774c + w2);
         w3 = w3 + (sigma1 w1 + w12 + sigma0 w4); (a, e) = Round f g h a b c d e (0x34b0bcb5 + w3);
         w4 = w4 + (sigma1 w2 + w13 + sigma0 w5); (h, d) = Round e f g h a b c d (0x391c0cb3 + w4);
         w5 = w5 + (sigma1 w3 + w14 + sigma0 w6); (g, c) = Round d e f g h a b c (0x4ed8aa4a + w5);
         w6 = w6 + (sigma1 w4 + w15 + sigma0 w7); (f, b) = Round c d e f g h a b (0x5b9cca4f + w6);
         w7 = w7 + (sigma1 w5 + w0 + sigma0 w8); (e, a) = Round b c d e f g h a (0x682e6ff3 + w7);
         w8 = w8 + (sigma1 w6 + w1 + sigma0 w9); (d, h) = Round a b c d e f g h (0x748f82ee + w8);
         w9 = w9 + (sigma1 w7 + w2 + sigma0 w10); (c, g) = Round h a b c d e f g (0x78a5636f + w9);
         w10 = w10 + (sigma1 w8 + w3 + sigma0 w11); (b, f) = Round g h a b c d e f (0x84c87814 + w10);
         w11 = w11 + (sigma1 w9 + w4 + sigma0 w12); (a, e) = Round f g h a b c d e (0x8cc70208 + w11);
         w12 = w12 + (sigma1 w10 + w5 + sigma0 w13); (h, d) = Round e f g h a b c d (0x90befffa + w12);
         w13 = w13 + (sigma1 w11 + w6 + sigma0 w14); (g, c) = Round d e f g h a b c (0xa4506ceb + w13);
         (f, b) = Round c d e f g h a b (0xbef9a3f7 + (w14 + sigma1 w12 + w7 + sigma0 w15));
         (e, a) = Round b c d e f g h a (0xc67178f2 + (w15 + sigma1 w13 + w8 + sigma0 w0))
     in [s ! 0 + a, s ! 1 + b, s ! 2 + c, s ! 3 + d, s ! 4 + e, s ! 5 + f, s ! 6 + g, s ! 7 + h])"

primrec Transform :: "u32 list \<Rightarrow> bytes \<Rightarrow> nat \<Rightarrow> u32 list" where
  "Transform s chunk 0 = s"
| "Transform s chunk (Suc blocks) = Transform (Transform_block s chunk) (drop 64 chunk) blocks"

section \<open>FIPS 180-4\<close>

definition ch_spec :: "u32 \<Rightarrow> u32 \<Rightarrow> u32 \<Rightarrow> u32" where
  "ch_spec x y z = (x AND y) XOR (NOT x AND z)"

definition maj_spec :: "u32 \<Rightarrow> u32 \<Rightarrow> u32 \<Rightarrow> u32" where
  "maj_spec x y z = (x AND y) XOR (x AND z) XOR (y AND z)"

definition K256 :: "u32 list" where
  "K256 = [
    0x428A2F98, 0x71374491, 0xB5C0FBCF, 0xE9B5DBA5, 0x3956C25B, 0x59F111F1, 0x923F82A4, 0xAB1C5ED5,
    0xD807AA98, 0x12835B01, 0x243185BE, 0x550C7DC3, 0x72BE5D74, 0x80DEB1FE, 0x9BDC06A7, 0xC19BF174,
    0xE49B69C1, 0xEFBE4786, 0x0FC19DC6, 0x240CA1CC, 0x2DE92C6F, 0x4A7484AA, 0x5CB0A9DC, 0x76F988DA,
    0x983E5152, 0xA831C66D, 0xB00327C8, 0xBF597FC7, 0xC6E00BF3, 0xD5A79147, 0x06CA6351, 0x14292967,
    0x27B70A85, 0x2E1B2138, 0x4D2C6DFC, 0x53380D13, 0x650A7354, 0x766A0ABB, 0x81C2C92E, 0x92722C85,
    0xA2BFE8A1, 0xA81A664B, 0xC24B8B70, 0xC76C51A3, 0xD192E819, 0xD6990624, 0xF40E3585, 0x106AA070,
    0x19A4C116, 0x1E376C08, 0x2748774C, 0x34B0BCB5, 0x391C0CB3, 0x4ED8AA4A, 0x5B9CCA4F, 0x682E6FF3,
    0x748F82EE, 0x78A5636F, 0x84C87814, 0x8CC70208, 0x90BEFFFA, 0xA4506CEB, 0xBEF9A3F7, 0xC67178F2]"

fun schedule :: "(nat \<Rightarrow> u32) \<Rightarrow> nat \<Rightarrow> u32" where
  "schedule M t = (if t < 16 then M t else
    (word_rotr 17 (schedule M (t - 2)) XOR word_rotr 19 (schedule M (t - 2)) XOR drop_bit 10 (schedule M (t - 2)))
    + schedule M (t - 7)
    + (word_rotr 7 (schedule M (t - 15)) XOR word_rotr 18 (schedule M (t - 15)) XOR drop_bit 3 (schedule M (t - 15)))
    + schedule M (t - 16))"

declare schedule.simps [simp del]

type_synonym working = "u32 \<times> u32 \<times> u32 \<times> u32 \<times> u32 \<times> u32 \<times> u32 \<times> u32"

fun round_spec :: "u32 \<Rightarrow> working \<Rightarrow> working" where
  "round_spec k (a, b, c, d, e, f, g, h) =
    (let t1 = h + (word_rotr 6 e XOR word_rotr 11 e XOR word_rotr 25 e) + ch_spec e f g + k;
         t2 = (word_rotr 2 a XOR word_rotr 13 a XOR word_rotr 22 a) + maj_spec a b c
     in (t1 + t2, a, b, c, d + t1, e, f, g))"

fun add_working :: "u32 list \<Rightarrow> working \<Rightarrow> u32 list" where
  "add_working s (a, b, c, d, e, f, g, h) =
    [s ! 0 + a, s ! 1 + b, s ! 2 + c, s ! 3 + d, s ! 4 + e, s ! 5 + f, s ! 6 + g, s ! 7 + h]"

definition compress_spec :: "u32 list \<Rightarrow> bytes \<Rightarrow> u32 list" where
  "compress_spec s chunk =
    add_working s
      (fold round_spec (map (\<lambda>t. K256 ! t + schedule (\<lambda>i. ReadBE32 chunk (4 * i)) t) [0..<64])
        (s ! 0, s ! 1, s ! 2, s ! 3, s ! 4, s ! 5, s ! 6, s ! 7))"

lemma Ch_eq_spec: "Ch x y z = ch_spec x y z"
  by (rule bit_word_eqI) (auto simp: Ch_def ch_spec_def bit_simps)

lemma Maj_eq_spec: "Maj x y z = maj_spec x y z"
  by (rule bit_word_eqI) (auto simp: Maj_def maj_spec_def bit_simps)

lemma shifts_rotr:
  fixes x :: u32
  assumes "0 < n" "n < 32" "m = 32 - n"
  shows "drop_bit n x OR push_bit m x = word_rotr n x"
proof (rule bit_word_eqI)
  fix i assume i: "i < LENGTH(32)"
  show "bit (drop_bit n x OR push_bit m x) i = bit (word_rotr n x) i"
  proof (cases "i + n < 32")
    case True
    then have "\<not> m \<le> i" "(i + n) mod 32 = n + i" using assms by simp_all
    then show ?thesis using i by (simp add: bit_simps)
  next
    case False
    then have "(i + n) mod 32 = i - m" "m \<le> i" using assms i by (simp_all add: le_mod_geq)
    moreover have "\<not> bit x (n + i)" using False bit_imp_le_length [of x "n + i"] by auto
    ultimately show ?thesis using i by (simp add: bit_simps)
  qed
qed

lemma Sigma_eq_spec:
  "Sigma0 x = word_rotr 2 x XOR word_rotr 13 x XOR word_rotr 22 x"
  "Sigma1 x = word_rotr 6 x XOR word_rotr 11 x XOR word_rotr 25 x"
  "sigma0 x = word_rotr 7 x XOR word_rotr 18 x XOR drop_bit 3 x"
  "sigma1 x = word_rotr 17 x XOR word_rotr 19 x XOR drop_bit 10 x"
  by (simp_all only: Sigma0_def Sigma1_def sigma0_def sigma1_def) (simp_all add: shifts_rotr)

lemma schedule_low: "t < 16 \<Longrightarrow> schedule M t = M t"
  by (simp add: schedule.simps [of M t])

lemma schedule_next:
  "schedule M (t + 16) = schedule M t +
    (sigma1 (schedule M (t + 14)) + schedule M (t + 9) + sigma0 (schedule M (t + 1)))"
  by (simp only: schedule.simps [of M "t + 16"] Sigma_eq_spec) (simp add: ac_simps)

lemma Round_eq_spec:
  "round_spec k (a, b, c, d, e, f, g, h) =
    (case Round a b c d e f g h k of (d, h) \<Rightarrow> (h, a, b, c, d, e, f, g))"
  by (simp add: Round_def Let_def Ch_eq_spec Maj_eq_spec Sigma_eq_spec)

text \<open>One unrolled round against one step of the loop.\<close>

lemma unrolled_round:
  assumes "v = W" and "\<And>d h. F W d h = add_working s (fold round_spec ks (h, a, b, c, d, e, f, g))"
  shows "(let w = v; (d, h) = Round a b c d e f g h (k + w) in F w d h) =
    add_working s (fold round_spec ((k + W) # ks) (a, b, c, d, e, f, g, h))"
  using assms by (simp add: Round_eq_spec Let_def del: round_spec.simps split: prod.splits)

lemma unrolled_last_round:
  assumes "v = W" and "\<And>d h. F d h = add_working s (fold round_spec ks (h, a, b, c, d, e, f, g))"
  shows "(let (d, h) = Round a b c d e f g h (k + v) in F d h) =
    add_working s (fold round_spec ((k + W) # ks) (a, b, c, d, e, f, g, h))"
  using assms by (simp add: Round_eq_spec Let_def del: round_spec.simps split: prod.splits)

lemma upt_64: "[0..<64] = [0, 1, 2, 3, 4, 5, 6, 7, 8, 9, 10, 11, 12, 13, 14, 15, 16, 17, 18, 19, 20, 21,
  22, 23, 24, 25, 26, 27, 28, 29, 30, 31, 32, 33, 34, 35, 36, 37, 38, 39, 40, 41, 42, 43, 44, 45,
  46, 47, 48, 49, 50, 51, 52, 53, 54, 55, 56, 57, 58, 59, 60, 61, 62, 63]"
  by (simp add: upt_rec)

lemma schedule_keys: "map (\<lambda>t. K256 ! t + W t) [0..<64] = [
    0x428a2f98 + W 0, 0x71374491 + W 1, 0xb5c0fbcf + W 2, 0xe9b5dba5 + W 3,
    0x3956c25b + W 4, 0x59f111f1 + W 5, 0x923f82a4 + W 6, 0xab1c5ed5 + W 7,
    0xd807aa98 + W 8, 0x12835b01 + W 9, 0x243185be + W 10, 0x550c7dc3 + W 11,
    0x72be5d74 + W 12, 0x80deb1fe + W 13, 0x9bdc06a7 + W 14, 0xc19bf174 + W 15,
    0xe49b69c1 + W 16, 0xefbe4786 + W 17, 0x0fc19dc6 + W 18, 0x240ca1cc + W 19,
    0x2de92c6f + W 20, 0x4a7484aa + W 21, 0x5cb0a9dc + W 22, 0x76f988da + W 23,
    0x983e5152 + W 24, 0xa831c66d + W 25, 0xb00327c8 + W 26, 0xbf597fc7 + W 27,
    0xc6e00bf3 + W 28, 0xd5a79147 + W 29, 0x06ca6351 + W 30, 0x14292967 + W 31,
    0x27b70a85 + W 32, 0x2e1b2138 + W 33, 0x4d2c6dfc + W 34, 0x53380d13 + W 35,
    0x650a7354 + W 36, 0x766a0abb + W 37, 0x81c2c92e + W 38, 0x92722c85 + W 39,
    0xa2bfe8a1 + W 40, 0xa81a664b + W 41, 0xc24b8b70 + W 42, 0xc76c51a3 + W 43,
    0xd192e819 + W 44, 0xd6990624 + W 45, 0xf40e3585 + W 46, 0x106aa070 + W 47,
    0x19a4c116 + W 48, 0x1e376c08 + W 49, 0x2748774c + W 50, 0x34b0bcb5 + W 51,
    0x391c0cb3 + W 52, 0x4ed8aa4a + W 53, 0x5b9cca4f + W 54, 0x682e6ff3 + W 55,
    0x748f82ee + W 56, 0x78a5636f + W 57, 0x84c87814 + W 58, 0x8cc70208 + W 59,
    0x90befffa + W 60, 0xa4506ceb + W 61, 0xbef9a3f7 + W 62, 0xc67178f2 + W 63]"
  by (simp only: upt_64 list.map K256_def) simp

lemma schedule_step:
  "a = t + 14 \<Longrightarrow> b = t + 9 \<Longrightarrow> c = t + 1 \<Longrightarrow> u = t + 16 \<Longrightarrow>
    schedule M t + (sigma1 (schedule M a) + schedule M b + sigma0 (schedule M c)) = schedule M u"
  by (simp add: schedule_next)

lemma schedule_step_inline:
  "a = t + 14 \<Longrightarrow> b = t + 9 \<Longrightarrow> c = t + 1 \<Longrightarrow> u = t + 16 \<Longrightarrow>
    schedule M t + sigma1 (schedule M a) + schedule M b + sigma0 (schedule M c) = schedule M u"
  by (simp add: schedule_next ac_simps)

lemma schedule_read: "p = 4 * t \<Longrightarrow> t < 16 \<Longrightarrow> ReadBE32 chunk p = schedule (\<lambda>i. ReadBE32 chunk (4 * i)) t"
  by (simp add: schedule_low)

lemma let_intro: "F v = R \<Longrightarrow> (let x = v in F x) = R"
  by simp

lemma Transform_block_eq_spec: "Transform_block s chunk = compress_spec s chunk"
  unfolding Transform_block_def compress_spec_def schedule_keys
  apply (rule let_intro, rule let_intro, rule let_intro, rule let_intro)
  apply (rule let_intro, rule let_intro, rule let_intro, rule let_intro)
  apply (rule unrolled_round, rule schedule_read, simp, simp)+
  apply (rule unrolled_round, rule schedule_step, simp, simp, simp, simp)+
  apply (rule unrolled_last_round, rule schedule_step_inline, simp, simp, simp, simp)+
  apply simp
  done


lemma length_add_working: "length (add_working s p) = 8"
  by (cases "(s, p)" rule: add_working.cases) simp

lemma length_Transform_block [simp, length_simps]: "length (Transform_block s chunk) = 8"
  unfolding Transform_block_eq_spec compress_spec_def by (rule length_add_working)

lemma schedule_cong: "(\<And>i. i < 16 \<Longrightarrow> M i = M' i) \<Longrightarrow> schedule M t = schedule M' t"
proof (induction t rule: less_induct)
  case (less t)
  show ?case
  proof (cases "t < 16")
    case True
    then show ?thesis using less.prems by (simp add: schedule_low)
  next
    case False
    then have W: "schedule M (t - k) = schedule M' (t - k)" if "0 < k" for k
      using that less.prems by (intro less.IH) simp_all
    have "schedule M (t - 2) = schedule M' (t - 2)" "schedule M (t - 7) = schedule M' (t - 7)"
      "schedule M (t - 15) = schedule M' (t - 15)" "schedule M (t - 16) = schedule M' (t - 16)"
      by (rule W, simp)+
    then show ?thesis using False
      by (simp only: schedule.simps [of M t] schedule.simps [of M' t] if_False)
  qed
qed

lemma Transform_block_take: "Transform_block s (take 64 chunk) = Transform_block s chunk"
proof -
  have "ReadBE32 (take 64 chunk) (4 * i) = ReadBE32 chunk (4 * i)" if "i < 16" for i
    using that by (simp add: ReadBE32_def slice_take)
  then have "schedule (\<lambda>i. ReadBE32 (take 64 chunk) (4 * i)) = schedule (\<lambda>i. ReadBE32 chunk (4 * i))"
    by (intro ext schedule_cong)
  then show ?thesis by (simp only: Transform_block_eq_spec compress_spec_def)
qed

section \<open>\<open>CSHA256\<close>\<close>

record CSHA256 =
  s :: "u32 list"
  buf :: bytes
  byte_count :: u64

text \<open>The constructor; \<open>buf\<close> has no initialiser in the source, \<open>mem\<close> is what it holds.\<close>

definition CSHA256_new :: "bytes \<Rightarrow> CSHA256" where
  "CSHA256_new mem = \<lparr>s = Initialize, buf = mem, byte_count = 0\<rparr>"

definition CSHA256_Write :: "CSHA256 \<Rightarrow> bytes \<Rightarrow> CSHA256" where
  "CSHA256_Write h data =
    (let bufsize = unat (byte_count h mod 64);
         (h, data, bufsize) =
          (if bufsize \<noteq> 0 \<and> bufsize + length data \<ge> 64
           then let buffer = splice bufsize (take (64 - bufsize) data) (buf h)
                in (h\<lparr>buf := buffer, byte_count := byte_count h + of_nat (64 - bufsize),
                      s := Transform (s h) buffer 1\<rparr>,
                    drop (64 - bufsize) data, 0)
           else (h, data, bufsize));
         (h, data) =
          (if length data \<ge> 64
           then let blocks = length data div 64
                in (h\<lparr>s := Transform (s h) data blocks, byte_count := byte_count h + of_nat (64 * blocks)\<rparr>,
                    drop (64 * blocks) data)
           else (h, data))
     in if data \<noteq> []
        then h\<lparr>buf := splice bufsize data (buf h), byte_count := byte_count h + of_nat (length data)\<rparr>
        else h)"

definition CSHA256_Finalize :: "CSHA256 \<Rightarrow> bytes \<Rightarrow> CSHA256 \<times> bytes" where
  "CSHA256_Finalize h hash =
    (let pad = 0x80 # replicate 63 0;
         sizedesc = WriteBE64 (replicate 8 0) 0 (push_bit 3 (byte_count h));
         h = CSHA256_Write h (take (unat (1 + ((119 - (byte_count h mod 64)) mod 64))) pad);
         h = CSHA256_Write h sizedesc;
         hash = WriteBE32 hash 0 (s h ! 0);
         hash = WriteBE32 hash 4 (s h ! 1);
         hash = WriteBE32 hash 8 (s h ! 2);
         hash = WriteBE32 hash 12 (s h ! 3);
         hash = WriteBE32 hash 16 (s h ! 4);
         hash = WriteBE32 hash 20 (s h ! 5);
         hash = WriteBE32 hash 24 (s h ! 6);
         hash = WriteBE32 hash 28 (s h ! 7)
     in (h, hash))"

definition CSHA256_Reset :: "CSHA256 \<Rightarrow> CSHA256" where
  "CSHA256_Reset h = h\<lparr>byte_count := 0, s := Initialize\<rparr>"

section \<open>\<open>hash256.cpp\<close>\<close>

definition Sha256 :: "bytes \<Rightarrow> bytes" where
  "Sha256 input =
    (let hasher = CSHA256_new (replicate 64 0);
         hasher = (if input \<noteq> [] then CSHA256_Write hasher input else hasher)
     in snd (CSHA256_Finalize hasher (replicate 32 0)))"

definition DoubleSha256 :: "bytes \<Rightarrow> UInt256" where
  "DoubleSha256 input =
    (let first = snd (CSHA256_Finalize (CSHA256_Write (CSHA256_new (replicate 64 0)) input) (replicate 32 0));
         second = snd (CSHA256_Finalize (CSHA256_Write (CSHA256_new (replicate 64 0)) first) (replicate 32 0))
     in UInt256 second)"

section \<open>Streaming\<close>

definition sha_pending :: "CSHA256 \<Rightarrow> bytes" where
  "sha_pending h = take (unat (byte_count h mod 64)) (buf h)"

definition sha_inv :: "CSHA256 \<Rightarrow> bool" where
  "sha_inv h \<longleftrightarrow> length (s h) = 8 \<and> length (buf h) = 64"

lemma Transform_absorb: "Transform st data (length data div 64) = absorb_blocks 64 Transform_block st data"
proof (induction "length data" arbitrary: st data rule: less_induct)
  case less
  show ?case
  proof (cases "length data < 64")
    case False
    then have "length data div 64 = Suc (length (drop 64 data) div 64)" by (simp add: le_div_geq)
    moreover have "length (drop 64 data) < length data" using False by simp
    ultimately show ?thesis using False less [of "drop 64 data"]
      by (simp add: absorb_blocks_step Transform_block_take del: length_drop)
  qed simp
qed

lemma count_mod: "unat ((c + of_nat n :: u64) mod 64) = (unat c + n) mod 64"
proof -
  have "unat ((c + of_nat n :: u64) mod 64) = unat (c + of_nat n :: u64) mod 64"
    by (simp add: unat_mod)
  also have "\<dots> = ((unat c + n) mod 2 ^ 64) mod 64"
    by (simp add: unat_word_ariths unat_of_nat mod_add_right_eq)
  also have "\<dots> = (unat c + n) mod 64"
    using le_imp_power_dvd [of 6 64 "2 :: nat"] by (intro mod_mod_cancel) simp
  finally show ?thesis .
qed

lemma sha_pending_length: "sha_inv h \<Longrightarrow> length (sha_pending h) = unat (byte_count h) mod 64"
proof -
  assume "sha_inv h"
  moreover have "unat (byte_count h mod 64) = unat (byte_count h) mod 64" by (simp add: unat_mod)
  moreover have "unat (byte_count h) mod 64 < 64" by simp
  ultimately show ?thesis by (simp add: sha_pending_def sha_inv_def)
qed

lemma absorb_blocks_length:
  "length st = 8 \<Longrightarrow> length (absorb_blocks 64 Transform_block st data) = 8"
proof -
  have "length st = 8 \<Longrightarrow> length (fold (\<lambda>i s. Transform_block s (slice (i * 64) 64 data)) is st) = 8" for "is"
    by (induction "is" arbitrary: st) simp_all
  then show "length st = 8 \<Longrightarrow> ?thesis" by (simp add: absorb_blocks_def)
qed

text \<open>
  The three phases of \<open>Write\<close>: completing the pending block, the whole blocks of the rest, and
  the bytes left over. \<open>b\<close> bytes were pending.
\<close>

lemma CSHA256_Write_cases:
  assumes "sha_inv h" and b: "b = unat (byte_count h) mod 64"
  shows "CSHA256_Write h data =
    \<lparr>s = absorb_blocks 64 Transform_block (s h) (sha_pending h @ data),
     buf = (let rest = unabsorbed 64 (sha_pending h @ data)
            in if b + length data < 64 then splice b data (buf h)
               else splice 0 rest (if b = 0 then buf h else sha_pending h @ take (64 - b) data)),
     byte_count = byte_count h + of_nat (length data)\<rparr>"
proof -
  have bu: "unat (byte_count h mod 64) = b" by (simp add: b unat_mod)
  have inv: "length (s h) = 8" "length (buf h) = 64" using assms(1) by (simp_all add: sha_inv_def)
  have b64: "b < 64" by (simp add: b)
  have pend: "sha_pending h = take b (buf h)" by (simp add: sha_pending_def bu)
  have lp: "length (sha_pending h) = b" using inv b64 by (simp add: pend)
  consider "b + length data < 64" | "b = 0" "64 \<le> length data" | "b \<noteq> 0" "64 \<le> b + length data"
    by linarith
  then show ?thesis
  proof cases
    case 1
    then have "\<not> 64 \<le> b + length data" "\<not> 64 \<le> length data" by linarith+
    moreover have "length (sha_pending h @ data) < 64" using 1 lp by simp
    ultimately show ?thesis using 1
      by (cases "data = []") (simp_all add: CSHA256_Write_def bu Let_def)
  next
    case 2
    let ?q = "length data div 64"
    have T: "Transform (s h) data ?q = absorb_blocks 64 Transform_block (s h) data"
      by (rule Transform_absorb)
    have c: "of_nat (64 * ?q) + of_nat (length (drop (64 * ?q) data)) = (of_nat (length data) :: u64)"
    proof -
      have "64 * ?q + length (drop (64 * ?q) data) = length data" by simp
      then show ?thesis by (metis of_nat_add)
    qed
    have p0: "sha_pending h = []" using 2 lp by simp
    have u: "drop (64 * ?q) data = unabsorbed 64 data" by (simp only: unabsorbed_def)
    show ?thesis
      using 2 c unfolding CSHA256_Write_def bu p0 append_Nil u
      by (cases "unabsorbed 64 data = []") (simp_all add: Let_def T add.assoc u)
  next
    case 3
    let ?blk = "sha_pending h @ take (64 - b) data" and ?d = "drop (64 - b) data"
    have sp: "splice b (take (64 - b) data) (buf h) = ?blk"
      using 3 inv b64 by (simp add: splice_def pend)
    have lblk: "length ?blk = 64" using 3 b64 lp by simp
    have cat: "sha_pending h @ data = ?blk @ ?d" by simp
    have T1: "Transform (s h) ?blk 1 = Transform_block (s h) ?blk" by simp
    have A: "absorb_blocks 64 Transform_block (s h) (sha_pending h @ data) =
        absorb_blocks 64 Transform_block (Transform_block (s h) ?blk) ?d"
      unfolding cat by (rule absorb_blocks_whole) (use lblk in simp_all)
    have U: "unabsorbed 64 (sha_pending h @ data) = unabsorbed 64 ?d"
      unfolding cat by (rule unabsorbed_whole) (use lblk in simp_all)
    let ?q = "length ?d div 64"
    have u: "drop (64 * ?q) ?d = unabsorbed 64 ?d" by (simp only: unabsorbed_def)
    have c: "of_nat (64 - b) + (of_nat (64 * ?q) + of_nat (length (unabsorbed 64 ?d))) =
        (of_nat (length data) :: u64)"
    proof -
      have "64 * ?q + length (unabsorbed 64 ?d) = length ?d" by (rule absorbed_plus_unabsorbed)
      then have "64 - b + (64 * ?q + length (unabsorbed 64 ?d)) = length data" using 3 by simp
      then show ?thesis by (metis of_nat_add)
    qed
    have le: "\<not> b + length data < 64" "b + length data \<ge> 64" using 3 by simp_all
    define blk d where "blk = ?blk" and "d = ?d"
    have "CSHA256_Write h data =
        (let h1 = h\<lparr>buf := blk, byte_count := byte_count h + of_nat (64 - b), s := Transform_block (s h) blk\<rparr>;
             (h2, d2) = (if length d \<ge> 64
               then (h1\<lparr>s := Transform (s h1) d (length d div 64),
                        byte_count := byte_count h1 + of_nat (64 * (length d div 64))\<rparr>,
                     drop (64 * (length d div 64)) d)
               else (h1, d))
         in if d2 \<noteq> [] then h2\<lparr>buf := splice 0 d2 (buf h2), byte_count := byte_count h2 + of_nat (length d2)\<rparr>
            else h2)"
      unfolding CSHA256_Write_def bu Let_def sp T1 blk_def d_def using 3
      by (simp only: if_True simp_thms prod.case if_P not_False_eq_True)
    also have "\<dots> = \<lparr>s = absorb_blocks 64 Transform_block (Transform_block (s h) blk) d,
        buf = splice 0 (unabsorbed 64 d) blk,
        byte_count = byte_count h + (of_nat (64 - b) + (of_nat (64 * (length d div 64)) + of_nat (length (unabsorbed 64 d))))\<rparr>"
      using u [folded d_def]
      by (cases "64 \<le> length d"; cases "unabsorbed 64 d = []")
        (simp_all add: Let_def Transform_absorb add.assoc del: of_nat_add of_nat_mult)
    finally show ?thesis
      using 3 le unfolding A U blk_def [symmetric] d_def [symmetric] c [folded d_def]
      by simp
  qed
qed

lemma CSHA256_Write_count: "sha_inv h \<Longrightarrow> byte_count (CSHA256_Write h data) = byte_count h + of_nat (length data)"
  by (simp add: CSHA256_Write_cases)

lemma CSHA256_Write_state:
  "sha_inv h \<Longrightarrow> s (CSHA256_Write h data) = absorb_blocks 64 Transform_block (s h) (sha_pending h @ data)"
  by (simp add: CSHA256_Write_cases)

lemma CSHA256_Write_buf:
  "sha_inv h \<Longrightarrow> buf (CSHA256_Write h data) =
    (if unat (byte_count h) mod 64 + length data < 64 then splice (unat (byte_count h) mod 64) data (buf h)
     else splice 0 (unabsorbed 64 (sha_pending h @ data))
       (if unat (byte_count h) mod 64 = 0 then buf h
        else sha_pending h @ take (64 - unat (byte_count h) mod 64) data))"
  by (simp add: CSHA256_Write_cases)

lemma sha_inv_Write: "sha_inv h \<Longrightarrow> sha_inv (CSHA256_Write h data)"
proof -
  assume h: "sha_inv h"
  let ?b = "unat (byte_count h) mod 64" and ?r = "unabsorbed 64 (sha_pending h @ data)"
  have l: "length (sha_pending h) = ?b" using h by (rule sha_pending_length)
  have "length ?r < 64" by (rule length_unabsorbed_less) simp
  then have "length (splice 0 ?r xs) = length xs" if "length xs = 64" for xs
    using that by (intro length_splice) linarith
  note spl = this
  have "length (buf (CSHA256_Write h data)) = 64"
  proof -
    have lb: "length (buf h) = 64" using h by (simp add: sha_inv_def)
    consider "?b + length data < 64" | "\<not> ?b + length data < 64" "?b = 0"
      | "\<not> ?b + length data < 64" "?b \<noteq> 0" by blast
    then show ?thesis
    proof cases
      case 1
      then have "length (splice ?b data (buf h)) = 64" using lb by (subst length_splice) simp_all
      then show ?thesis using 1 by (simp only: CSHA256_Write_buf [OF h] if_True)
    next
      case 2
      then have "buf (CSHA256_Write h data) = splice 0 ?r (buf h)"
        unfolding CSHA256_Write_buf [OF h] by presburger
      then show ?thesis by (simp only: spl [OF lb] lb)
    next
      case 3
      then have blk: "length (sha_pending h @ take (64 - ?b) data) = 64" using l by simp
      show ?thesis using 3 by (simp only: CSHA256_Write_buf [OF h] if_False spl [OF blk] blk)
    qed
  qed
  moreover have "length (s (CSHA256_Write h data)) = 8"
    using h by (simp add: CSHA256_Write_state [OF h] absorb_blocks_length sha_inv_def)
  ultimately show ?thesis by (simp add: sha_inv_def)
qed

lemma sha_pending_Write:
  assumes h: "sha_inv h"
  shows "sha_pending (CSHA256_Write h data) = unabsorbed 64 (sha_pending h @ data)"
proof -
  let ?b = "unat (byte_count h) mod 64" and ?r = "unabsorbed 64 (sha_pending h @ data)"
  have l: "length (sha_pending h) = ?b" using h by (rule sha_pending_length)
  have n: "unat (byte_count (CSHA256_Write h data) mod 64) = (?b + length data) mod 64"
    by (simp add: CSHA256_Write_count [OF h] count_mod mod_add_left_eq)
  have lr: "length ?r = (?b + length data) mod 64" by (simp add: length_unabsorbed l)
  have e: "take (length ?r) (splice 0 ?r xs) = ?r" for xs by (simp add: splice_def)
  have bu: "unat (byte_count h mod 64) = ?b" by (simp add: unat_mod)
  show ?thesis
  proof (cases "?b + length data < 64")
    case True
    then have "?r = sha_pending h @ data" using l by (intro unabsorbed_short) simp
    moreover have "take (?b + length data) (splice ?b data (buf h)) = take ?b (buf h) @ data"
      using h True by (simp add: splice_def sha_inv_def)
    ultimately show ?thesis using True
      unfolding sha_pending_def [of "CSHA256_Write h data"] n CSHA256_Write_buf [OF h]
      by (simp add: sha_pending_def bu)
  next
    case False
    then show ?thesis
      unfolding sha_pending_def [of "CSHA256_Write h data"] n lr [symmetric] CSHA256_Write_buf [OF h]
      by (simp only: if_False e)
  qed
qed

lemma sha_pending_less: "sha_inv h \<Longrightarrow> length (sha_pending h) < 64"
  by (simp add: sha_pending_length)

interpretation sha256: buffered_hasher 64 Transform_block s sha_pending sha_inv CSHA256_Write
  by unfold_locales
    (simp_all add: sha_pending_less sha_inv_Write sha_pending_Write CSHA256_Write_state)

lemma sha_new [simp]:
  "length mem = 64 \<Longrightarrow> sha_inv (CSHA256_new mem)" "sha_pending (CSHA256_new mem) = []"
  "s (CSHA256_new mem) = Initialize" "byte_count (CSHA256_new mem) = 0"
  by (simp_all add: sha_inv_def sha_pending_def CSHA256_new_def Initialize_def)

lemma sha_foldl_count:
  "sha_inv h \<Longrightarrow> byte_count (foldl CSHA256_Write h ds) = byte_count h + of_nat (length (concat ds))"
  by (induction ds arbitrary: h) (simp_all add: sha_inv_Write CSHA256_Write_count add.assoc)

section \<open>Padding the whole message\<close>

definition sha256_pad :: "bytes \<Rightarrow> bytes" where
  "sha256_pad msg = msg @ 0x80 # replicate ((119 - length msg mod 64) mod 64) 0
    @ rev (le_bytes 8 (of_nat (8 * length msg) :: u64))"

definition sha256_spec :: "bytes \<Rightarrow> bytes" where
  "sha256_spec msg =
    enc_array (\<lambda>x. rev (le_bytes 4 x)) (absorb_blocks 64 compress_spec Initialize (sha256_pad msg))"

lemma pad_arith:
  "(n :: nat) = 64 * q + r \<Longrightarrow> r < 64 \<Longrightarrow> p = (if r < 56 then 55 - r else 119 - r) \<Longrightarrow>
    n + 9 + p = 64 * (q + (if r < 56 then 1 else 2))"
  by simp

lemma sha256_pad_whole_blocks: "64 dvd length (sha256_pad msg)"
proof -
  let ?n = "length msg" and ?r = "length msg mod 64"
  have n: "?n = 64 * (?n div 64) + ?r" by simp
  have "?r < 64" by simp
  then have "(119 - ?r) mod 64 = (if ?r < 56 then 55 - ?r else 119 - ?r)" by (simp add: le_mod_geq)
  then have "?n + 9 + (119 - ?r) mod 64 = 64 * (?n div 64 + (if ?r < 56 then 1 else 2))"
    using pad_arith [OF n \<open>?r < 64\<close>] by blast
  moreover have "length (sha256_pad msg) = ?n + 9 + (119 - ?r) mod 64" by (simp add: sha256_pad_def)
  ultimately show ?thesis by simp
qed

lemma WriteBE32_all:
  assumes "length xs = 8" "length out = 32"
  shows "WriteBE32 (WriteBE32 (WriteBE32 (WriteBE32 (WriteBE32 (WriteBE32 (WriteBE32 (WriteBE32 out
    0 (xs ! 0)) 4 (xs ! 1)) 8 (xs ! 2)) 12 (xs ! 3)) 16 (xs ! 4)) 20 (xs ! 5)) 24 (xs ! 6)) 28 (xs ! 7) =
    enc_array (\<lambda>x. rev (le_bytes 4 x)) xs"
proof -
  have u: "[0..<8] = [0, 1, 2, 3, 4, 5, 6, 7]" by (simp add: upt_rec)
  have "fold (\<lambda>i. splice (i * 4) (rev (le_bytes 4 (xs ! i)))) [0..<8] out =
      enc_array (\<lambda>x. rev (le_bytes 4 x)) xs"
    using be32.fold_write [of 8 xs out] assms by simp
  then show ?thesis by (simp only: u WriteBE32_def fold_simps) simp
qed

lemma pad_count: "unat (1 + (119 - (c :: u64) mod 64) mod 64) = Suc ((119 - unat c mod 64) mod 64)"
proof -
  have c: "unat (c mod 64) = unat c mod 64" by (simp add: unat_mod)
  then have "c mod 64 \<le> 119" by (simp add: word_le_nat_alt)
  then have "unat (119 - c mod 64) = 119 - unat c mod 64" by (simp add: unat_sub c)
  then have m: "unat ((119 - c mod 64) mod 64) = (119 - unat c mod 64) mod 64" by (simp add: unat_mod)
  then show ?thesis by (subst unat_word_ariths) (simp add: m)
qed

lemma CSHA256_digest:
  assumes mem: "length mem = 64" and hash: "length hash = 32"
  shows "snd (CSHA256_Finalize (foldl CSHA256_Write (CSHA256_new mem) ds) hash) = sha256_spec (concat ds)"
proof -
  let ?h = "foldl CSHA256_Write (CSHA256_new mem) ds" and ?L = "length (concat ds)"
  let ?pad = "take (unat (1 + ((119 - (byte_count ?h mod 64)) mod 64))) (0x80 # replicate 63 0)"
  let ?size = "WriteBE64 (replicate 8 0) 0 (push_bit 3 (byte_count ?h))"
  let ?f = "foldl CSHA256_Write (CSHA256_new mem) (ds @ [?pad, ?size])"
  have inv: "sha_inv (CSHA256_new mem)" using mem by simp
  have cnt: "byte_count ?h = of_nat ?L" using sha_foldl_count [OF inv, of ds] by simp
  have um: "unat (of_nat ?L :: u64) mod 64 = ?L mod 64"
    using count_mod [of 0 ?L] by (simp add: unat_mod)
  have pad: "?pad = 0x80 # replicate ((119 - ?L mod 64) mod 64) 0"
  proof -
    have "min ((119 - ?L mod 64) mod 64) 63 = (119 - ?L mod 64) mod 64" by simp
    then show ?thesis by (simp only: cnt pad_count um take_Suc_Cons take_replicate)
  qed
  have size: "?size = rev (le_bytes 8 (of_nat (8 * ?L) :: u64))"
    by (simp add: WriteBE64_def splice_def cnt push_bit_eq_mult mult.commute)
  note w = sha256.wr_concat [OF inv, of "ds @ [?pad, ?size]"]
  have st: "s ?f = absorb_blocks 64 Transform_block Initialize (sha256_pad (concat ds))"
    using conjunct1 [OF conjunct2 [OF w]] unfolding pad size by (simp add: sha256_pad_def)
  have l: "length (s ?f) = 8" using conjunct1 [OF w] unfolding sha_inv_def by (rule conjunct1)
  have "snd (CSHA256_Finalize ?h hash) = enc_array (\<lambda>x. rev (le_bytes 4 x)) (s ?f)"
    unfolding CSHA256_Finalize_def Let_def snd_conv WriteBE32_all [OF l hash, symmetric]
    by (simp only: foldl_append foldl_Cons foldl_Nil)
  then show ?thesis by (simp only: st sha256_spec_def Transform_block_eq_spec [abs_def])
qed

lemma Sha256_spec: "Sha256 input = sha256_spec input"
  using CSHA256_digest [of "replicate 64 0" "replicate 32 0" "[]"]
    CSHA256_digest [of "replicate 64 0" "replicate 32 0" "[input]"]
  by (cases "input = []") (simp_all add: Sha256_def Let_def)

lemma length_sha256_spec [simp, length_simps]: "length (sha256_spec msg) = 32"
  by (simp add: sha256_spec_def be32.length_enc_array Transform_block_eq_spec [abs_def, symmetric]
      absorb_blocks_length Initialize_def)

lemma DoubleSha256_spec: "bytes_of (DoubleSha256 input) = sha256_spec (sha256_spec input)"
  using CSHA256_digest [of "replicate 64 0" "replicate 32 0" "[input]"]
    CSHA256_digest [of "replicate 64 0" "replicate 32 0" "[sha256_spec input]"]
  by (simp add: DoubleSha256_def)

lemma CSHA256_Reset_fresh:
  assumes "sha_inv h"
  shows "sha_inv (CSHA256_Reset h)" "s (CSHA256_Reset h) = Initialize" "sha_pending (CSHA256_Reset h) = []"
  using assms by (simp_all add: CSHA256_Reset_def sha_inv_def sha_pending_def Initialize_def)

section \<open>Properties\<close>

text \<open>C22: The unrolled compression function of the code, which keeps sixteen schedule words and
  rotates the roles of the eight working variables, computes the FIPS 180-4 compression of each
  64-byte block with its 64-word message schedule, over any number of blocks.\<close>

theorem Transform_compresses:
  "Transform st chunk n = fold (\<lambda>i st. compress_spec st (slice (64 * i) 64 chunk)) [0..<n] st"
proof -
  have "slice (64 * i) 64 (drop 64 c) = slice (64 * Suc i) 64 c" for i and c :: bytes
    by (simp add: slice_def add.commute)
  moreover have "compress_spec st chunk = compress_spec st (slice 0 64 chunk)" for st chunk
    using Transform_block_take [of st chunk] by (simp add: Transform_block_eq_spec slice_def)
  ultimately show ?thesis
    by (induction n arbitrary: st chunk)
      (simp_all add: Transform_block_eq_spec upt_conv_Cons fold_upt_shift del: upt_Suc mult_Suc_right)
qed

text \<open>C21: SHA-256 of a message split over any number of \<open>Write\<close> calls is the SHA-256 of the
  concatenated message (padding, 64-bit length, big-endian digest), and writing after \<open>Reset\<close>
  starts a new message; the size of each piece and what the buffer held before are immaterial.\<close>

theorem CSHA256_streams:
  assumes "length mem = 64" "length out = 32"
  shows "snd (CSHA256_Finalize (foldl CSHA256_Write (CSHA256_new mem) ds) out) = sha256_spec (concat ds) \<and>
    snd (CSHA256_Finalize (foldl CSHA256_Write (CSHA256_Reset (foldl CSHA256_Write (CSHA256_new mem) ds)) es) out) =
      sha256_spec (concat es)"
proof -
  let ?h = "foldl CSHA256_Write (CSHA256_new mem) ds"
  have inv: "sha_inv ?h" using sha256.wr_concat [of "CSHA256_new mem" ds] assms by simp
  have "CSHA256_Reset ?h = CSHA256_new (buf ?h)" by (cases ?h) (simp add: CSHA256_Reset_def CSHA256_new_def)
  moreover have "length (buf ?h) = 64" using inv by (simp add: sha_inv_def)
  ultimately show ?thesis using assms by (simp add: CSHA256_digest)
qed

theorem CSHA256_streams_witness:
  "snd (CSHA256_Finalize (CSHA256_Write (CSHA256_Write (CSHA256_new (replicate 64 1)) [1, 2]) [3]) (replicate 32 0)) =
    sha256_spec [1, 2, 3]"
  using CSHA256_streams [of "replicate 64 1" "replicate 32 0" "[[1, 2], [3]]" "[]"] by simp

text \<open>The hash of blocks, transactions and Merkle nodes is SHA-256 applied twice, as a
  256-bit value whose bytes are in digest order; a single \<open>Sha256\<close> takes the empty input too.\<close>

theorem DoubleSha256_digest:
  "bytes_of (DoubleSha256 input) = sha256_spec (sha256_spec input) \<and> Sha256 input = sha256_spec input"
  by (simp add: DoubleSha256_spec Sha256_spec)

end
