(* ===== verification/Coinbase.thy ===== *)
theory Coinbase
  imports Sha256 "HOL-Library.Monad_Syntax"
begin

text \<open>
  \<open>src/coinbase.cpp\<close>: the BIP34 height prefix and the coinbase transaction in its stripped and
  its witness serialisation. Both are checked against a decoder of the wire format.
\<close>

record CoinbaseTransaction =
  script_sig :: bytes
  serialized_without_witness :: bytes
  serialized_with_witness :: bytes
  txid :: UInt256
  wtxid :: UInt256

definition NULL_PREVOUT_INDEX :: u32 where "NULL_PREVOUT_INDEX = - 1"
definition COINBASE_SEQUENCE :: u32 where "COINBASE_SEQUENCE = 0xfffffffe"
definition TRANSACTION_VERSION :: u32 where "TRANSACTION_VERSION = 2"

lemma drop_bit_8_less: "(v :: u32) \<noteq> 0 \<Longrightarrow> unat (drop_bit 8 v) < unat v"
proof -
  assume "v \<noteq> 0"
  then have "0 < unat v" by (simp add: unat_gt_0)
  then show ?thesis by (simp add: unat_drop_bit_eq drop_bit_eq_div [of 8 "unat v"])
qed

function scriptnum_loop :: "u32 \<Rightarrow> bytes \<Rightarrow> bytes" where
  "scriptnum_loop v result =
    (if v \<noteq> 0 then scriptnum_loop (drop_bit 8 v) (result @ [ucast (v AND 0xff)]) else result)"
  by pat_completeness auto
termination
  by (relation "measure (\<lambda>(v, result). unat v)") (auto simp: drop_bit_8_less)

declare scriptnum_loop.simps [simp del]

definition SerializePositiveScriptNum :: "u32 \<Rightarrow> bytes" where
  "SerializePositiveScriptNum v =
    (let result = scriptnum_loop v []
     in if result \<noteq> [] \<and> last result AND 0x80 \<noteq> 0 then result @ [0] else result)"

definition AppendCoinbaseInput :: "bytes \<Rightarrow> bytes \<Rightarrow> bytes" where
  "AppendCoinbaseInput out sig =
    (let out = AppendCompactSize out 1;
         out = AppendBytes out (replicate 32 0);
         out = AppendLE32 out NULL_PREVOUT_INDEX;
         out = AppendCompactSize out (of_nat (length sig));
         out = AppendBytes out sig
     in AppendLE32 out COINBASE_SEQUENCE)"

definition AppendOutputs :: "bytes \<Rightarrow> u64 \<Rightarrow> bytes \<Rightarrow> bytes \<Rightarrow> bytes" where
  "AppendOutputs out coinbase_value payout_script witness_commitment_script =
    (let out = AppendCompactSize out 2;
         out = AppendLE64 out coinbase_value;
         out = AppendCompactSize out (of_nat (length payout_script));
         out = AppendBytes out payout_script;
         out = AppendLE64 out 0;
         out = AppendCompactSize out (of_nat (length witness_commitment_script))
     in AppendBytes out witness_commitment_script)"

definition commitment_prefix :: bytes where
  "commitment_prefix = [0x6a, 0x24, 0xaa, 0x21, 0xa9, 0xed]"

definition ValidateWitnessCommitment :: "bytes \<Rightarrow> unit res" where
  "ValidateWitnessCommitment script =
    rbind (throw_if (length script \<noteq> 38)
        (CoinbaseException ''witness commitment script must be exactly 38 bytes'')) (\<lambda>_.
    throw_if (\<exists>i \<in> set [0..<length commitment_prefix]. script ! i \<noteq> commitment_prefix ! i)
        (CoinbaseException ''witness commitment script has invalid prefix''))"

definition BuildBip34HeightPrefix :: "u32 \<Rightarrow> bytes res" where
  "BuildBip34HeightPrefix height =
    rbind (throw_if (height = 0) (CoinbaseException ''coinbase height must be greater than zero'')) (\<lambda>_.
    if height \<le> 16 then ok [ucast (0x50 + height)]
    else let encoded = SerializePositiveScriptNum height
         in rbind (throw_if (encoded = [] \<or> length encoded \<ge> 0x4c)
              (CoinbaseException ''coinbase height encoding is invalid'')) (\<lambda>_.
            ok (AppendBytes [of_nat (length encoded)] encoded)))"

text \<open>\<open>coinbase_value\<close> is an \<open>int64_t\<close>, kept as its 64 bits; \<open>sint\<close> is its value.\<close>

definition BuildCoinbaseTransaction ::
  "u32 \<Rightarrow> u64 \<Rightarrow> bytes \<Rightarrow> bytes \<Rightarrow> bytes \<Rightarrow> bytes \<Rightarrow> CoinbaseTransaction res" where
  "BuildCoinbaseTransaction height coinbase_value payout_script coinbase_aux_flags extranonce
      witness_commitment_script =
    rbind (throw_if (height = 0) (CoinbaseException ''coinbase height must be greater than zero'')) (\<lambda>_.
    rbind (throw_if (sint coinbase_value < 0)
        (CoinbaseException ''coinbase value must not be negative'')) (\<lambda>_.
    rbind (ValidateWitnessCommitment witness_commitment_script) (\<lambda>_.
    rbind (BuildBip34HeightPrefix height) (\<lambda>sig.
    let sig = AppendBytes sig coinbase_aux_flags;
        sig = AppendBytes sig extranonce
    in rbind (throw_if (length sig < 2 \<or> length sig > 100)
        (CoinbaseException ''coinbase scriptSig must be between 2 and 100 bytes'')) (\<lambda>_.
    let stripped = AppendLE32 [] TRANSACTION_VERSION;
        stripped = AppendCoinbaseInput stripped sig;
        stripped = AppendOutputs stripped coinbase_value payout_script witness_commitment_script;
        stripped = AppendLE32 stripped (height - 1);
        with_witness = AppendLE32 [] TRANSACTION_VERSION;
        with_witness = with_witness @ [0x00];
        with_witness = with_witness @ [0x01];
        with_witness = AppendCoinbaseInput with_witness sig;
        with_witness = AppendOutputs with_witness coinbase_value payout_script witness_commitment_script;
        with_witness = AppendCompactSize with_witness 1;
        with_witness = AppendCompactSize with_witness 32;
        with_witness = AppendBytes with_witness (replicate 32 0);
        with_witness = AppendLE32 with_witness (height - 1)
    in ok \<lparr>script_sig = sig, serialized_without_witness = stripped,
           serialized_with_witness = with_witness,
           txid = DoubleSha256 stripped, wtxid = DoubleSha256 with_witness\<rparr>)))))"

section \<open>The height prefix\<close>

text \<open>The base-256 digits of a number, least significant first.\<close>

fun digits :: "nat \<Rightarrow> bytes" where
  "digits n = (if n = 0 then [] else of_nat (n mod 256) # digits (n div 256))"

declare digits.simps [simp del]

lemma low_byte: "(ucast (v AND 0xff) :: byte) = of_nat (unat (v :: u32) mod 256)"
proof -
  have "v AND 0xff = take_bit 8 v" by (simp add: take_bit_eq_mask mask_eq_exp_minus_1)
  then have "(ucast (v AND 0xff) :: byte) = ucast (take_bit 8 v)" by (simp only:)
  also have "\<dots> = ucast v" by (rule bit_word_eqI) (auto simp: bit_simps)
  finally have "(ucast (v AND 0xff) :: byte) = ucast v" .
  then show ?thesis
    by (simp add: word_unat_eq_iff unat_ucast_mod unat_of_nat)
qed

lemma scriptnum_loop_digits: "scriptnum_loop v result = result @ digits (unat v)"
proof (induction v result rule: scriptnum_loop.induct)
  case (1 v result)
  show ?case
  proof (cases "v = 0")
    case False
    have "unat (drop_bit 8 v) = unat v div 256"
      by (simp add: unat_drop_bit_eq drop_bit_eq_div [of 8 "unat v"])
    moreover have "unat v \<noteq> 0" using False by (simp add: unat_eq_zero)
    ultimately show ?thesis using 1 False
      by (simp add: scriptnum_loop.simps [of v result] digits.simps [of "unat v"] low_byte)
  qed (simp add: scriptnum_loop.simps digits.simps)
qed

lemma le_nat_digits: "le_nat (digits n) = n"
proof (induction n rule: digits.induct)
  case (1 n)
  show ?case
  proof (cases "n = 0")
    case False
    have "unat (of_nat (n mod 256) :: byte) = n mod 256" by (simp add: unat_of_nat)
    then show ?thesis using 1 False by (simp add: digits.simps [of n])
  qed (simp add: digits.simps)
qed

lemma length_digits: "n < 256 ^ k \<Longrightarrow> length (digits n) \<le> k"
proof (induction k arbitrary: n)
  case (Suc k)
  then have "n div 256 < 256 ^ k" by (simp add: less_mult_imp_div_less mult.commute)
  from Suc.IH [OF this] show ?case by (simp add: digits.simps [of n])
qed (simp add: digits.simps)

lemma digits_Nil [simp]: "digits n = [] \<longleftrightarrow> n = 0"
  by (simp add: digits.simps [of n])

text \<open>
  What a node reads back: an \<open>OP_1\<close> to \<open>OP_16\<close> byte, or a push of a little-endian number.
\<close>

definition read_height :: "bytes \<Rightarrow> (nat \<times> bytes) option" where
  "read_height bs =
    (case bs of [] \<Rightarrow> None
     | b # bs \<Rightarrow>
        if 0x51 \<le> b \<and> b \<le> 0x60 then Some (unat b - 0x50, bs)
        else if b < 0x4c \<and> unat b \<le> length bs then Some (le_nat (take (unat b) bs), drop (unat b) bs)
        else None)"

lemma SerializePositiveScriptNum_facts:
  assumes "h \<noteq> 0"
  shows "le_nat (SerializePositiveScriptNum h) = unat h"
    and "0 < length (SerializePositiveScriptNum h)" "length (SerializePositiveScriptNum h) \<le> 5"
    and "last (SerializePositiveScriptNum h) AND 0x80 = 0"
proof -
  have "unat h < 256 ^ 4" using unsigned_less [of h, where ?'a = nat] by simp
  from length_digits [OF this] have l: "length (digits (unat h)) \<le> 4" .
  have u: "unat h \<noteq> 0" using assms by (simp add: unat_eq_zero)
  note d = SerializePositiveScriptNum_def scriptnum_loop_digits Let_def
  show "le_nat (SerializePositiveScriptNum h) = unat h"
    by (simp add: d le_nat_append le_nat_digits)
  show "0 < length (SerializePositiveScriptNum h)" "length (SerializePositiveScriptNum h) \<le> 5"
    using l u by (auto simp: d)
  show "last (SerializePositiveScriptNum h) AND 0x80 = 0"
    using u by (simp add: d)
qed

lemma BuildBip34HeightPrefix_result:
  "BuildBip34HeightPrefix h =
    (if h = 0 then Inl (CoinbaseException ''coinbase height must be greater than zero'')
     else if h \<le> 16 then Inr [ucast (0x50 + h)]
     else Inr (of_nat (length (SerializePositiveScriptNum h)) # SerializePositiveScriptNum h))"
proof -
  have "h \<noteq> 0 \<Longrightarrow> SerializePositiveScriptNum h \<noteq> [] \<and> \<not> length (SerializePositiveScriptNum h) \<ge> 0x4c"
    using SerializePositiveScriptNum_facts(2,3) [of h] by auto
  then show ?thesis
    by (simp add: BuildBip34HeightPrefix_def Let_def AppendBytes_def throw_if_def)
qed

lemma height_prefix_roundtrip:
  assumes "BuildBip34HeightPrefix h = Inr p"
  shows "read_height (p @ rest) = Some (unat h, rest)"
proof -
  have h: "h \<noteq> 0" using assms by (auto simp: BuildBip34HeightPrefix_result)
  show ?thesis
  proof (cases "h \<le> 16")
    case True
    then have u: "unat h \<le> 16" "0 < unat h" using h by (simp_all add: word_le_nat_alt unat_gt_0)
    have p: "p = [ucast (0x50 + h)]" using assms h True by (simp add: BuildBip34HeightPrefix_result)
    have "unat (0x50 + h) = 0x50 + unat h" using u by (subst unat_word_ariths) simp
    then have b: "unat (ucast (0x50 + h) :: byte) = 0x50 + unat h"
      using u by (subst unat_ucast_mod) simp
    then show ?thesis using u
      by (simp add: p read_height_def word_le_nat_alt)
  next
    case False
    let ?e = "SerializePositiveScriptNum h"
    note f = SerializePositiveScriptNum_facts [OF h]
    have p: "p = of_nat (length ?e) # ?e" using assms h False by (simp add: BuildBip34HeightPrefix_result)
    have b: "unat (of_nat (length ?e) :: byte) = length ?e" using f(3) by (simp add: unat_of_nat)
    then have "\<not> (0x51 :: byte) \<le> of_nat (length ?e)" "(of_nat (length ?e) :: byte) < 0x4c"
      using f(3) by (simp_all add: word_le_nat_alt word_less_nat_alt)
    then show ?thesis using b f(1) by (simp add: p read_height_def)
  qed
qed

section \<open>The wire format\<close>

definition input_bytes :: "bytes \<Rightarrow> bytes" where
  "input_bytes sig = compact_bytes 1 @ replicate 32 0 @ le_bytes 4 NULL_PREVOUT_INDEX @
    compact_bytes (of_nat (length sig)) @ sig @ le_bytes 4 COINBASE_SEQUENCE"

definition output_bytes :: "u64 \<Rightarrow> bytes \<Rightarrow> bytes" where
  "output_bytes v script = le_bytes 8 v @ compact_bytes (of_nat (length script)) @ script"

definition body_bytes :: "bytes \<Rightarrow> u64 \<Rightarrow> bytes \<Rightarrow> bytes \<Rightarrow> bytes" where
  "body_bytes sig v payout commitment =
    input_bytes sig @ compact_bytes 2 @ output_bytes v payout @ output_bytes 0 commitment"

definition stripped_bytes :: "u32 \<Rightarrow> bytes \<Rightarrow> u64 \<Rightarrow> bytes \<Rightarrow> bytes \<Rightarrow> bytes" where
  "stripped_bytes height sig v payout commitment =
    le_bytes 4 TRANSACTION_VERSION @ body_bytes sig v payout commitment @ le_bytes 4 (height - 1)"

definition witness_bytes :: "u32 \<Rightarrow> bytes \<Rightarrow> u64 \<Rightarrow> bytes \<Rightarrow> bytes \<Rightarrow> bytes" where
  "witness_bytes height sig v payout commitment =
    le_bytes 4 TRANSACTION_VERSION @ [0, 1] @ body_bytes sig v payout commitment @
    compact_bytes 1 @ compact_bytes 32 @ replicate 32 0 @ le_bytes 4 (height - 1)"

lemmas append_eqs = AppendBytes_def AppendLE32_eq AppendLE64_eq AppendCompactSize_eq

lemma AppendCoinbaseInput_eq: "AppendCoinbaseInput out sig = out @ input_bytes sig"
  by (simp add: AppendCoinbaseInput_def append_eqs input_bytes_def)

lemma AppendOutputs_eq:
  "AppendOutputs out v payout commitment =
    out @ compact_bytes 2 @ output_bytes v payout @ output_bytes 0 commitment"
  by (simp add: AppendOutputs_def append_eqs output_bytes_def)

definition commitment_ok :: "bytes \<Rightarrow> bool" where
  "commitment_ok script \<longleftrightarrow> length script = 38 \<and> take 6 script = commitment_prefix"

lemma commitment_prefix_iff:
  "length script = 38 \<Longrightarrow> (\<forall>i < 6. script ! i = commitment_prefix ! i) \<longleftrightarrow> take 6 script = commitment_prefix"
  by (auto simp: list_eq_iff_nth_eq commitment_prefix_def)

lemma ValidateWitnessCommitment_iff: "ValidateWitnessCommitment script = Inr u \<longleftrightarrow> commitment_ok script"
proof -
  have l: "length commitment_prefix = 6" by (simp add: commitment_prefix_def)
  show ?thesis
    using commitment_prefix_iff [of script]
    by (auto simp: ValidateWitnessCommitment_def rbind_Inr_iff commitment_ok_def l)
qed

text \<open>Exactly when a transaction is built, and what it is.\<close>

definition coinbase_sig :: "u32 \<Rightarrow> bytes \<Rightarrow> bytes \<Rightarrow> bytes" where
  "coinbase_sig height aux extranonce =
    (if height \<le> 16 then [ucast (0x50 + height)]
     else of_nat (length (SerializePositiveScriptNum height)) # SerializePositiveScriptNum height)
    @ aux @ extranonce"

lemma BuildCoinbaseTransaction_iff:
  "BuildCoinbaseTransaction height v payout aux extranonce commitment = Inr t \<longleftrightarrow>
    height \<noteq> 0 \<and> 0 \<le> sint v \<and> commitment_ok commitment \<and>
    2 \<le> length (coinbase_sig height aux extranonce) \<and> length (coinbase_sig height aux extranonce) \<le> 100 \<and>
    t = (let sig = coinbase_sig height aux extranonce in
      \<lparr>script_sig = sig,
       serialized_without_witness = stripped_bytes height sig v payout commitment,
       serialized_with_witness = witness_bytes height sig v payout commitment,
       txid = DoubleSha256 (stripped_bytes height sig v payout commitment),
       wtxid = DoubleSha256 (witness_bytes height sig v payout commitment)\<rparr>)"
proof -
  have p: "BuildBip34HeightPrefix height = Inr sig \<longleftrightarrow> height \<noteq> 0 \<and> sig @ aux @ extranonce = coinbase_sig height aux extranonce"
    for sig by (auto simp: BuildBip34HeightPrefix_result coinbase_sig_def)
  let ?t = "\<lambda>sig. \<lparr>script_sig = sig,
       serialized_without_witness = stripped_bytes height sig v payout commitment,
       serialized_with_witness = witness_bytes height sig v payout commitment,
       txid = DoubleSha256 (stripped_bytes height sig v payout commitment),
       wtxid = DoubleSha256 (witness_bytes height sig v payout commitment)\<rparr>"
  let ?build = "rbind (throw_if (height = 0) (CoinbaseException ''coinbase height must be greater than zero'')) (\<lambda>_.
    rbind (throw_if (sint v < 0) (CoinbaseException ''coinbase value must not be negative'')) (\<lambda>_.
    rbind (ValidateWitnessCommitment commitment) (\<lambda>_.
    rbind (BuildBip34HeightPrefix height) (\<lambda>sig.
    rbind (throw_if (length (sig @ aux @ extranonce) < 2 \<or> length (sig @ aux @ extranonce) > 100)
        (CoinbaseException ''coinbase scriptSig must be between 2 and 100 bytes'')) (\<lambda>_.
    Inr (?t (sig @ aux @ extranonce)))))))"
  have A: "BuildCoinbaseTransaction height v payout aux extranonce commitment = ?build"
    by (simp add: BuildCoinbaseTransaction_def Let_def append_eqs AppendCoinbaseInput_eq AppendOutputs_eq
        stripped_bytes_def witness_bytes_def body_bytes_def add.assoc)
  have B: "?build = Inr t \<longleftrightarrow> height \<noteq> 0 \<and> 0 \<le> sint v \<and> commitment_ok commitment \<and>
    (\<exists>sig. BuildBip34HeightPrefix height = Inr sig \<and>
      2 \<le> length (sig @ aux @ extranonce) \<and> length (sig @ aux @ extranonce) \<le> 100 \<and> t = ?t (sig @ aux @ extranonce))"
    unfolding rbind_Inr_iff throw_if_simps ValidateWitnessCommitment_iff sum.inject not_less de_Morgan_disj
    by auto
  have "(\<exists>sig. BuildBip34HeightPrefix height = Inr sig \<and> P (sig @ aux @ extranonce)) \<longleftrightarrow>
      height \<noteq> 0 \<and> P (coinbase_sig height aux extranonce)" for P
  proof -
    obtain sig where "sig @ aux @ extranonce = coinbase_sig height aux extranonce"
      by (auto simp: coinbase_sig_def)
    then show ?thesis unfolding p by metis
  qed
  from this [of "\<lambda>x. 2 \<le> length x \<and> length x \<le> 100 \<and> t = ?t x"]
  show ?thesis unfolding A B Let_def by blast
qed

section \<open>Reading the transaction back\<close>

definition read_n :: "nat \<Rightarrow> bytes \<Rightarrow> (bytes \<times> bytes) option" where
  "read_n n bs = (if length bs < n then None else Some (take n bs, drop n bs))"

definition read_var :: "bytes \<Rightarrow> (bytes \<times> bytes) option" where
  "read_var bs = read_compact bs \<bind> (\<lambda>(n, bs). read_n (unat n) bs)"

text \<open>One input and two outputs: script, value and script of the first, script of the second output.\<close>

definition read_body :: "bytes \<Rightarrow> ((bytes \<times> u64 \<times> bytes \<times> bytes) \<times> bytes) option" where
  "read_body bs = do {
    (n_in, bs) \<leftarrow> read_compact bs;
    (_, bs) \<leftarrow> read_n 36 bs;
    (sig, bs) \<leftarrow> read_var bs;
    (_, bs) \<leftarrow> read_n 4 bs;
    (n_out, bs) \<leftarrow> read_compact bs;
    (v, bs) \<leftarrow> read_n 8 bs;
    (payout, bs) \<leftarrow> read_var bs;
    (v0, bs) \<leftarrow> read_n 8 bs;
    (commitment, bs) \<leftarrow> read_var bs;
    if n_in = 1 \<and> n_out = 2 \<and> le_word v0 = (0 :: u64) then Some ((sig, le_word v, payout, commitment), bs) else None
  }"

text \<open>
  The reader of a serialised transaction: an input count of zero is the BIP144 marker and is
  followed by the flag 1; the witness is then one item per input.
\<close>

definition read_transaction ::
  "bytes \<Rightarrow> (bool \<times> (bytes \<times> u64 \<times> bytes \<times> bytes) \<times> bytes \<times> u32) option" where
  "read_transaction bs = do {
    (ver, bs) \<leftarrow> read_n 4 bs;
    let segwit = (take 2 bs = [0, 1]);
    (body, bs) \<leftarrow> read_body (if segwit then drop 2 bs else bs);
    (witness, bs) \<leftarrow> (if segwit then read_compact bs \<bind> (\<lambda>(n, bs). if n = 1 then read_var bs else None)
                      else Some ([], bs));
    (lock, bs) \<leftarrow> read_n 4 bs;
    if le_word ver = (2 :: u32) \<and> bs = [] then Some (segwit, body, witness, le_word lock) else None
  }"

lemma read_n_append [simp]: "n = length xs \<Longrightarrow> read_n n (xs @ ys) = Some (xs, ys)"
  by (simp add: read_n_def)

lemma read_n_exact [simp]: "n = length xs \<Longrightarrow> read_n n xs = Some (xs, [])"
  by (simp add: read_n_def)

lemma read_var_compact [simp]:
  "length xs < 2 ^ 64 \<Longrightarrow> read_var (compact_bytes (of_nat (length xs)) @ xs @ ys) = Some (xs, ys)"
  by (simp add: read_var_def read_compact_compact_bytes unat_of_nat_small)

lemma read_body_bytes:
  assumes "length sig < 2 ^ 64" "length payout < 2 ^ 64" "length commitment < 2 ^ 64"
  shows "read_body (body_bytes sig v payout commitment @ rest) = Some ((sig, v, payout, commitment), rest)"
proof -
  let ?p = "replicate 32 0 @ le_bytes 4 NULL_PREVOUT_INDEX"
  have l: "36 = length ?p" by simp
  have e: "body_bytes sig v payout commitment @ rest =
      compact_bytes 1 @ ?p @ compact_bytes (of_nat (length sig)) @ sig @ le_bytes 4 COINBASE_SEQUENCE @
      compact_bytes 2 @ le_bytes 8 v @ compact_bytes (of_nat (length payout)) @ payout @
      le_bytes 8 (0 :: u64) @ compact_bytes (of_nat (length commitment)) @ commitment @ rest"
    by (simp add: body_bytes_def input_bytes_def output_bytes_def)
  show ?thesis unfolding e read_body_def
    using assms by (simp only: read_compact_compact_bytes read_n_append [OF l] Option.bind.simps prod.case
        read_var_compact read_n_append length_le_bytes) (simp add: le_word_le_bytes_id)
qed

lemma body_bytes_start: "take 2 (body_bytes sig v payout commitment @ rest) = [1, 0]"
proof -
  have "compact_bytes 1 = [1]" by (simp add: compact_bytes_eq)
  moreover have "replicate 32 (0 :: byte) = 0 # replicate 31 0" by (simp add: eval_nat_numeral)
  ultimately show ?thesis by (simp add: body_bytes_def input_bytes_def take_Cons')
qed

lemma read_stripped:
  assumes "length sig < 2 ^ 64" "length payout < 2 ^ 64" "length commitment < 2 ^ 64"
  shows "read_transaction (stripped_bytes height sig v payout commitment) =
    Some (False, (sig, v, payout, commitment), [], height - 1)"
proof -
  have "read_transaction (stripped_bytes height sig v payout commitment) = do {
      (body, bs) \<leftarrow> read_body (body_bytes sig v payout commitment @ le_bytes 4 (height - 1));
      (lock, bs) \<leftarrow> read_n 4 bs;
      if bs = [] then Some (False, body, [], le_word lock) else None }"
    using body_bytes_start [of sig v payout commitment "le_bytes 4 (height - 1)"]
    by (simp add: read_transaction_def stripped_bytes_def le_word_le_bytes_id TRANSACTION_VERSION_def
        del: take_append)
  then show ?thesis using assms by (simp add: read_body_bytes le_word_le_bytes_id)
qed

lemma read_witness:
  assumes "length sig < 2 ^ 64" "length payout < 2 ^ 64" "length commitment < 2 ^ 64"
  shows "read_transaction (witness_bytes height sig v payout commitment) =
    Some (True, (sig, v, payout, commitment), replicate 32 0, height - 1)"
proof -
  have z: "read_var (compact_bytes 32 @ replicate 32 0 @ ys) = Some (replicate 32 0, ys)" for ys
    using read_var_compact [of "replicate 32 0" ys] by simp
  have "read_transaction (witness_bytes height sig v payout commitment) = do {
      (body, bs) \<leftarrow> read_body (body_bytes sig v payout commitment @ compact_bytes 1 @ compact_bytes 32 @
          replicate 32 0 @ le_bytes 4 (height - 1));
      (witness, bs) \<leftarrow> read_compact bs \<bind> (\<lambda>(n, bs). if n = 1 then read_var bs else None);
      (lock, bs) \<leftarrow> read_n 4 bs;
      if bs = [] then Some (True, body, witness, le_word lock) else None }"
    by (simp add: read_transaction_def witness_bytes_def le_word_le_bytes_id TRANSACTION_VERSION_def)
  then show ?thesis using assms
    by (simp add: read_body_bytes read_compact_compact_bytes z le_word_le_bytes_id)
qed

section \<open>Properties\<close>

text \<open>The BIP34 prefix of a coinbase script is a script push from which a reader recovers the
  block height, whatever bytes follow it.\<close>

theorem BuildBip34HeightPrefix_reads:
  assumes "BuildBip34HeightPrefix h = Inr p"
  shows "read_height (p @ rest) = Some (unat h, rest)"
  using assms by (rule height_prefix_roundtrip)

theorem BuildBip34HeightPrefix_reads_witness:
  "read_height ([3, 0x40, 0x0d, 0x03] @ [7]) = Some (200000, [7])"
proof -
  have "BuildBip34HeightPrefix 200000 = Inr [3, 0x40, 0x0d, 0x03]" by code_simp
  from BuildBip34HeightPrefix_reads [OF this, of "[7]"] show ?thesis by simp
qed

text \<open>Exactly when a coinbase is built: the height is positive, the value not negative, the
  commitment a 38-byte witness commitment or empty as the code requires, and the script of height,
  flags and extranonce has 2 to 100 bytes; every other input is an error, and the transaction and
  both its identifiers are then the ones of the serialised fields.\<close>

theorem BuildCoinbaseTransaction_defined:
  "BuildCoinbaseTransaction height v payout aux extranonce commitment = Inr t \<longleftrightarrow>
    height \<noteq> 0 \<and> 0 \<le> sint v \<and> commitment_ok commitment \<and>
    2 \<le> length (coinbase_sig height aux extranonce) \<and> length (coinbase_sig height aux extranonce) \<le> 100 \<and>
    t = (let sig = coinbase_sig height aux extranonce in
      \<lparr>script_sig = sig,
       serialized_without_witness = stripped_bytes height sig v payout commitment,
       serialized_with_witness = witness_bytes height sig v payout commitment,
       txid = DoubleSha256 (stripped_bytes height sig v payout commitment),
       wtxid = DoubleSha256 (witness_bytes height sig v payout commitment)\<rparr>)"
  by (rule BuildCoinbaseTransaction_iff)

text \<open>C26: Both serialisations of a built coinbase are read back by a transaction reader: one input
  with the built script, two outputs with the value and the payout script and with zero and the
  commitment, lock time one below the height, and, in the witness form, the BIP144 marker and one
  32-byte zero witness item.\<close>

theorem BuildCoinbaseTransaction_reads:
  assumes "BuildCoinbaseTransaction height v payout aux extranonce commitment = Inr t"
    and "length payout < 2 ^ 64"
  shows "read_transaction (serialized_without_witness t) =
      Some (False, (script_sig t, v, payout, commitment), [], height - 1) \<and>
    read_transaction (serialized_with_witness t) =
      Some (True, (script_sig t, v, payout, commitment), replicate 32 0, height - 1) \<and>
    txid t = DoubleSha256 (serialized_without_witness t)"
proof -
  have "commitment_ok commitment" "length (coinbase_sig height aux extranonce) \<le> 100"
    and t: "script_sig t = coinbase_sig height aux extranonce"
      "serialized_without_witness t = stripped_bytes height (script_sig t) v payout commitment"
      "serialized_with_witness t = witness_bytes height (script_sig t) v payout commitment"
      "txid t = DoubleSha256 (serialized_without_witness t)"
    using assms(1) by (auto simp: BuildCoinbaseTransaction_iff Let_def)
  then have "length (script_sig t) < 2 ^ 64" "length commitment < 2 ^ 64"
    by (auto simp: commitment_ok_def)
  then show ?thesis using t assms(2) read_stripped read_witness by metis
qed

theorem BuildCoinbaseTransaction_reads_witness:
  "\<exists>t. BuildCoinbaseTransaction 1 0 [0x51] [] [0, 0, 0, 0, 0, 0, 0, 0] (commitment_prefix @ replicate 32 0) = Inr t \<and>
    read_transaction (serialized_with_witness t) =
      Some (True, (script_sig t, 0, [0x51], commitment_prefix @ replicate 32 0), replicate 32 0, 0)"
proof -
  have "commitment_ok (commitment_prefix @ replicate 32 0)" by code_simp
  moreover have "coinbase_sig 1 [] [0, 0, 0, 0, 0, 0, 0, 0] = [0x51, 0, 0, 0, 0, 0, 0, 0, 0]" by code_simp
  ultimately obtain t where
    t: "BuildCoinbaseTransaction 1 0 [0x51] [] [0, 0, 0, 0, 0, 0, 0, 0] (commitment_prefix @ replicate 32 0) = Inr t"
    by (simp add: BuildCoinbaseTransaction_iff)
  then show ?thesis using BuildCoinbaseTransaction_reads [OF t] by simp
qed

end
