(* ===== verification/Merkle.thy ===== *)
theory Merkle
  imports Sha256
begin

text \<open>
  \<open>src/merkle.cpp\<close>: the merkle root of a list of transaction ids with the flag that reports
  equal adjacent nodes. The bottom-up loop is proved equal to the top-down recursion over
  perfect subtrees, and the root binds the list up to a collision of \<open>DoubleSha256\<close>.
\<close>

record MerkleResult =
  root :: UInt256
  mutated :: bool

section \<open>The loop\<close>

text \<open>\<open>for (i = 0; i + 1 < hashes.size(); i += 2)\<close> with \<open>i = 2 * k\<close>.\<close>

definition mark_mutated :: "UInt256 list \<Rightarrow> bool \<Rightarrow> bool" where
  "mark_mutated hashes flag =
    fold (\<lambda>k flag. if hashes ! (2 * k) = hashes ! (2 * k + 1) then True else flag)
      [0..<length hashes div 2] flag"

definition merkle_pair :: "UInt256 \<Rightarrow> UInt256 \<Rightarrow> bytes" where
  "merkle_pair a b =
    fold (\<lambda>j pair. pair[j := bytes_of a ! j, 32 + j := bytes_of b ! j]) [0..<32] (replicate 64 0)"

definition next_level :: "UInt256 list \<Rightarrow> UInt256 list" where
  "next_level hashes =
    (let hashes = (if length hashes mod 2 \<noteq> 0 then hashes @ [last hashes] else hashes)
     in map (\<lambda>k. DoubleSha256 (merkle_pair (hashes ! (2 * k)) (hashes ! (2 * k + 1))))
          [0..<length hashes div 2])"

lemma length_next_level: "length (next_level hashes) = (length hashes + 1) div 2"
  by (simp add: next_level_def Let_def) presburger

function merkle_loop :: "UInt256 list \<Rightarrow> bool \<Rightarrow> UInt256 list \<times> bool" where
  "merkle_loop hashes flag =
    (if length hashes > 1 then merkle_loop (next_level hashes) (mark_mutated hashes flag)
     else (hashes, flag))"
  by pat_completeness auto
termination
  by (relation "measure (\<lambda>(hashes, flag). length hashes)") (auto simp: length_next_level)

declare merkle_loop.simps [simp del]

definition ComputeMerkleRoot :: "UInt256 list \<Rightarrow> MerkleResult" where
  "ComputeMerkleRoot hashes =
    (let (hashes, flag) = merkle_loop hashes False
     in if hashes = [] then \<lparr>root = UInt256_zero, mutated = flag\<rparr>
        else \<lparr>root = hd hashes, mutated = flag\<rparr>)"

section \<open>Nodes\<close>

lemma merkle_pair_fold:
  assumes "k \<le> 32" "length a = 32" "length b = 32"
  shows "fold (\<lambda>j pair. pair[j := a ! j, 32 + j := b ! j]) [0..<k] (replicate 64 z) =
    (take k a @ replicate (32 - k) z) @ take k b @ replicate (32 - k) z"
  using assms(1)
proof (induction k)
  case (Suc k)
  have r: "replicate (32 - k) z = z # replicate (32 - Suc k) z"
    using Suc.prems by (metis Suc_diff_Suc Suc_le_lessD replicate_Suc)
  have u: "(take k xs @ replicate (32 - k) z)[k := xs ! k] = take (Suc k) xs @ replicate (32 - Suc k) z"
    if "length xs = 32" for xs
    using Suc.prems that by (simp add: r list_update_append take_Suc_conv_app_nth)
  have two: "(A @ B)[k := x, 32 + k := y] = A[k := x] @ B[k := y]" if "length A = 32" for A B x y
    using that Suc.prems by (simp add: list_update_append)
  have l: "length (take k a @ replicate (32 - k) z) = 32"
    using Suc.prems assms(2) by simp
  have "fold (\<lambda>j pair. pair[j := a ! j, 32 + j := b ! j]) [0..<Suc k] (replicate 64 z) =
      ((take k a @ replicate (32 - k) z) @ take k b @ replicate (32 - k) z)[k := a ! k, 32 + k := b ! k]"
    using Suc by simp
  then show ?case by (simp only: two [OF l] u [OF assms(2)] u [OF assms(3)])
qed (simp add: replicate_add [symmetric])

lemma merkle_pair_append: "merkle_pair a b = bytes_of a @ bytes_of b"
  using merkle_pair_fold [of 32 "bytes_of a" "bytes_of b" 0] by (simp add: merkle_pair_def)

definition node :: "UInt256 \<Rightarrow> UInt256 \<Rightarrow> UInt256" where
  "node a b = DoubleSha256 (bytes_of a @ bytes_of b)"

fun level :: "UInt256 list \<Rightarrow> UInt256 list" where
  "level [] = []"
| "level [a] = [node a a]"
| "level (a # b # hs) = node a b # level hs"

lemma next_level_pairs:
  "even (length hs) \<Longrightarrow> map (\<lambda>k. DoubleSha256 (merkle_pair (hs ! (2 * k)) (hs ! (2 * k + 1)))) [0..<length hs div 2] =
    level hs"
proof (induction hs rule: level.induct)
  case (3 a b hs)
  then show ?case
    by (simp add: upt_conv_Cons map_Suc_upt [symmetric] comp_def node_def merkle_pair_append del: upt_Suc)
qed simp_all

lemma level_odd: "odd (length hs) \<Longrightarrow> level (hs @ [last hs]) = level hs"
  by (induction hs rule: level.induct) auto

lemma next_level_eq: "next_level hs = level hs"
proof (cases "even (length hs)")
  case True
  then show ?thesis using next_level_pairs [of hs] by (simp add: next_level_def)
next
  case False
  then have "even (length (hs @ [last hs]))" by simp
  from next_level_pairs [OF this] level_odd [OF False] False show ?thesis
    by (simp add: next_level_def Let_def odd_iff_mod_2_eq_one)
qed

lemma length_level: "length (level hs) = (length hs + 1) div 2"
  using length_next_level [of hs] by (simp add: next_level_eq)

lemma mark_mutated_iff:
  "mark_mutated hs flag \<longleftrightarrow> flag \<or> (\<exists>k < length hs div 2. hs ! (2 * k) = hs ! (2 * k + 1))"
proof -
  have "fold (\<lambda>k flag. if P k then True else flag) [0..<n] flag \<longleftrightarrow> flag \<or> (\<exists>k < n. P k)" for P n
    by (induction n) (auto simp: less_Suc_eq)
  then show ?thesis by (simp add: mark_mutated_def)
qed

section \<open>The tree\<close>

text \<open>
  \<open>mroot d hs\<close> is the root of the perfect tree of depth \<open>d\<close> over at most \<open>2 ^ d\<close> leaves: an
  incomplete right subtree that has no leaf of its own is a copy of the left one.
\<close>

fun mroot :: "nat \<Rightarrow> UInt256 list \<Rightarrow> UInt256" where
  "mroot 0 hs = hd hs"
| "mroot (Suc d) hs =
    (let left = mroot d (take (2 ^ d) hs)
     in node left (if length hs > 2 ^ d then mroot d (drop (2 ^ d) hs) else left))"

text \<open>The number of levels above \<open>n\<close> leaves.\<close>

fun depth :: "nat \<Rightarrow> nat" where
  "depth n = (if n \<le> 1 then 0 else Suc (depth ((n + 1) div 2)))"

declare depth.simps [simp del]

lemma depth_bound: "n \<le> 2 ^ depth n"
proof (induction n rule: depth.induct)
  case (1 n)
  show ?case
  proof (cases "n \<le> 1")
    case False
    with 1 have "(n + 1) div 2 \<le> 2 ^ depth ((n + 1) div 2)" by simp
    then show ?thesis using False by (simp add: depth.simps [of n])
  qed (simp add: depth.simps [of n])
qed

lemma level_append: "even (length xs) \<Longrightarrow> level (xs @ ys) = level xs @ level ys"
  by (induction xs rule: level.induct) simp_all

lemma levels_append: "2 ^ d dvd length xs \<Longrightarrow> (level ^^ d) (xs @ ys) = (level ^^ d) xs @ (level ^^ d) ys"
proof (induction d arbitrary: xs ys)
  case (Suc d)
  then obtain k where k: "length xs = 2 * (2 ^ d * k)" by (auto simp: dvd_def)
  then have "even (length xs)" "2 ^ d dvd length (level xs)"
    by (simp_all add: length_level)
  then show ?case using Suc.IH by (simp add: funpow_swap1 [of level] level_append)
qed simp

lemma levels_mroot: "hs \<noteq> [] \<Longrightarrow> length hs \<le> 2 ^ d \<Longrightarrow> (level ^^ d) hs = [mroot d hs]"
proof (induction d arbitrary: hs)
  case 0
  then show ?case by (cases hs) simp_all
next
  case (Suc d)
  let ?A = "take (2 ^ d) hs" and ?B = "drop (2 ^ d) hs"
  have A: "(level ^^ d) ?A = [mroot d ?A]" using Suc by simp
  show ?case
  proof (cases "length hs > 2 ^ d")
    case True
    then have "(level ^^ d) ?B = [mroot d ?B]" using Suc by simp
    moreover have "(level ^^ d) (?A @ ?B) = (level ^^ d) ?A @ (level ^^ d) ?B"
      by (rule levels_append) (use True in simp)
    ultimately show ?thesis using A True by simp
  next
    case False
    then show ?thesis using A by (simp add: Let_def)
  qed
qed

lemma merkle_loop_levels: "fst (merkle_loop hs flag) = (level ^^ depth (length hs)) hs"
proof (induction hs flag rule: merkle_loop.induct)
  case (1 hs flag)
  show ?case
  proof (cases "length hs > 1")
    case True
    then show ?thesis using 1
      by (simp add: merkle_loop.simps [of hs] depth.simps [of "length hs"] next_level_eq length_level
          funpow_swap1)
  qed (simp add: merkle_loop.simps [of hs] depth.simps [of "length hs"])
qed

lemma ComputeMerkleRoot_parts:
  "root (ComputeMerkleRoot hs) =
    (if fst (merkle_loop hs False) = [] then UInt256_zero else hd (fst (merkle_loop hs False)))"
  "mutated (ComputeMerkleRoot hs) = snd (merkle_loop hs False)"
  by (simp_all add: ComputeMerkleRoot_def split: prod.splits)

lemma ComputeMerkleRoot_mroot:
  "root (ComputeMerkleRoot hs) = (if hs = [] then UInt256_zero else mroot (depth (length hs)) hs)"
proof (cases "hs = []")
  case True
  then show ?thesis by (simp add: ComputeMerkleRoot_def merkle_loop.simps)
next
  case False
  then have "fst (merkle_loop hs False) = [mroot (depth (length hs)) hs]"
    by (simp add: merkle_loop_levels levels_mroot depth_bound)
  then show ?thesis using False by (simp add: ComputeMerkleRoot_parts)
qed

section \<open>Binding\<close>

definition node_collision :: bool where
  "node_collision \<longleftrightarrow> (\<exists>a b. length a = 64 \<and> length b = 64 \<and> a \<noteq> b \<and> DoubleSha256 a = DoubleSha256 b)"

lemma node_inj: "node a b = node c d \<Longrightarrow> (a = c \<and> b = d) \<or> node_collision"
proof (rule disjCI)
  assume n: "node a b = node c d" and nc: "\<not> node_collision"
  have "bytes_of a @ bytes_of b = bytes_of c @ bytes_of d"
  proof (rule ccontr)
    assume "bytes_of a @ bytes_of b \<noteq> bytes_of c @ bytes_of d"
    moreover have "length (bytes_of a @ bytes_of b) = 64" "length (bytes_of c @ bytes_of d) = 64" by simp_all
    ultimately show False using n nc unfolding node_collision_def node_def by blast
  qed
  then show "a = c \<and> b = d" by (simp add: UInt256_eq_iff)
qed

lemma level_inj: "length xs = length ys \<Longrightarrow> level xs = level ys \<Longrightarrow> xs = ys \<or> node_collision"
proof (induction xs arbitrary: ys rule: level.induct)
  case (2 a)
  then obtain b where "ys = [b]" by (cases ys) auto
  with 2 node_inj [of a a b b] show ?case by auto
next
  case (3 a b hs)
  then obtain c d ks where ys: "ys = c # d # ks"
    by (cases ys; cases "tl ys") auto
  with 3 node_inj [of a b c d] show ?case by auto
qed simp

lemma levels_inj:
  "length xs = length ys \<Longrightarrow> (level ^^ d) xs = (level ^^ d) ys \<Longrightarrow> xs = ys \<or> node_collision"
proof (induction d arbitrary: xs ys)
  case (Suc d)
  have "length (level xs) = length (level ys)" using Suc.prems(1) by (simp add: length_level)
  with Suc.IH [OF this] Suc.prems level_inj [OF Suc.prems(1)] show ?case
    by (auto simp: funpow_swap1)
qed simp

lemma merkle_root_binding:
  assumes "length xs = length ys" "root (ComputeMerkleRoot xs) = root (ComputeMerkleRoot ys)"
  shows "xs = ys \<or> node_collision"
proof (cases "xs = []")
  case True
  then show ?thesis using assms(1) by simp
next
  case False
  then have ys: "ys \<noteq> []" using assms(1) by auto
  have "(level ^^ depth (length xs)) xs = (level ^^ depth (length ys)) ys"
    using assms(2) False ys
    by (simp add: ComputeMerkleRoot_mroot levels_mroot depth_bound)
  then show ?thesis using levels_inj assms(1) by metis
qed

section \<open>The mutation flag\<close>

lemma merkle_loop_flag: "snd (merkle_loop hs True)"
proof -
  have "flag \<Longrightarrow> snd (merkle_loop hs flag)" for flag
    by (induction hs flag rule: merkle_loop.induct)
      (simp add: merkle_loop.simps mark_mutated_iff)
  then show ?thesis by simp
qed

text \<open>
  Repeating the last hash of an odd list keeps the root, and the repetition is reported.
\<close>

lemma duplicated_last:
  assumes "odd (length hs)" "1 < length hs"
  shows "root (ComputeMerkleRoot (hs @ [last hs])) = root (ComputeMerkleRoot hs)"
    and "mutated (ComputeMerkleRoot (hs @ [last hs]))"
proof -
  let ?hs = "hs @ [last hs]"
  have l: "next_level ?hs = next_level hs" using assms by (simp add: next_level_eq level_odd)
  have fl: "fst (merkle_loop ?hs False) = fst (merkle_loop hs False)"
  proof -
    have "depth (length ?hs) = depth (length hs)"
    proof -
      have "(length ?hs + 1) div 2 = (length hs + 1) div 2" "\<not> length ?hs \<le> 1" "\<not> length hs \<le> 1"
        using assms by (auto elim!: oddE)
      then show ?thesis by (simp only: depth.simps [of "length ?hs"] depth.simps [of "length hs"] if_False)
    qed
    moreover obtain k where "depth (length hs) = Suc k" using assms by (simp add: depth.simps [of "length hs"])
    moreover have "level ?hs = level hs" using assms by (simp add: level_odd)
    ultimately show ?thesis by (simp add: merkle_loop_levels funpow_swap1)
  qed
  then show "root (ComputeMerkleRoot ?hs) = root (ComputeMerkleRoot hs)"
    by (simp only: ComputeMerkleRoot_parts)
  have "\<exists>k < length ?hs div 2. ?hs ! (2 * k) = ?hs ! (2 * k + 1)"
  proof (intro exI conjI)
    let ?k = "length hs div 2"
    have k: "2 * ?k + 1 = length hs" using assms(1) by (metis odd_two_times_div_two_succ)
    show "?k < length ?hs div 2" using k by simp
    have "hs \<noteq> []" using assms(2) by auto
    moreover have "length hs - 1 = 2 * ?k" using k by linarith
    ultimately have "last hs = hs ! (2 * ?k)" by (metis last_conv_nth)
    moreover have "2 * ?k < length hs" using k by linarith
    ultimately show "?hs ! (2 * ?k) = ?hs ! (2 * ?k + 1)"
      unfolding k by (simp add: nth_append)
  qed
  then have "mark_mutated ?hs False" by (simp only: mark_mutated_iff simp_thms)
  then have "snd (merkle_loop ?hs False)"
    using assms(2) merkle_loop_flag by (auto simp: merkle_loop.simps [of ?hs])
  then show "mutated (ComputeMerkleRoot ?hs)"
    by (simp only: ComputeMerkleRoot_parts)
qed

section \<open>Properties\<close>

text \<open>C24: The level-by-level loop computes the Merkle root defined by recursion on the depth of the
  tree, in which an odd level repeats its last node; the root of no hashes is zero.\<close>

theorem ComputeMerkleRoot_tree:
  "root (ComputeMerkleRoot hs) = (if hs = [] then UInt256_zero else mroot (depth (length hs)) hs)"
  by (rule ComputeMerkleRoot_mroot)



text \<open>The duplicate-transaction ambiguity is reported: repeating the last hash of a list of odd
  length leaves the root unchanged, and the result is flagged as mutated.\<close>

theorem duplicated_last_flagged:
  assumes "odd (length hs)" "1 < length hs"
  shows "root (ComputeMerkleRoot (hs @ [last hs])) = root (ComputeMerkleRoot hs) \<and>
    mutated (ComputeMerkleRoot (hs @ [last hs]))"
  using duplicated_last [OF assms] by blast

theorem duplicated_last_flagged_witness:
  "mutated (ComputeMerkleRoot [UInt256_zero, UInt256_zero, UInt256_zero, UInt256_zero])"
  using duplicated_last_flagged [of "[UInt256_zero, UInt256_zero, UInt256_zero]"] by simp

end
