(* ===== verification/BlockBuilder.thy ===== *)
theory BlockBuilder
  imports Gbt Coinbase Merkle Header
begin

text \<open>
  \<open>src/block_builder.h\<close> and \<open>src/block_builder.cpp\<close>: hexadecimal decoding with the exceptions
  of this file, validation of the template's transactions against their identifiers and of the
  witness commitment, and the assembly of a block candidate. The last sections show exactly when a
  candidate is built, what it is, and what a template accepted by the parser leaves to fail.
\<close>

record BlockCandidate =
  bc_header :: BlockHeader
  bc_coinbase :: CoinbaseTransaction
  bc_serialized_block :: bytes

definition block_HexDigit :: "char \<Rightarrow> string \<Rightarrow> byte res" where
  "block_HexDigit v field = digit_or_throw (BlockBuildException (field @ '' contains non-hex characters'')) v"

definition DecodeHex :: "string \<Rightarrow> string \<Rightarrow> bytes res" where
  "DecodeHex hex field =
    rbind (throw_if (odd (length hex))
      (BlockBuildException (field @ '' must contain an even number of hex digits''))) (\<lambda>_.
    rmap (\<lambda>i. rbind (block_HexDigit (hex ! (2 * i)) field) (\<lambda>high.
              rbind (block_HexDigit (hex ! (2 * i + 1)) field) (\<lambda>low.
              ok (push_bit 4 high OR low))))
      [0..<length hex div 2])"

definition decode_transaction :: "nat \<times> TemplateTransaction \<Rightarrow> bytes res" where
  "decode_transaction = (\<lambda>(i, transaction).
    rbind (DecodeHex (tx_data_hex transaction) ''template transaction data'') (\<lambda>raw.
    rbind (throw_if (DoubleSha256 raw \<noteq> tx_wtxid transaction)
      (BlockBuildException (''template transaction '' @ to_string i @
        '' data does not match supplied wtxid''))) (\<lambda>_.
    ok raw)))"

definition DecodeAndValidateTemplateTransactions :: "BlockTemplate \<Rightarrow> bytes \<Rightarrow> bytes list res" where
  "DecodeAndValidateTemplateTransactions t witness_commitment =
    (let txs = bt_transactions t
     in rbind (rmap decode_transaction (zip [0..<length txs] txs)) (\<lambda>raw_transactions.
        let witness_leaves = UInt256_zero # map tx_wtxid txs
        in rbind (throw_if (length witness_commitment \<noteq> 38)
             (BlockBuildException ''witness commitment script must be exactly 38 bytes'')) (\<lambda>_.
        let witness_merkle = ComputeMerkleRoot witness_leaves;
            commitment_preimage = splice 0 (bytes_of (root witness_merkle)) (replicate 64 0);
            expected_commitment = DoubleSha256 commitment_preimage
        in rbind (throw_if (\<exists>i \<in> set [0..<32]. witness_commitment ! (6 + i) \<noteq> bytes_of expected_commitment ! i)
             (BlockBuildException ''default_witness_commitment does not match template transactions'')) (\<lambda>_.
        ok raw_transactions))))"

definition BuildBlockCandidate :: "BlockTemplate \<Rightarrow> bytes \<Rightarrow> bytes \<Rightarrow> BlockCandidate res" where
  "BuildBlockCandidate t payout_script extranonce =
    rbind (throw_if (bt_height t = 0 \<or> bt_height t > 0xffffffff)
      (BlockBuildException ''template height is outside the supported range'')) (\<lambda>_.
    rbind (throw_if (bt_coinbase_value t > 0x7fffffffffffffff)
      (BlockBuildException ''template coinbase value exceeds int64 range'')) (\<lambda>_.
    rbind (DecodeHex (bt_coinbase_aux_flags t) ''coinbaseaux.flags'') (\<lambda>coinbase_aux.
    rbind (DecodeHex (bt_witness_commitment_hex t) ''default_witness_commitment'') (\<lambda>witness_commitment.
    rbind (BuildCoinbaseTransaction (ucast (bt_height t)) (bt_coinbase_value t) payout_script
      coinbase_aux extranonce witness_commitment) (\<lambda>coinbase.
    let merkle = ComputeMerkleRoot (txid coinbase # map tx_txid (bt_transactions t))
    in rbind (throw_if (mutated merkle)
         (BlockBuildException ''template transaction set has a mutated merkle tree'')) (\<lambda>_.
    rbind (DecodeAndValidateTemplateTransactions t witness_commitment) (\<lambda>raw_transactions.
    let header = \<lparr>h_version = bt_version t, h_previous_block = bt_previous_block_hash t,
          h_merkle_root = root merkle, h_time = bt_current_time t, h_bits = bt_bits t,
          h_nonce = bt_nonce_min t\<rparr>;
        block = AppendBytes [] (Serialize header);
        block = AppendCompactSize block (of_nat (1 + length (bt_transactions t)));
        block = AppendBytes block (serialized_with_witness coinbase);
        block = foldl AppendBytes block raw_transactions
    in rbind (throw_if (of_nat (length block) > bt_size_limit t)
         (BlockBuildException ''candidate block exceeds template serialized-byte limit'')) (\<lambda>_.
       ok \<lparr>bc_header = header, bc_coinbase = coinbase, bc_serialized_block = block\<rparr>))))))))"

section \<open>Decoding\<close>

lemma block_HexDigit_iff: "block_HexDigit c field = Inr d \<longleftrightarrow> 0 \<le> HexDigit c \<and> d = word_of_int (HexDigit c)"
  by (simp add: block_HexDigit_def digit_or_throw_iff)

lemma rmap_map: "rmap f (map g xs) = rmap (\<lambda>x. f (g x)) xs"
  by (induction xs) simp_all

lemma digit_pairs_decode:
  "even (length hex) \<Longrightarrow>
    rmap (\<lambda>i. rbind (block_HexDigit (hex ! (2 * i)) field) (\<lambda>high.
              rbind (block_HexDigit (hex ! (2 * i + 1)) field) (\<lambda>low. ok (push_bit 4 high OR low))))
      [0..<length hex div 2] = Inr bs \<longleftrightarrow> hex_decode hex = Some bs"
proof (induction hex arbitrary: bs rule: hex_decode.induct)
  case (3 a b cs)
  have "[0..<length (a # b # cs) div 2] = 0 # map Suc [0..<length cs div 2]"
    by (simp add: upt_conv_Cons map_Suc_upt del: upt_Suc)
  then show ?case using 3
    by (auto simp: rmap_map rbind_Inr_iff block_HexDigit_iff hex_pair_eq)
qed auto

lemma DecodeHex_iff: "DecodeHex hex field = Inr bs \<longleftrightarrow> hex_decode hex = Some bs"
proof (cases "even (length hex)")
  case True
  then show ?thesis using digit_pairs_decode [OF True, of field bs] by (simp add: DecodeHex_def)
next
  case False
  then show ?thesis using hex_decode_length [of hex bs] by (auto simp: DecodeHex_def)
qed

section \<open>When a candidate is built\<close>

definition raws_match :: "TemplateTransaction list \<Rightarrow> bytes list \<Rightarrow> bool" where
  "raws_match txs raws \<longleftrightarrow>
    list_all2 (\<lambda>tx raw. hex_decode (tx_data_hex tx) = Some raw \<and> DoubleSha256 raw = tx_wtxid tx) txs raws"

text \<open>The BIP141 commitment: root over the witness identifiers, zero for the coinbase, and 32 zero bytes.\<close>

definition expected_commitment :: "TemplateTransaction list \<Rightarrow> UInt256" where
  "expected_commitment txs =
    DoubleSha256 (bytes_of (root (ComputeMerkleRoot (UInt256_zero # map tx_wtxid txs))) @ replicate 32 0)"

lemma decode_transactions_iff:
  "rmap decode_transaction (zip [0..<length txs] txs) = Inr raws \<longleftrightarrow> raws_match txs raws"
  unfolding rmap_Inr_iff raws_match_def
  by (auto simp: list_all2_conv_all_nth decode_transaction_def rbind_Inr_iff DecodeHex_iff)

lemma commitment_tail_iff:
  "length c = 38 \<Longrightarrow> (\<exists>i \<in> set [0..<32]. c ! (6 + i) \<noteq> bytes_of u ! i) \<longleftrightarrow> drop 6 c \<noteq> bytes_of u"
  by (auto simp: list_eq_iff_nth_eq)

lemma DecodeAndValidate_iff:
  "DecodeAndValidateTemplateTransactions t c = Inr raws \<longleftrightarrow>
    raws_match (bt_transactions t) raws \<and> length c = 38 \<and>
    drop 6 c = bytes_of (expected_commitment (bt_transactions t))"
proof -
  let ?u = "expected_commitment (bt_transactions t)" and ?r = "ComputeMerkleRoot (UInt256_zero # map tx_wtxid (bt_transactions t))"
  have "splice 0 (bytes_of (root ?r)) (replicate 64 (0 :: byte)) = bytes_of (root ?r) @ replicate 32 0"
    by (simp add: splice_def)
  then have e: "DoubleSha256 (splice 0 (bytes_of (root ?r)) (replicate 64 0)) = ?u"
    by (simp add: expected_commitment_def)
  show ?thesis
    unfolding DecodeAndValidateTemplateTransactions_def Let_def e
    using commitment_tail_iff [of c ?u]
    by (auto simp: rbind_Inr_iff decode_transactions_iff)
qed

text \<open>The header of a candidate and its bytes, as functions of the template, the coinbase and the
  raw transactions.\<close>

definition candidate_header :: "BlockTemplate \<Rightarrow> CoinbaseTransaction \<Rightarrow> BlockHeader" where
  "candidate_header t cb =
    \<lparr>h_version = bt_version t, h_previous_block = bt_previous_block_hash t,
     h_merkle_root = root (ComputeMerkleRoot (txid cb # map tx_txid (bt_transactions t))),
     h_time = bt_current_time t, h_bits = bt_bits t, h_nonce = bt_nonce_min t\<rparr>"

definition candidate_bytes :: "BlockTemplate \<Rightarrow> CoinbaseTransaction \<Rightarrow> bytes list \<Rightarrow> bytes" where
  "candidate_bytes t cb raws = Serialize (candidate_header t cb) @
    compact_bytes (of_nat (1 + length (bt_transactions t))) @ serialized_with_witness cb @ concat raws"

lemma foldl_AppendBytes: "foldl AppendBytes out bss = out @ concat bss"
  by (induction bss arbitrary: out) (simp_all add: AppendBytes_def)

lemma BuildBlockCandidate_iff:
  "BuildBlockCandidate t payout extranonce = Inr c \<longleftrightarrow>
    (\<exists>aux commitment cb raws.
      0 < bt_height t \<and> bt_height t \<le> 0xffffffff \<and> bt_coinbase_value t \<le> 0x7fffffffffffffff \<and>
      hex_decode (bt_coinbase_aux_flags t) = Some aux \<and>
      hex_decode (bt_witness_commitment_hex t) = Some commitment \<and>
      BuildCoinbaseTransaction (ucast (bt_height t)) (bt_coinbase_value t) payout aux extranonce commitment = Inr cb \<and>
      \<not> mutated (ComputeMerkleRoot (txid cb # map tx_txid (bt_transactions t))) \<and>
      raws_match (bt_transactions t) raws \<and> length commitment = 38 \<and>
      drop 6 commitment = bytes_of (expected_commitment (bt_transactions t)) \<and>
      of_nat (length (candidate_bytes t cb raws)) \<le> bt_size_limit t \<and>
      c = \<lparr>bc_header = candidate_header t cb, bc_coinbase = cb,
           bc_serialized_block = candidate_bytes t cb raws\<rparr>)"
  unfolding BuildBlockCandidate_def Let_def candidate_bytes_def candidate_header_def
    AppendCompactSize_eq foldl_AppendBytes
  by (simp add: rbind_Inr_iff DecodeHex_iff DecodeAndValidate_iff AppendBytes_def not_less
      word_neq_0_conv [symmetric] conj_assoc) blast

section \<open>What a parsed template leaves to fail\<close>

lemma sint_nonneg: "(v :: u64) \<le> 0x7fffffffffffffff \<Longrightarrow> 0 \<le> sint v"
proof -
  assume "v \<le> 0x7fffffffffffffff"
  then have "uint v < 2 ^ 63" by (simp add: word_le_def)
  moreover have "- (2 ^ 63) \<le> uint v" by (rule order_trans [of _ 0]) simp_all
  ultimately have "signed_take_bit 63 (uint v) = uint v" by (intro signed_take_bit_int_eq_self)
  then show ?thesis by (simp add: sint_uint)
qed

lemma ucast_height: "0 < (h :: u64) \<Longrightarrow> h \<le> 0xffffffff \<Longrightarrow> (ucast h :: u32) \<noteq> 0"
proof
  assume h: "0 < h" "h \<le> 0xffffffff" and "(ucast h :: u32) = 0"
  then have "unat (ucast h :: u32) = 0" by simp
  moreover have "unat h < 2 ^ 32" using h(2) by (simp add: word_le_nat_alt)
  ultimately have "unat h = 0" by (simp add: unsigned_ucast_eq take_bit_nat_eq_self)
  then show False using h(1) by (simp add: unat_eq_zero)
qed

lemma BuildCoinbaseTransaction_Inl:
  assumes "BuildCoinbaseTransaction height v payout aux extranonce commitment = Inl e"
    and "height \<noteq> 0" "0 \<le> sint v" "commitment_ok commitment"
  shows "e = CoinbaseException ''coinbase scriptSig must be between 2 and 100 bytes''"
proof -
  obtain p where p: "BuildBip34HeightPrefix height = Inr p"
    using BuildBip34HeightPrefix_result [of height] assms(2) by (cases "height \<le> 16") auto
  moreover have "ValidateWitnessCommitment commitment = Inr ()"
    using assms(4) by (simp add: ValidateWitnessCommitment_iff)
  ultimately show ?thesis
    using assms(1-3) unfolding BuildCoinbaseTransaction_def Let_def
    by (simp add: rbind_Inl_iff)
qed

lemma rmap_Inl: "rmap f xs = Inl e \<Longrightarrow> \<exists>x \<in> set xs. f x = Inl e"
  by (induction xs) (auto simp: rbind_Inl_iff rbind_Inr_iff)

text \<open>The errors that remain possible for a template the parser has accepted.\<close>

definition candidate_errors :: "BlockTemplate \<Rightarrow> exn list" where
  "candidate_errors t =
    [BlockBuildException ''template height is outside the supported range'',
     BlockBuildException ''template coinbase value exceeds int64 range'',
     CoinbaseException ''coinbase scriptSig must be between 2 and 100 bytes'',
     BlockBuildException ''template transaction set has a mutated merkle tree'',
     BlockBuildException ''default_witness_commitment does not match template transactions'',
     BlockBuildException ''candidate block exceeds template serialized-byte limit'']
    @ map (\<lambda>i. BlockBuildException (''template transaction '' @ to_string i @
        '' data does not match supplied wtxid'')) [0..<length (bt_transactions t)]"

lemma decode_transaction_Inl:
  assumes "\<forall>i < length txs. \<exists>raw. hex_decode (tx_data_hex (txs ! i)) = Some raw"
    and "rmap decode_transaction (zip [0..<length txs] txs) = Inl e"
  shows "\<exists>i < length txs. e = BlockBuildException (''template transaction '' @ to_string i @
        '' data does not match supplied wtxid'')"
proof -
  obtain i where i: "i < length txs" "decode_transaction (i, txs ! i) = Inl e"
    using rmap_Inl [OF assms(2)] by (auto simp: in_set_zip)
  obtain raw where "hex_decode (tx_data_hex (txs ! i)) = Some raw" using assms(1) i(1) by blast
  then have "DecodeHex (tx_data_hex (txs ! i)) f = Inr raw" for f by (simp add: DecodeHex_iff)
  then have "e = BlockBuildException (''template transaction '' @ to_string i @
        '' data does not match supplied wtxid'')"
    using i(2) by (simp add: decode_transaction_def rbind_Inl_iff)
  then show ?thesis using i(1) by blast
qed

lemma BuildBlockCandidate_errors:
  assumes v: "valid_template t" and e: "BuildBlockCandidate t payout extranonce = Inl e"
  shows "e \<in> set (candidate_errors t)"
proof (rule ccontr)
  assume n: "e \<notin> set (candidate_errors t)"
  obtain aux c where aux: "hex_decode (bt_coinbase_aux_flags t) = Some aux"
    and c: "hex_decode (bt_witness_commitment_hex t) = Some c" "commitment_ok c"
    using v by (auto simp: valid_template_def commitment_ok_def commitment_prefix_def)
  have d: "DecodeHex (bt_coinbase_aux_flags t) f = Inr aux" "DecodeHex (bt_witness_commitment_hex t) f = Inr c" for f
    using aux c by (simp_all add: DecodeHex_iff)
  have h: "0 < bt_height t" "bt_height t \<le> 0xffffffff" "bt_coinbase_value t \<le> 0x7fffffffffffffff"
    using e n v by (auto simp: BuildBlockCandidate_def candidate_errors_def rbind_Inl_iff not_less valid_template_def)
  have h0: "bt_height t \<noteq> 0" "\<not> bt_height t > 0xffffffff" "\<not> bt_coinbase_value t > 0x7fffffffffffffff"
    using h by auto
  note start = BuildBlockCandidate_def d h0 throw_if_simps rbind_simps simp_thms if_False
  obtain cb where cb: "BuildCoinbaseTransaction (ucast (bt_height t)) (bt_coinbase_value t) payout aux extranonce c = Inr cb"
  proof (cases "BuildCoinbaseTransaction (ucast (bt_height t)) (bt_coinbase_value t) payout aux extranonce c")
    case (Inl a)
    then have "BuildBlockCandidate t payout extranonce = Inl a" by (simp only: start)
    then have "e = a" using e by simp
    moreover have "a = CoinbaseException ''coinbase scriptSig must be between 2 and 100 bytes''"
      by (rule BuildCoinbaseTransaction_Inl [OF Inl ucast_height [OF h(1,2)] sint_nonneg [OF h(3)] c(2)])
    ultimately show ?thesis using n by (simp add: candidate_errors_def)
  qed
  have hex: "\<forall>i < length (bt_transactions t). \<exists>raw. hex_decode (tx_data_hex (bt_transactions t ! i)) = Some raw"
    using v by (auto simp: valid_template_def valid_transaction_def)
  obtain raws where raws: "rmap decode_transaction (zip [0..<length (bt_transactions t)] (bt_transactions t)) = Inr raws"
  proof (cases "rmap decode_transaction (zip [0..<length (bt_transactions t)] (bt_transactions t))")
    case (Inl e')
    then obtain i where "i < length (bt_transactions t)" "e' = BlockBuildException (''template transaction '' @
        to_string i @ '' data does not match supplied wtxid'')"
      using decode_transaction_Inl [OF hex Inl] by blast
    then have "e' \<in> set (candidate_errors t)" by (auto simp: candidate_errors_def)
    moreover have "e = e' \<or> e \<in> set (candidate_errors t)"
      using e cb Inl unfolding start
      by (auto simp: DecodeAndValidateTemplateTransactions_def candidate_errors_def Let_def throw_if_def split: if_splits)
    ultimately show ?thesis using n by blast
  qed
  show False
    using e n cb raws c(2) unfolding start
    by (auto simp: DecodeAndValidateTemplateTransactions_def candidate_errors_def
        Let_def throw_if_def commitment_ok_def split: if_splits)
qed

section \<open>A template with a candidate\<close>

definition sample_block_template :: BlockTemplate where
  "sample_block_template =
    \<lparr>bt_version = 0x20000000, bt_rules = [''!segwit''], bt_previous_block_hash = UInt256_zero,
     bt_transactions = [], bt_coinbase_aux_flags = [], bt_coinbase_value = 5000000000,
     bt_longpoll_id = ''tip1'', bt_submit_old = None, bt_target = UInt256 (1 # replicate 31 0),
     bt_bits = 0x03000001, bt_minimum_time = 1, bt_current_time = 2, bt_height = 1,
     bt_nonce_min = 0, bt_nonce_max = 0xffffffff, bt_sigop_limit = 80000, bt_size_limit = 4000000,
     bt_weight_limit = None,
     bt_witness_commitment_hex = hex_encode (commitment_prefix @ bytes_of (expected_commitment []))\<rparr>"

lemma sample_block_template_valid: "valid_template sample_block_template"
proof -
  have "rules_match [''!segwit''] ''segwit''" by code_simp
  moreover have "value_of (UInt256 (1 # replicate 31 0)) = 1" by (simp add: value_of_def)
  moreover have "compact_value 0x03000001 = 1"
    by (simp add: compact_value_def compact_size_def compact_mantissa_def Let_def)
  moreover have "length commitment_prefix = 6" by (simp add: commitment_prefix_def)
  ultimately show ?thesis
    by (simp add: valid_template_def sample_block_template_def HasTemplateRule_def flip: commitment_prefix_def)
qed

lemma ComputeMerkleRoot_single: "\<not> mutated (ComputeMerkleRoot [h])"
  by (simp add: ComputeMerkleRoot_def merkle_loop.simps)

lemma sample_candidate_for:
  assumes "length extranonce = 8" "length payout \<le> 100"
  shows "\<exists>c. BuildBlockCandidate sample_block_template payout extranonce = Inr c"
proof -
  let ?c = "commitment_prefix @ bytes_of (expected_commitment [])"
  have l: "length (coinbase_sig 1 [] extranonce) = 9" using assms(1) by (simp add: coinbase_sig_def)
  have ck: "commitment_ok ?c" "length ?c = 38" "drop 6 ?c = bytes_of (expected_commitment [])"
    by (simp_all add: commitment_ok_def commitment_prefix_def)
  then obtain cb where cb: "BuildCoinbaseTransaction 1 5000000000 payout [] extranonce ?c = Inr cb"
    using l by (simp add: BuildCoinbaseTransaction_iff)
  have s: "serialized_with_witness cb = witness_bytes 1 (coinbase_sig 1 [] extranonce) 5000000000 payout ?c"
    using cb by (simp add: BuildCoinbaseTransaction_iff Let_def)
  have "length (candidate_bytes sample_block_template cb []) \<le> 1000"
    unfolding candidate_bytes_def s
    using l ck(2) assms(2) by (simp add: witness_bytes_def body_bytes_def input_bytes_def output_bytes_def
        length_compact_bytes sample_block_template_def)
  then have "(of_nat (length (candidate_bytes sample_block_template cb [])) :: u64) \<le> 4000000"
    by (simp add: word_le_nat_alt unat_of_nat_small)
  then show ?thesis
    unfolding BuildBlockCandidate_iff
    using cb ck by (auto simp: sample_block_template_def raws_match_def ComputeMerkleRoot_single)
qed

lemma sample_candidate:
  "length extranonce = 8 \<Longrightarrow> \<exists>c. BuildBlockCandidate sample_block_template [0x51] extranonce = Inr c"
  by (rule sample_candidate_for) simp_all

section \<open>Properties\<close>



text \<open>For a template the parser has accepted no decoding error is left: if no candidate is built,
  the height or value is out of range, the coinbase script has a wrong size, the Merkle tree is
  mutated, a transaction does not hash to its identifier, the witness commitment does not match or
  the block is too large.\<close>

theorem BuildBlockCandidate_fails_only:
  assumes "valid_template t" "BuildBlockCandidate t payout extranonce = Inl e"
  shows "e \<in> set (candidate_errors t)"
  using assms by (rule BuildBlockCandidate_errors)

theorem BuildBlockCandidate_fails_only_witness:
  "BlockBuildException ''template height is outside the supported range''
    \<in> set (candidate_errors (sample_block_template\<lparr>bt_height := 0x100000000\<rparr>))"
proof (rule BuildBlockCandidate_fails_only)
  show "valid_template (sample_block_template\<lparr>bt_height := 0x100000000\<rparr>)"
    using sample_block_template_valid by (simp add: valid_template_def HasTemplateRule_def)
  show "BuildBlockCandidate (sample_block_template\<lparr>bt_height := 0x100000000\<rparr>) [] [] =
      Inl (BlockBuildException ''template height is outside the supported range'')"
    by (simp add: BuildBlockCandidate_def)
qed

end
