(* ===== verification/CandidateMiner.thy ===== *)
theory CandidateMiner
  imports Scanner BlockBuilder
begin

text \<open>
  \<open>src/candidate_miner.h\<close> and \<open>src/candidate_miner.cpp\<close>: a candidate block is checked against its
  header, its nonces are scanned, and a solution is written into the block.
\<close>

definition SERIALIZED_SIZE :: nat where
  "SERIALIZED_SIZE = 80"

definition ValidateBlockCandidateForMining :: "BlockCandidate \<Rightarrow> unit res" where
  "ValidateBlockCandidateForMining candidate =
    rbind (throw_if (length (bc_serialized_block candidate) < SERIALIZED_SIZE)
      (InvalidArgument ''candidate block is shorter than its header'')) (\<lambda>_.
    let original_header = Serialize (bc_header candidate)
    in throw_if (take (length original_header) (bc_serialized_block candidate) \<noteq> original_header)
      (InvalidArgument ''candidate header does not match serialized block''))"

definition ApplySolvedNonce :: "BlockCandidate \<Rightarrow> u32 \<Rightarrow> BlockCandidate" where
  "ApplySolvedNonce candidate nonce =
    (let candidate = candidate\<lparr>bc_header := (bc_header candidate)\<lparr>h_nonce := nonce\<rparr>\<rparr>;
         solved_header = Serialize (bc_header candidate)
     in candidate\<lparr>bc_serialized_block := splice 0 solved_header (bc_serialized_block candidate)\<rparr>)"

definition MineBlockCandidate :: "bytes \<Rightarrow> BlockCandidate \<Rightarrow> UInt256 \<Rightarrow> u32 \<Rightarrow> u32 \<Rightarrow> flag \<Rightarrow>
    (ScanResult \<times> BlockCandidate \<times> bytes) option res" where
  "MineBlockCandidate scratchpad candidate target nonce_begin nonce_end cancelled =
    rbind (ValidateBlockCandidateForMining candidate) (\<lambda>_.
    rbind (Scan scratchpad (bc_header candidate) target nonce_begin nonce_end cancelled None None None) (\<lambda>scanned.
    ok (case scanned of
          None \<Rightarrow> None
        | Some (result, scratchpad, _) \<Rightarrow>
            if sr_status result \<noteq> FOUND then Some (result, candidate, scratchpad)
            else Some (result, ApplySolvedNonce candidate (sr_nonce result), scratchpad))))"

section \<open>The invariant of a candidate\<close>

definition candidate_ok :: "BlockCandidate \<Rightarrow> bool" where
  "candidate_ok c \<longleftrightarrow> 80 \<le> length (bc_serialized_block c) \<and> take 80 (bc_serialized_block c) = Serialize (bc_header c)"

lemma Validate_iff: "ValidateBlockCandidateForMining c = Inr u \<longleftrightarrow> candidate_ok c"
  by (auto simp: ValidateBlockCandidateForMining_def candidate_ok_def SERIALIZED_SIZE_def Let_def rbind_Inr_iff)

lemma BuildBlockCandidate_ok: "BuildBlockCandidate t payout extranonce = Inr c \<Longrightarrow> candidate_ok c"
  unfolding BuildBlockCandidate_iff by (elim exE conjE) (simp add: candidate_ok_def candidate_bytes_def)

lemma ApplySolvedNonce_block:
  assumes "candidate_ok c"
  shows "bc_serialized_block (ApplySolvedNonce c nonce) =
    Serialize ((bc_header c)\<lparr>h_nonce := nonce\<rparr>) @ drop 80 (bc_serialized_block c)"
    and "bc_header (ApplySolvedNonce c nonce) = (bc_header c)\<lparr>h_nonce := nonce\<rparr>"
    and "bc_coinbase (ApplySolvedNonce c nonce) = bc_coinbase c" "candidate_ok (ApplySolvedNonce c nonce)"
  using assms by (simp_all add: ApplySolvedNonce_def Let_def splice_def candidate_ok_def)

lemma nonce_hash_block:
  "candidate_ok c \<Longrightarrow> nonce_hash (bc_header c) nonce =
    UInt256 (mercahash_spec (take 80 (bc_serialized_block (ApplySolvedNonce c nonce))) V1_PARAMS)"
  by (simp add: ApplySolvedNonce_block nonce_hash_def)

lemma MineBlockCandidate_result:
  assumes "BuildBlockCandidate t payout extranonce = Inr c" "length pad = SCRATCHPAD_BYTES" "nonce_begin \<le> nonce_end"
  shows "\<exists>r c' pad'. MineBlockCandidate pad c target nonce_begin nonce_end cancelled = Inr (Some (r, c', pad')) \<and>
    scan_report (poll_cancelled cancelled None None) (bc_header c) target (unat nonce_begin) (unat nonce_end) r \<and>
    (if sr_status r = FOUND
     then c' = ApplySolvedNonce c (sr_nonce r) \<and>
       value_of (UInt256 (mercahash_spec (take 80 (bc_serialized_block c')) V1_PARAMS)) \<le> value_of target
     else c' = c)"
proof -
  note ok = BuildBlockCandidate_ok [OF assms(1)]
  obtain r pad' live' where s: "Scan pad (bc_header c) target nonce_begin nonce_end cancelled None None None = Inr (Some (r, pad', live'))"
    "scan_report (poll_cancelled cancelled None None) (bc_header c) target (unat nonce_begin) (unat nonce_end) r"
    using Scan_reports [OF assms(2,3), of "bc_header c" target cancelled None None None] by blast
  have v: "ValidateBlockCandidateForMining c = Inr ()" using ok by (simp add: Validate_iff)
  have f: "value_of (UInt256 (mercahash_spec (take 80 (bc_serialized_block (ApplySolvedNonce c (sr_nonce r)))) V1_PARAMS))
      \<le> value_of target" if "sr_status r = FOUND"
  proof -
    have "solves (bc_header c) target (unat (sr_nonce r))" using s(2) that by (simp add: scan_report_def Let_def)
    then show ?thesis using nonce_hash_block [OF ok, of "sr_nonce r"] by (simp add: solves_def)
  qed
  then show ?thesis using s by (simp add: MineBlockCandidate_def v)
qed

section \<open>Properties\<close>

text \<open>Every candidate the block builder returns passes the check of the miner, and applying a nonce
  keeps it valid, changes the last four bytes of the header only and leaves the coinbase, the Merkle
  root and the rest of the block as they were.\<close>

theorem ApplySolvedNonce_keeps_block:
  assumes "BuildBlockCandidate t payout extranonce = Inr c"
  shows "ValidateBlockCandidateForMining c = Inr () \<and>
    ValidateBlockCandidateForMining (ApplySolvedNonce c nonce) = Inr () \<and>
    bc_serialized_block (ApplySolvedNonce c nonce) =
      take 76 (bc_serialized_block c) @ le_bytes 4 nonce @ drop 80 (bc_serialized_block c) \<and>
    h_merkle_root (bc_header (ApplySolvedNonce c nonce)) = h_merkle_root (bc_header c) \<and>
    bc_coinbase (ApplySolvedNonce c nonce) = bc_coinbase c"
proof -
  note c = BuildBlockCandidate_ok [OF assms]
  have "Serialize (bc_header c) = take 80 (bc_serialized_block c)" using c by (simp add: candidate_ok_def)
  then have "take 76 (Serialize (bc_header c)) = take 76 (bc_serialized_block c)" by simp
  then show ?thesis using c ApplySolvedNonce_block [OF c] by (simp add: Validate_iff Serialize_nonce)
qed

theorem ApplySolvedNonce_keeps_block_witness:
  "\<exists>c. BuildBlockCandidate sample_block_template [0x51] (replicate 8 0) = Inr c \<and>
    ValidateBlockCandidateForMining (ApplySolvedNonce c 42) = Inr ()"
proof -
  obtain c where c: "BuildBlockCandidate sample_block_template [0x51] (replicate 8 0) = Inr c"
    using sample_candidate [of "replicate 8 0"] by auto
  then show ?thesis using ApplySolvedNonce_keeps_block [OF c, of 42] by blast
qed

text \<open>C19: Mining a built candidate returns the report of the scan; when a nonce is found it is written into
  the block, and the hash of the first 80 bytes of the block to be submitted meets the target.
  Otherwise the candidate is unchanged.\<close>

theorem MineBlockCandidate_solves:
  assumes "BuildBlockCandidate t payout extranonce = Inr c" "length pad = SCRATCHPAD_BYTES" "nonce_begin \<le> nonce_end"
  shows "\<exists>r c' pad'. MineBlockCandidate pad c target nonce_begin nonce_end cancelled = Inr (Some (r, c', pad')) \<and>
    scan_report (poll_cancelled cancelled None None) (bc_header c) target (unat nonce_begin) (unat nonce_end) r \<and>
    (if sr_status r = FOUND
     then c' = ApplySolvedNonce c (sr_nonce r) \<and>
       value_of (UInt256 (mercahash_spec (take 80 (bc_serialized_block c')) V1_PARAMS)) \<le> value_of target
     else c' = c)"
  using assms by (rule MineBlockCandidate_result)

theorem MineBlockCandidate_solves_witness:
  "\<exists>c r c' pad'. BuildBlockCandidate sample_block_template [0x51] (replicate 8 0) = Inr c \<and>
    MineBlockCandidate NonceScanner_new c (bt_target sample_block_template) 0 0xffffffff None = Inr (Some (r, c', pad'))"
proof -
  obtain c where c: "BuildBlockCandidate sample_block_template [0x51] (replicate 8 0) = Inr c"
    using sample_candidate [of "replicate 8 0"] by auto
  then show ?thesis
    using MineBlockCandidate_solves [OF c, of NonceScanner_new 0 "0xffffffff" "bt_target sample_block_template" None]
    by (force simp: NonceScanner_new_def)
qed

end
