(* ===== verification/ParallelMiner.thy ===== *)
theory ParallelMiner
  imports NoncePartition CandidateMiner
begin

text \<open>
  \<open>src/parallel_miner.h\<close> and \<open>src/parallel_miner.cpp\<close>: one thread per range of nonces, each scanning
  its range in chunks of eight nonces with its own scanner. The threads share the flag \<open>stop\<close>, which
  the finder of a solution sets, and three flags that other threads of the program may set at any time.

  A run is a sequence of steps of single threads, interleaved with stores to the flags. A step is one
  pass of a thread to its next access of a shared flag: a poll of \<open>refresh_requested\<close>, one iteration of
  \<open>Scan\<close> (the loads of its three flags taken at one instant, then the hash on the thread's own
  scratchpad) or the store to \<open>stop\<close>.
\<close>

record ParallelMineResult =
  pr_status :: ScanStatus
  pr_nonce :: u32
  pr_hash :: UInt256
  pr_hashes_checked :: u64
  pr_winning_worker :: "nat option"
  pr_active_workers :: nat

definition SOFT_REFRESH_CHUNK_NONCES :: u64 where
  "SOFT_REFRESH_CHUNK_NONCES = 8"

text \<open>The scratchpads of the scanners.\<close>

definition ParallelCandidateMiner_new :: "nat \<Rightarrow> bytes list res" where
  "ParallelCandidateMiner_new worker_count =
    rbind (throw_if (worker_count = 0) (InvalidArgument ''worker count must be greater than zero'')) (\<lambda>_.
    ok (replicate worker_count NonceScanner_new))"

text \<open>The memory of the scanners, saturating at the largest \<open>size_t\<close>.\<close>

fun scratchpad_total :: "bytes list \<Rightarrow> u64 \<Rightarrow> u64" where
  "scratchpad_total [] acc = acc"
| "scratchpad_total (scanner # scanners) acc =
    (let bytes = of_nat (length scanner)
     in if bytes > 0xffffffffffffffff - acc then 0xffffffffffffffff
        else scratchpad_total scanners (acc + bytes))"

definition ScratchpadBytes :: "bytes list \<Rightarrow> u64" where
  "ScratchpadBytes scanners = scratchpad_total scanners 0"

text \<open>
  Where a thread is: at the head of its loop with \<open>chunk_begin\<close> and \<open>worker_hashes\<close>; in \<open>Scan\<close> with
  \<open>chunk_end\<close>, the nonce, the hashes of this chunk and \<open>worker_hashes\<close>; after an exhausted chunk that
  is not the last, before the second poll of \<open>refresh_requested\<close>; after storing a result \<open>FOUND\<close>,
  before the store to \<open>stop\<close>; returned, with its entry of \<open>results\<close>.
\<close>

datatype worker =
    W_loop u32 u64
  | W_scan u32 u32 u64 u64
  | W_chunk_done u32 u64
  | W_found ScanResult
  | W_done ScanResult

record shared =
  sh_stop :: bool
  sh_cancelled :: "bool option"
  sh_cancelled_secondary :: "bool option"
  sh_refresh :: "bool option"
  sh_live_hashes :: "u64 option"

text \<open>A flag that is a null pointer is \<open>None\<close>.\<close>

definition raised :: "bool option \<Rightarrow> bool" where
  "raised fl \<longleftrightarrow> fl = Some True"

definition chunk_end_of :: "u32 \<Rightarrow> NonceRange \<Rightarrow> u32" where
  "chunk_end_of chunk_begin rng =
    (let proposed_end = ucast chunk_begin + SOFT_REFRESH_CHUNK_NONCES - 1
     in if proposed_end < (ucast (nr_end rng) :: u64) then ucast proposed_end else nr_end rng)"

text \<open>
  One step of a thread: its next place, its scratchpad whether it stores to \<open>stop\<close> and whether it
  increments \<open>live_hashes\<close>. \<open>None\<close> when
  the thread has returned, and when an assertion or an uncaught exception would end the program.
\<close>

definition worker_step :: "BlockHeader \<Rightarrow> UInt256 \<Rightarrow> NonceRange \<Rightarrow> shared \<Rightarrow> worker \<Rightarrow> bytes \<Rightarrow>
    (worker \<times> bytes \<times> bool \<times> bool) option" where
  "worker_step header target rng sh wk scratchpad = (case wk of
      W_loop chunk_begin worker_hashes \<Rightarrow>
        if raised (sh_refresh sh) then
          Some (W_done \<lparr>sr_status = CANCELLED, sr_nonce = chunk_begin, sr_hash = UInt256_zero,
            sr_hashes_checked = worker_hashes\<rparr>, scratchpad, False, False)
        else let chunk_end = chunk_end_of chunk_begin rng
          in if chunk_begin > chunk_end then None
             else Some (W_scan chunk_end chunk_begin 0 worker_hashes, scratchpad, False, False)
    | W_scan chunk_end nonce hashes_checked worker_hashes \<Rightarrow>
        if sh_stop sh \<or> raised (sh_cancelled sh) \<or> raised (sh_cancelled_secondary sh) then
          Some (W_done \<lparr>sr_status = CANCELLED, sr_nonce = nonce, sr_hash = UInt256_zero,
            sr_hashes_checked = SaturatingAdd worker_hashes hashes_checked\<rparr>, scratchpad, False, False)
        else case hash_nonce header nonce scratchpad of
          None \<Rightarrow> None
        | Some (scratchpad, hash) \<Rightarrow>
            let worker_hashes' = SaturatingAdd worker_hashes (hashes_checked + 1)
            in if MeetsTarget hash target then
                 Some (W_found \<lparr>sr_status = FOUND, sr_nonce = nonce, sr_hash = hash,
                   sr_hashes_checked = worker_hashes'\<rparr>, scratchpad, False, True)
               else if nonce = chunk_end then
                 (if chunk_end = nr_end rng
                  then Some (W_done \<lparr>sr_status = EXHAUSTED, sr_nonce = nonce, sr_hash = hash,
                         sr_hashes_checked = worker_hashes'\<rparr>, scratchpad, False, True)
                  else Some (W_chunk_done chunk_end worker_hashes', scratchpad, False, True))
               else Some (W_scan chunk_end (nonce + 1) (hashes_checked + 1) worker_hashes, scratchpad, False, True)
    | W_chunk_done chunk_end worker_hashes \<Rightarrow>
        if raised (sh_refresh sh) then
          Some (W_done \<lparr>sr_status = CANCELLED, sr_nonce = chunk_end, sr_hash = UInt256_zero,
            sr_hashes_checked = worker_hashes\<rparr>, scratchpad, False, False)
        else Some (W_loop (chunk_end + 1) worker_hashes, scratchpad, False, False)
    | W_found result \<Rightarrow> Some (W_done result, scratchpad, True, False)
    | W_done result \<Rightarrow> None)"

record mine_state =
  ms_workers :: "worker list"
  ms_pads :: "bytes list"
  ms_shared :: shared

definition Mine_start :: "NonceRange list \<Rightarrow> bytes list \<Rightarrow> bool option \<Rightarrow> bool option \<Rightarrow> bool option \<Rightarrow>
    u64 option \<Rightarrow> mine_state" where
  "Mine_start ranges pads cancelled cancelled_secondary refresh_requested live_hashes =
    \<lparr>ms_workers = map (\<lambda>range. W_loop (nr_begin range) 0) ranges, ms_pads = take (length ranges) pads,
     ms_shared = \<lparr>sh_stop = False, sh_cancelled = cancelled, sh_cancelled_secondary = cancelled_secondary,
       sh_refresh = refresh_requested, sh_live_hashes = live_hashes\<rparr>\<rparr>"

text \<open>The steps of the threads, and the stores of the rest of the program.\<close>

inductive work_step :: "BlockHeader \<Rightarrow> UInt256 \<Rightarrow> NonceRange list \<Rightarrow> mine_state \<Rightarrow> mine_state \<Rightarrow> bool"
  for header target ranges where
  work: "w < length (ms_workers S) \<Longrightarrow>
    worker_step header target (ranges ! w) (ms_shared S) (ms_workers S ! w) (ms_pads S ! w) = Some (wk, pad, stores, hashed) \<Longrightarrow>
    work_step header target ranges S
      (S\<lparr>ms_workers := (ms_workers S)[w := wk], ms_pads := (ms_pads S)[w := pad],
         ms_shared := (ms_shared S)\<lparr>sh_stop := sh_stop (ms_shared S) \<or> stores,
           sh_live_hashes := map_option (\<lambda>n. if hashed then n + 1 else n) (sh_live_hashes (ms_shared S))\<rparr>\<rparr>)"

inductive mine_step :: "BlockHeader \<Rightarrow> UInt256 \<Rightarrow> NonceRange list \<Rightarrow> mine_state \<Rightarrow> mine_state \<Rightarrow> bool"
  for header target ranges where
  thread: "work_step header target ranges S S' \<Longrightarrow> mine_step header target ranges S S'"
| store_cancelled: "sh_cancelled (ms_shared S) \<noteq> None \<Longrightarrow>
    mine_step header target ranges S (S\<lparr>ms_shared := (ms_shared S)\<lparr>sh_cancelled := Some v\<rparr>\<rparr>)"
| store_secondary: "sh_cancelled_secondary (ms_shared S) \<noteq> None \<Longrightarrow>
    mine_step header target ranges S (S\<lparr>ms_shared := (ms_shared S)\<lparr>sh_cancelled_secondary := Some v\<rparr>\<rparr>)"
| store_refresh: "sh_refresh (ms_shared S) \<noteq> None \<Longrightarrow>
    mine_step header target ranges S (S\<lparr>ms_shared := (ms_shared S)\<lparr>sh_refresh := Some v\<rparr>\<rparr>)"

text \<open>After the threads are joined: the entries of \<open>results\<close> become the result of \<open>Mine\<close>.\<close>

definition results_of :: "mine_state \<Rightarrow> ScanResult list option" where
  "results_of S = those (map (\<lambda>wk. case wk of W_done r \<Rightarrow> Some r | _ \<Rightarrow> None) (ms_workers S))"

definition pick_winner :: "ScanResult list \<Rightarrow> nat option" where
  "pick_winner results = fold (\<lambda>worker winner.
      if sr_status (results ! worker) \<noteq> FOUND then winner
      else case winner of
        None \<Rightarrow> Some worker
      | Some best \<Rightarrow> if sr_nonce (results ! worker) < sr_nonce (results ! best) then Some worker else winner)
    [0..<length results] None"

definition Mine_finish :: "BlockCandidate \<Rightarrow> u32 \<Rightarrow> ScanResult list \<Rightarrow> shared \<Rightarrow> ParallelMineResult \<times> BlockCandidate" where
  "Mine_finish candidate nonce_end results sh =
    (let active_workers = length results;
         total_hashes = fold (\<lambda>result total. SaturatingAdd total (sr_hashes_checked result)) results 0;
         stopped = \<lambda>status nonce. \<lparr>pr_status = status, pr_nonce = nonce, pr_hash = UInt256_zero,
           pr_hashes_checked = total_hashes, pr_winning_worker = None, pr_active_workers = active_workers\<rparr>
     in if raised (sh_cancelled sh) \<or> raised (sh_cancelled_secondary sh) then (stopped CANCELLED 0, candidate)
        else case pick_winner results of
          Some worker \<Rightarrow>
            let result = results ! worker
            in (\<lparr>pr_status = FOUND, pr_nonce = sr_nonce result, pr_hash = sr_hash result,
                 pr_hashes_checked = total_hashes, pr_winning_worker = Some worker,
                 pr_active_workers = active_workers\<rparr>, ApplySolvedNonce candidate (sr_nonce result))
        | None \<Rightarrow>
            if list_ex (\<lambda>result. sr_status result = CANCELLED) results then (stopped CANCELLED 0, candidate)
            else (stopped EXHAUSTED nonce_end, candidate))"

text \<open>\<open>Mine\<close> on a miner with scratchpads \<open>pads\<close>: its possible outcomes, with the flags as they are at the
  start, and the error of a candidate or a range that is not valid.\<close>

inductive Mine :: "bytes list \<Rightarrow> BlockCandidate \<Rightarrow> UInt256 \<Rightarrow> u32 \<Rightarrow> u32 \<Rightarrow> bool option \<Rightarrow> bool option \<Rightarrow> u64 option \<Rightarrow> bool option \<Rightarrow>
    (ParallelMineResult \<times> BlockCandidate) res \<Rightarrow> bool" where
  invalid: "ValidateBlockCandidateForMining candidate = Inl e \<Longrightarrow>
    Mine pads candidate target nonce_begin nonce_end c1 c2 live refresh (Inl e)"
| bad_range: "ValidateBlockCandidateForMining candidate = Inr () \<Longrightarrow>
    PartitionNonceRange nonce_begin nonce_end (of_nat (length pads)) = Inl e \<Longrightarrow>
    Mine pads candidate target nonce_begin nonce_end c1 c2 live refresh (Inl e)"
| joined: "ValidateBlockCandidateForMining candidate = Inr () \<Longrightarrow>
    PartitionNonceRange nonce_begin nonce_end (of_nat (length pads)) = Inr ranges \<Longrightarrow>
    (mine_step (bc_header candidate) target ranges)\<^sup>*\<^sup>* (Mine_start ranges pads c1 c2 refresh live) S \<Longrightarrow>
    results_of S = Some results \<Longrightarrow>
    Mine pads candidate target nonce_begin nonce_end c1 c2 live refresh
      (Inr (Mine_finish candidate nonce_end results (ms_shared S)))"

inductive_cases work_stepE: "work_step header target ranges S S'"
inductive_cases mine_stepE: "mine_step header target ranges S S'"
inductive_cases MineE: "Mine pads candidate target nonce_begin nonce_end c1 c2 live refresh out"

section \<open>What a thread knows\<close>

definition unsolved :: "BlockHeader \<Rightarrow> UInt256 \<Rightarrow> nat \<Rightarrow> nat \<Rightarrow> bool" where
  "unsolved header target lo n \<longleftrightarrow> (\<forall>m. lo \<le> m \<and> m < n \<longrightarrow> \<not> solves header target m)"

lemma unsolved_refl [simp]: "unsolved header target n n"
  unfolding unsolved_def by (meson leD)

lemma unsolved_Suc [simp]:
  "lo \<le> n \<Longrightarrow> unsolved header target lo (Suc n) \<longleftrightarrow> unsolved header target lo n \<and> \<not> solves header target n"
  by (auto simp: unsolved_def less_Suc_eq)

definition result_ok :: "BlockHeader \<Rightarrow> UInt256 \<Rightarrow> NonceRange \<Rightarrow> ScanResult \<Rightarrow> bool" where
  "result_ok header target rng r \<longleftrightarrow>
    (let lo = unat (nr_begin rng); hi = unat (nr_end rng); n = unat (sr_nonce r)
     in lo \<le> n \<and> n \<le> hi \<and> unsolved header target lo n \<and> unat (sr_hashes_checked r) \<le> n - lo + 1 \<and>
       (case sr_status r of
          FOUND \<Rightarrow> solves header target n \<and> sr_hash r = nonce_hash header (sr_nonce r) \<and>
            unat (sr_hashes_checked r) = n - lo + 1
        | EXHAUSTED \<Rightarrow> n = hi \<and> \<not> solves header target n \<and> unat (sr_hashes_checked r) = n - lo + 1
        | CANCELLED \<Rightarrow> True))"

fun worker_ok :: "BlockHeader \<Rightarrow> UInt256 \<Rightarrow> NonceRange \<Rightarrow> worker \<Rightarrow> bool" where
  "worker_ok header target rng (W_loop cb wh) \<longleftrightarrow>
    unat (nr_begin rng) \<le> unat cb \<and> unat cb \<le> unat (nr_end rng) \<and>
    unsolved header target (unat (nr_begin rng)) (unat cb) \<and> wh = of_nat (unat cb - unat (nr_begin rng))"
| "worker_ok header target rng (W_scan ce n h wh) \<longleftrightarrow>
    (\<exists>cb. unat (nr_begin rng) \<le> cb \<and> cb \<le> unat n \<and> unat n \<le> unat ce \<and> unat ce \<le> unat (nr_end rng) \<and>
      unsolved header target (unat (nr_begin rng)) (unat n) \<and> h = of_nat (unat n - cb) \<and>
      wh = of_nat (cb - unat (nr_begin rng)))"
| "worker_ok header target rng (W_chunk_done ce wh) \<longleftrightarrow>
    unat (nr_begin rng) \<le> unat ce \<and> unat ce < unat (nr_end rng) \<and>
    unsolved header target (unat (nr_begin rng)) (Suc (unat ce)) \<and> wh = of_nat (Suc (unat ce) - unat (nr_begin rng))"
| "worker_ok header target rng (W_found r) \<longleftrightarrow> sr_status r = FOUND \<and> result_ok header target rng r"
| "worker_ok header target rng (W_done r) \<longleftrightarrow> result_ok header target rng r"

lemma u32_less [simp]: "unat (x :: u32) < 4294967296"
  using unsigned_less [of x, where ?'a = nat] by simp

lemma u32_small: "k \<le> unat (x :: u32) + 100 \<Longrightarrow> k < 2 ^ 64"
proof -
  assume "k \<le> unat x + 100"
  then have "k < 18446744073709551616" using u32_less [of x] by linarith
  then show ?thesis by simp
qed

lemma SaturatingAdd_of_nat: "a + b < 2 ^ 64 \<Longrightarrow> SaturatingAdd (of_nat a) (of_nat b) = of_nat (a + b)"
  by (rule word_unat_eq_iff [THEN iffD2]) (simp add: SaturatingAdd_value unat_of_nat_small del: of_nat_add)

lemma unat_succ: "unat (n :: u32) < unat (m :: u32) \<Longrightarrow> unat (n + 1) = Suc (unat n)"
proof -
  assume "unat n < unat m"
  then have "Suc (unat n) < 4294967296" using u32_less [of m] by linarith
  then show ?thesis by (simp add: unat_word_ariths)
qed

lemma unat_ucast_u64 [simp]: "unat (ucast (x :: u32) :: u64) = unat x"
proof -
  have "unat x < 2 ^ 64" by (rule u32_small [of _ x]) simp
  then show ?thesis by (simp add: unsigned_ucast_eq take_bit_nat_eq_self)
qed

lemma chunk_end_of_value:
  "unat (chunk_end_of cb rng) = min (unat cb + 7) (unat (nr_end rng))"
proof -
  have cb: "unat (ucast cb + 7 :: u64) = unat cb + 7"
    using u32_small [of "unat cb + 7" cb] by (simp add: unat_word_ariths)
  have "unat (ucast (ucast cb + 7 :: u64) :: u32) = unat cb + 7" if "unat cb + 7 < unat (nr_end rng)"
  proof -
    have "unat cb + 7 < 4294967296" using u32_less [of "nr_end rng"] that by linarith
    then show ?thesis by (simp add: unsigned_ucast_eq cb take_bit_nat_eq_self)
  qed
  note last = this
  have e: "ucast cb + 8 - 1 = (ucast cb + 7 :: u64)" by simp
  show ?thesis
    unfolding chunk_end_of_def SOFT_REFRESH_CHUNK_NONCES_def Let_def e word_less_nat_alt cb unat_ucast_u64
    by (cases "unat cb + 7 < unat (nr_end rng)") (simp_all only: if_True if_False last min_def, simp_all)
qed

lemma unat_eq_iff32: "(x :: u32) = y \<longleftrightarrow> unat x = unat y"
  by (rule word_unat_eq_iff)

lemma scan_hashes:
  assumes "lo \<le> cb" "cb \<le> unat (n :: u32)"
  shows "SaturatingAdd (of_nat (cb - lo)) (of_nat (unat n - cb) + 1) = of_nat (unat n - lo + 1)"
    and "SaturatingAdd (of_nat (cb - lo)) (of_nat (unat n - cb)) = of_nat (unat n - lo)"
    and "unat (of_nat (unat n - lo + 1) :: u64) = unat n - lo + 1"
    and "unat (of_nat (unat n - lo) :: u64) = unat n - lo"
proof -
  have n: "unat n < 4294967296" by simp
  then have "cb - lo + (unat n - cb + 1) < 18446744073709551616" "cb - lo + (unat n - cb) < 18446744073709551616"
    using assms by linarith+
  then have "cb - lo + (unat n - cb + 1) < 2 ^ 64" "cb - lo + (unat n - cb) < 2 ^ 64" by simp_all
  from this [THEN SaturatingAdd_of_nat] assms
  show "SaturatingAdd (of_nat (cb - lo)) (of_nat (unat n - cb) + 1) = of_nat (unat n - lo + 1)"
    and "SaturatingAdd (of_nat (cb - lo)) (of_nat (unat n - cb)) = of_nat (unat n - lo)"
    by (simp_all add: add.commute)
  show "unat (of_nat (unat n - lo + 1) :: u64) = unat n - lo + 1"
    by (rule unat_of_nat_small) (use u32_small [of "unat n - lo + 1" n] in simp)
  show "unat (of_nat (unat n - lo) :: u64) = unat n - lo"
    by (rule unat_of_nat_small) (use u32_small [of "unat n - lo" n] in simp)
qed

text \<open>A thread that has not returned can always take a step, the step keeps what it knows, brings it
  closer to its end, and it is cancelled only when a flag is set.\<close>

fun worker_rank :: "NonceRange \<Rightarrow> worker \<Rightarrow> nat" where
  "worker_rank rng (W_loop cb wh) = 3 * (unat (nr_end rng) + 1 - unat cb) + 2"
| "worker_rank rng (W_scan ce n h wh) = 3 * (unat (nr_end rng) + 1 - unat n) + 1"
| "worker_rank rng (W_chunk_done ce wh) = 3 * (unat (nr_end rng) - unat ce) + 3"
| "worker_rank rng (W_found r) = 1"
| "worker_rank rng (W_done r) = 0"

definition quiet :: "shared \<Rightarrow> bool" where
  "quiet sh \<longleftrightarrow> \<not> raised (sh_cancelled sh) \<and> \<not> raised (sh_cancelled_secondary sh) \<and> \<not> raised (sh_refresh sh)"

definition step_good :: "BlockHeader \<Rightarrow> UInt256 \<Rightarrow> NonceRange \<Rightarrow> shared \<Rightarrow> worker \<Rightarrow> (worker \<times> bytes \<times> bool \<times> bool) \<Rightarrow> bool" where
  "step_good header target rng sh wk = (\<lambda>(wk', pad', stores, hashed).
    worker_ok header target rng wk' \<and> length pad' = SCRATCHPAD_BYTES \<and>
    worker_rank rng wk' < worker_rank rng wk \<and>
    (stores \<longrightarrow> (\<exists>r. wk' = W_done r \<and> sr_status r = FOUND)) \<and>
    (\<forall>r. wk' = W_done r \<and> sr_status r = CANCELLED \<longrightarrow> sh_stop sh \<or> \<not> quiet sh))"

lemma worker_step_W_scan:
  assumes ok: "worker_ok header target rng (W_scan ce n h wh)" and pad: "length pad = SCRATCHPAD_BYTES"
  shows "\<exists>p. worker_step header target rng sh (W_scan ce n h wh) pad = Some p \<and>
    step_good header target rng sh (W_scan ce n h wh) p"
proof -
  let ?lo = "unat (nr_begin rng)"
  obtain cb where cb: "?lo \<le> cb" "cb \<le> unat n" "unat n \<le> unat ce" "unat ce \<le> unat (nr_end rng)"
    "unsolved header target ?lo (unat n)" "h = of_nat (unat n - cb)" "wh = of_nat (cb - ?lo)"
    using ok by auto
  obtain pad' where hn: "hash_nonce header n pad = Some (pad', nonce_hash header n)" "length pad' = SCRATCHPAD_BYTES"
    using hash_nonce_spec [OF pad] by blast
  note hs = scan_hashes [OF cb(1,2)]
  have le: "?lo \<le> unat n" using cb by linarith
  consider "sh_stop sh \<or> raised (sh_cancelled sh) \<or> raised (sh_cancelled_secondary sh)"
    | "\<not> (sh_stop sh \<or> raised (sh_cancelled sh) \<or> raised (sh_cancelled_secondary sh))" "solves header target (unat n)"
    | "\<not> (sh_stop sh \<or> raised (sh_cancelled sh) \<or> raised (sh_cancelled_secondary sh))" "\<not> solves header target (unat n)" "n = ce"
    | "\<not> (sh_stop sh \<or> raised (sh_cancelled sh) \<or> raised (sh_cancelled_secondary sh))" "\<not> solves header target (unat n)" "n \<noteq> ce"
    by blast
  then show ?thesis
  proof cases
    case 1
    then show ?thesis using cb pad hs
      by (auto simp: worker_step_def step_good_def result_ok_def Let_def quiet_def)
  next
    case 2
    then show ?thesis using cb hn hs le
      by (simp add: worker_step_def step_good_def result_ok_def Let_def MeetsTarget_solves)
  next
    case 3
    then show ?thesis using cb hn hs le
      by (cases "ce = nr_end rng")
        (simp_all add: worker_step_def step_good_def result_ok_def Let_def MeetsTarget_solves unat_eq_iff32
          Suc_diff_le)
  next
    case 4
    then have "unat n < unat ce" using cb(3) by (simp add: unat_eq_iff32)
    then have u: "unat (n + 1) = Suc (unat n)" by (rule unat_succ)
    have "h + 1 = of_nat (Suc (unat n) - cb)" using cb(2,6) by (simp add: Suc_diff_le add.commute)
    then show ?thesis using 4 cb hn u le \<open>unat n < unat ce\<close>
      by (auto simp: worker_step_def step_good_def Let_def MeetsTarget_solves intro!: exI [of _ cb])
  qed
qed

lemma worker_step_good:
  assumes ok: "worker_ok header target rng wk" and pad: "length pad = SCRATCHPAD_BYTES"
    and "\<forall>r. wk \<noteq> W_done r"
  shows "\<exists>p. worker_step header target rng sh wk pad = Some p \<and> step_good header target rng sh wk p"
proof (cases wk)
  case (W_loop cb wh)
  have ce: "unat (chunk_end_of cb rng) = min (unat cb + 7) (unat (nr_end rng))" by (rule chunk_end_of_value)
  then have ncb: "\<not> cb > chunk_end_of cb rng" "unat cb \<le> unat (chunk_end_of cb rng)"
    using ok W_loop by (simp_all add: word_less_nat_alt not_less)
  have u: "unat (of_nat (unat cb - unat (nr_begin rng)) :: u64) = unat cb - unat (nr_begin rng)"
    by (rule unat_of_nat_small) (use u32_small [of "unat cb - unat (nr_begin rng)" cb] in simp)
  show ?thesis
  proof (cases "raised (sh_refresh sh)")
    case True
    then show ?thesis using ok pad W_loop u
      by (simp add: worker_step_def step_good_def result_ok_def quiet_def Let_def)
  next
    case False
    have "unat (chunk_end_of cb rng) \<le> unat (nr_end rng)" unfolding ce by simp
    then have "worker_ok header target rng (W_scan (chunk_end_of cb rng) cb 0 wh)"
      using ok W_loop ncb(2) by (auto intro!: exI [of _ "unat cb"])
    then show ?thesis using False ok pad W_loop ncb(1)
      by (simp add: worker_step_def step_good_def Let_def del: worker_ok.simps)
  qed
next
  case (W_scan ce n h wh)
  then show ?thesis using worker_step_W_scan [OF _ pad] ok by blast
next
  case (W_chunk_done ce wh)
  then have ce: "unat (ce + 1) = Suc (unat ce)" "unat (nr_begin rng) \<le> unat ce" "unat ce < unat (nr_end rng)"
    "unsolved header target (unat (nr_begin rng)) (Suc (unat ce))"
    "wh = of_nat (Suc (unat ce) - unat (nr_begin rng))"
    using ok unat_succ [of ce "nr_end rng"] by simp_all
  have u: "unat (of_nat (Suc (unat ce) - unat (nr_begin rng)) :: u64) = Suc (unat ce) - unat (nr_begin rng)"
    by (rule unat_of_nat_small) (use u32_small [of "Suc (unat ce) - unat (nr_begin rng)" ce] in simp)
  show ?thesis
  proof (cases "raised (sh_refresh sh)")
    case True
    have "unsolved header target (unat (nr_begin rng)) (unat ce)" using ce(2,4) by simp
    then have "result_ok header target rng \<lparr>sr_status = CANCELLED, sr_nonce = ce, sr_hash = UInt256_zero,
        sr_hashes_checked = wh\<rparr>"
      using ce u by (simp add: result_ok_def Let_def Suc_diff_le)
    then show ?thesis using True pad W_chunk_done by (simp add: worker_step_def step_good_def quiet_def)
  next
    case False
    have "worker_ok header target rng (W_loop (ce + 1) wh)" using ce by simp
    then show ?thesis using False pad W_chunk_done ce(1,3)
      by (simp add: worker_step_def step_good_def del: worker_ok.simps)
  qed
next
  case (W_found r)
  then show ?thesis using ok pad by (auto simp: worker_step_def step_good_def)
qed (use assms in simp)

section \<open>What holds in every interleaving\<close>

definition mine_inv :: "BlockHeader \<Rightarrow> UInt256 \<Rightarrow> NonceRange list \<Rightarrow> mine_state \<Rightarrow> bool" where
  "mine_inv header target ranges S \<longleftrightarrow>
    length (ms_workers S) = length ranges \<and> length (ms_pads S) = length ranges \<and>
    (\<forall>w < length ranges. worker_ok header target (ranges ! w) (ms_workers S ! w) \<and>
      length (ms_pads S ! w) = SCRATCHPAD_BYTES) \<and>
    (sh_stop (ms_shared S) \<longrightarrow> (\<exists>w < length ranges. \<exists>r. ms_workers S ! w = W_done r \<and> sr_status r = FOUND))"

definition total_rank :: "NonceRange list \<Rightarrow> mine_state \<Rightarrow> nat" where
  "total_rank ranges S = (\<Sum>w < length ranges. worker_rank (ranges ! w) (ms_workers S ! w))"

text \<open>A result \<open>CANCELLED\<close> was caused by another thread's solution.\<close>

definition only_stopped :: "NonceRange list \<Rightarrow> mine_state \<Rightarrow> bool" where
  "only_stopped ranges S \<longleftrightarrow> quiet (ms_shared S) \<and>
    (\<forall>w < length ranges. \<forall>r. ms_workers S ! w = W_done r \<and> sr_status r = CANCELLED \<longrightarrow> sh_stop (ms_shared S))"

lemma worker_step_done [simp]: "worker_step header target rng sh (W_done r) pad = None"
  by (simp add: worker_step_def)

lemma work_step_facts:
  assumes inv: "mine_inv header target ranges S" and step: "work_step header target ranges S S'"
  obtains w wk pad stores hashed where "w < length ranges" "\<forall>r. ms_workers S ! w \<noteq> W_done r"
    "step_good header target (ranges ! w) (ms_shared S) (ms_workers S ! w) (wk, pad, stores, hashed)"
    "ms_workers S' = (ms_workers S)[w := wk]" "ms_pads S' = (ms_pads S)[w := pad]"
    "sh_stop (ms_shared S') = (sh_stop (ms_shared S) \<or> stores)" "quiet (ms_shared S') = quiet (ms_shared S)"
  using step
proof (cases rule: work_step.cases)
  case (work w wk pad stores hashed)
  have w: "w < length ranges" using work inv by (simp add: mine_inv_def)
  have nd: "\<forall>r. ms_workers S ! w \<noteq> W_done r" using work(3) by auto
  have "worker_ok header target (ranges ! w) (ms_workers S ! w)" "length (ms_pads S ! w) = SCRATCHPAD_BYTES"
    using inv w by (simp_all add: mine_inv_def)
  from worker_step_good [OF this nd, of "ms_shared S"] work(3)
  have "step_good header target (ranges ! w) (ms_shared S) (ms_workers S ! w) (wk, pad, stores, hashed)" by simp
  then show ?thesis using that [OF w nd] work(1) by (simp add: quiet_def)
qed

lemma work_step_inv:
  assumes inv: "mine_inv header target ranges S" and step: "work_step header target ranges S S'"
  shows "mine_inv header target ranges S'" "total_rank ranges S' < total_rank ranges S"
    "only_stopped ranges S \<Longrightarrow> only_stopped ranges S'"
proof -
  obtain w wk pad stores hashed where w: "w < length ranges" "\<forall>r. ms_workers S ! w \<noteq> W_done r"
    and good: "step_good header target (ranges ! w) (ms_shared S) (ms_workers S ! w) (wk, pad, stores, hashed)"
    and S': "ms_workers S' = (ms_workers S)[w := wk]" "ms_pads S' = (ms_pads S)[w := pad]"
      "sh_stop (ms_shared S') = (sh_stop (ms_shared S) \<or> stores)" "quiet (ms_shared S') = quiet (ms_shared S)"
    by (rule work_step_facts [OF inv step])
  have l: "length (ms_workers S) = length ranges" "length (ms_pads S) = length ranges"
    using inv by (simp_all add: mine_inv_def)
  have at_w: "ms_workers S' ! w = wk" "ms_pads S' ! w = pad" using w(1) l by (simp_all add: S')
  have other: "ms_workers S' ! v = ms_workers S ! v" "ms_pads S' ! v = ms_pads S ! v" if "v \<noteq> w" for v
    using that by (simp_all add: S')
  have g: "worker_ok header target (ranges ! w) wk" "length pad = SCRATCHPAD_BYTES"
    "worker_rank (ranges ! w) wk < worker_rank (ranges ! w) (ms_workers S ! w)"
    "stores \<Longrightarrow> \<exists>r. wk = W_done r \<and> sr_status r = FOUND"
    "\<And>r. wk = W_done r \<Longrightarrow> sr_status r = CANCELLED \<Longrightarrow> sh_stop (ms_shared S) \<or> \<not> quiet (ms_shared S)"
    using good by (auto simp: step_good_def)
  have done_kept: "ms_workers S' ! v = W_done r" if "ms_workers S ! v = W_done r" for v r
    using w(2) that by (cases "v = w") (simp_all add: S')
  have "\<exists>v < length ranges. \<exists>r. ms_workers S' ! v = W_done r \<and> sr_status r = FOUND" if "sh_stop (ms_shared S')"
  proof (cases "sh_stop (ms_shared S)")
    case True
    then show ?thesis using inv done_kept unfolding mine_inv_def by metis
  next
    case False
    then have stores using that S' by simp
    then show ?thesis using g(4) w(1) at_w by metis
  qed
  moreover have "worker_ok header target (ranges ! v) (ms_workers S' ! v) \<and> length (ms_pads S' ! v) = SCRATCHPAD_BYTES"
    if "v < length ranges" for v
    using inv that g(1,2) at_w other [of v] by (cases "v = w") (simp_all add: mine_inv_def)
  ultimately show "mine_inv header target ranges S'"
    using l by (simp add: mine_inv_def S')
  show "total_rank ranges S' < total_rank ranges S"
    unfolding total_rank_def
  proof (rule sum_strict_mono_ex1)
    show "\<forall>v \<in> {..<length ranges}. worker_rank (ranges ! v) (ms_workers S' ! v) \<le> worker_rank (ranges ! v) (ms_workers S ! v)"
    proof
      fix v
      show "worker_rank (ranges ! v) (ms_workers S' ! v) \<le> worker_rank (ranges ! v) (ms_workers S ! v)"
        using g(3) at_w(1) other(1) [of v] by (cases "v = w") simp_all
    qed
    show "\<exists>v \<in> {..<length ranges}. worker_rank (ranges ! v) (ms_workers S' ! v) < worker_rank (ranges ! v) (ms_workers S ! v)"
      using g(3) w(1) at_w(1) by (intro bexI [of _ w]) simp_all
  qed simp
  show "only_stopped ranges S'" if os: "only_stopped ranges S"
    unfolding only_stopped_def
  proof (intro conjI allI impI)
    show "quiet (ms_shared S')" using os by (simp add: only_stopped_def S')
    fix v r assume v: "v < length ranges" "ms_workers S' ! v = W_done r \<and> sr_status r = CANCELLED"
    show "sh_stop (ms_shared S')"
    proof (cases "v = w")
      case True
      then show ?thesis using g(5) [of r] v(2) at_w(1) os by (simp add: only_stopped_def S')
    next
      case False
      then show ?thesis using other(1) v os by (auto simp: only_stopped_def S')
    qed
  qed
qed

lemma mine_step_inv:
  assumes "mine_inv header target ranges S" "mine_step header target ranges S S'"
  shows "mine_inv header target ranges S'"
  using assms(2,1)
proof (cases rule: mine_step.cases)
  case thread
  then show ?thesis using work_step_inv(1) [OF assms(1)] by blast
qed (simp_all add: mine_inv_def)

lemma mine_steps_inv:
  "(mine_step header target ranges)\<^sup>*\<^sup>* S S' \<Longrightarrow> mine_inv header target ranges S \<Longrightarrow> mine_inv header target ranges S'"
  by (induction rule: rtranclp_induct) (auto intro: mine_step_inv)

lemma work_steps_rank:
  "((work_step header target ranges) ^^ k) S S' \<Longrightarrow> mine_inv header target ranges S \<Longrightarrow>
    mine_inv header target ranges S' \<and> k + total_rank ranges S' \<le> total_rank ranges S \<and>
    (only_stopped ranges S \<longrightarrow> only_stopped ranges S')"
proof (induction k arbitrary: S')
  case (Suc k)
  then obtain T where T: "((work_step header target ranges) ^^ k) S T" "work_step header target ranges T S'" by auto
  with Suc work_step_inv [of header target ranges T S'] show ?case by fastforce
qed simp

lemma those_done: "\<forall>wk \<in> set wks. \<exists>r. wk = W_done r \<Longrightarrow>
    those (map (\<lambda>wk. case wk of W_done r \<Rightarrow> Some r | _ \<Rightarrow> None) wks) \<noteq> None"
  by (induction wks) auto

lemma work_step_exists:
  assumes "mine_inv header target ranges S" "results_of S = None"
  shows "\<exists>S'. work_step header target ranges S S'"
proof -
  have "\<exists>w < length (ms_workers S). \<forall>r. ms_workers S ! w \<noteq> W_done r"
  proof (rule ccontr)
    assume "\<not> ?thesis"
    then have "\<forall>wk \<in> set (ms_workers S). \<exists>r. wk = W_done r" by (simp add: all_set_conv_all_nth)
    then have "results_of S \<noteq> None" unfolding results_of_def by (rule those_done)
    with assms(2) show False by simp
  qed
  then obtain w where w: "w < length ranges" "\<forall>r. ms_workers S ! w \<noteq> W_done r"
    using assms(1) by (auto simp: mine_inv_def)
  then obtain p where "worker_step header target (ranges ! w) (ms_shared S) (ms_workers S ! w) (ms_pads S ! w) = Some p"
    using worker_step_good [of header target "ranges ! w" "ms_workers S ! w" "ms_pads S ! w" "ms_shared S"] assms(1)
    by (auto simp: mine_inv_def)
  then show ?thesis using work_step.work [of w S header target ranges] w assms(1)
    by (cases p) (auto simp: mine_inv_def)
qed

lemma those_Some_iff: "those xs = Some ys \<longleftrightarrow> xs = map Some ys"
  by (induction xs arbitrary: ys) (auto split: option.splits)

lemma results_ofD:
  assumes "results_of S = Some results" "mine_inv header target ranges S"
  shows "length results = length ranges"
    and "w < length ranges \<Longrightarrow> ms_workers S ! w = W_done (results ! w) \<and> result_ok header target (ranges ! w) (results ! w)"
proof -
  have m: "map (\<lambda>wk. case wk of W_done r \<Rightarrow> Some r | _ \<Rightarrow> None) (ms_workers S) = map Some results"
    using assms(1) by (simp add: results_of_def those_Some_iff)
  from arg_cong [OF this, of length] show l: "length results = length ranges"
    using assms(2) by (simp add: mine_inv_def)
  assume w: "w < length ranges"
  have "(case ms_workers S ! w of W_done r \<Rightarrow> Some r | _ \<Rightarrow> None) = Some (results ! w)"
    using arg_cong [OF m, of "\<lambda>xs. xs ! w"] w l assms(2) by (simp add: mine_inv_def)
  then have "ms_workers S ! w = W_done (results ! w)" by (simp split: worker.splits)
  then show "ms_workers S ! w = W_done (results ! w) \<and> result_ok header target (ranges ! w) (results ! w)"
    using assms(2) w by (auto simp: mine_inv_def)
qed

section \<open>The result after the join\<close>

lemma pick_winner_upto:
  "n \<le> length results \<Longrightarrow>
    (case fold (\<lambda>worker winner.
        if sr_status (results ! worker) \<noteq> FOUND then winner
        else case winner of
          None \<Rightarrow> Some worker
        | Some best \<Rightarrow> if sr_nonce (results ! worker) < sr_nonce (results ! best) then Some worker else winner)
      [0..<n] None of
      None \<Rightarrow> \<forall>v < n. sr_status (results ! v) \<noteq> FOUND
    | Some w \<Rightarrow> w < n \<and> sr_status (results ! w) = FOUND \<and>
        (\<forall>v < n. sr_status (results ! v) = FOUND \<longrightarrow> sr_nonce (results ! w) \<le> sr_nonce (results ! v)))"
  by (induction n) (force simp: less_Suc_eq split: option.splits)+

lemma pick_winner_None: "pick_winner results = None \<longleftrightarrow> (\<forall>v < length results. sr_status (results ! v) \<noteq> FOUND)"
  using pick_winner_upto [of "length results" results] by (auto simp: pick_winner_def split: option.splits)

lemma pick_winner_Some:
  "pick_winner results = Some w \<Longrightarrow> w < length results \<and> sr_status (results ! w) = FOUND \<and>
    (\<forall>v < length results. sr_status (results ! v) = FOUND \<longrightarrow> sr_nonce (results ! w) \<le> sr_nonce (results ! v))"
  using pick_winner_upto [of "length results" results] by (auto simp: pick_winner_def split: option.splits)

lemma total_hashes_value:
  "unat (fold (\<lambda>result total. SaturatingAdd total (sr_hashes_checked result)) results t) =
    min (unat t + sum_list (map (\<lambda>r. unat (sr_hashes_checked r)) results)) (2 ^ 64 - 1)"
proof (induction results arbitrary: t)
  case Nil
  have "unat t \<le> 2 ^ 64 - 1" using unsigned_less [of t, where ?'a = nat] by simp
  then show ?case by simp
next
  case (Cons r results)
  then show ?case by (simp add: SaturatingAdd_value min_def)
qed

text \<open>What is known of a set of joined results: each is right for its range, and the ranges tile the
  nonces from \<open>b\<close> to \<open>e\<close>.\<close>

definition joined_ok :: "BlockHeader \<Rightarrow> UInt256 \<Rightarrow> nat \<Rightarrow> nat \<Rightarrow> NonceRange list \<Rightarrow> ScanResult list \<Rightarrow> bool" where
  "joined_ok header target b e ranges results \<longleftrightarrow>
    length results = length ranges \<and> (\<forall>w < length ranges. result_ok header target (ranges ! w) (results ! w)) \<and>
    concat (map range_nonces ranges) = [b..<Suc e]"

lemma range_nonces_mem: "n \<in> set (range_nonces r) \<longleftrightarrow> unat (nr_begin r) \<le> n \<and> n \<le> unat (nr_end r)"
  by (auto simp: range_nonces_def simp del: upt_Suc)

lemma length_range_nonces: "length (range_nonces r) = Suc (unat (nr_end r)) - unat (nr_begin r)"
  by (simp add: range_nonces_def del: upt_Suc)

lemma range_nonces_subset:
  assumes "concat (map range_nonces ranges) = [b..<Suc e]" "w < length ranges"
  shows "set (range_nonces (ranges ! w)) \<subseteq> {b..e}"
proof -
  have "set (range_nonces (ranges ! w)) \<subseteq> set (concat (map range_nonces ranges))"
    using nth_mem [OF assms(2)] by auto
  then show ?thesis unfolding assms(1) by auto
qed

lemma joined_found:
  assumes "joined_ok header target b e ranges results" "w < length results" "sr_status (results ! w) = FOUND"
  shows "b \<le> unat (sr_nonce (results ! w))" "unat (sr_nonce (results ! w)) \<le> e"
    and "solves header target (unat (sr_nonce (results ! w)))"
    and "sr_hash (results ! w) = nonce_hash header (sr_nonce (results ! w))"
proof -
  have r: "result_ok header target (ranges ! w) (results ! w)" "w < length ranges"
    using assms by (simp_all add: joined_ok_def)
  then have "unat (sr_nonce (results ! w)) \<in> set (range_nonces (ranges ! w))"
    by (simp add: result_ok_def range_nonces_mem Let_def)
  then show "b \<le> unat (sr_nonce (results ! w))" "unat (sr_nonce (results ! w)) \<le> e"
    using range_nonces_subset [of ranges b e w] assms(1) r(2) by (auto simp: joined_ok_def)
  show "solves header target (unat (sr_nonce (results ! w)))"
    "sr_hash (results ! w) = nonce_hash header (sr_nonce (results ! w))"
    using r(1) assms(3) by (simp_all add: result_ok_def Let_def)
qed

lemma joined_exhausted:
  assumes "joined_ok header target b e ranges results"
    and all: "\<forall>w < length results. sr_status (results ! w) = EXHAUSTED"
  shows "b \<le> n \<Longrightarrow> n \<le> e \<Longrightarrow> \<not> solves header target n"
proof -
  assume "b \<le> n" "n \<le> e"
  then have "n \<in> set [b..<Suc e]" by (simp del: upt_Suc)
  moreover have "concat (map range_nonces ranges) = [b..<Suc e]" using assms(1) by (simp only: joined_ok_def)
  ultimately have "n \<in> set (concat (map range_nonces ranges))" by (simp only:)
  then obtain r where "r \<in> set ranges" "n \<in> set (range_nonces r)" by auto
  then obtain w where w: "w < length ranges" "n \<in> set (range_nonces (ranges ! w))"
    by (metis in_set_conv_nth)
  have "result_ok header target (ranges ! w) (results ! w)" "sr_status (results ! w) = EXHAUSTED"
    using assms w(1) by (simp_all add: joined_ok_def)
  then show ?thesis using w(2)
    by (cases "n = unat (sr_nonce (results ! w))") (auto simp: result_ok_def Let_def range_nonces_mem unsolved_def)
qed

lemma joined_hashes:
  assumes "joined_ok header target b e ranges results"
  shows "sum_list (map (\<lambda>r. unat (sr_hashes_checked r)) results) \<le> Suc e - b"
    and "\<forall>w < length results. sr_status (results ! w) = EXHAUSTED \<Longrightarrow>
      sum_list (map (\<lambda>r. unat (sr_hashes_checked r)) results) = Suc e - b"
proof -
  have j: "length results = length ranges" "concat (map range_nonces ranges) = [b..<Suc e]"
    and ok: "\<And>w. w < length ranges \<Longrightarrow> result_ok header target (ranges ! w) (results ! w)"
    using assms by (simp_all add: joined_ok_def)
  have s: "sum_list (map (\<lambda>r. length (range_nonces r)) ranges) = Suc e - b"
    using arg_cong [OF j(2), of length] by (simp add: length_concat o_def del: upt_Suc)
  have "unat (sr_hashes_checked (results ! w)) \<le> length (range_nonces (ranges ! w))" if "w < length ranges" for w
    using ok [OF that] by (auto simp: result_ok_def Let_def length_range_nonces)
  then have "sum_list (map (\<lambda>r. unat (sr_hashes_checked r)) results) \<le> sum_list (map (\<lambda>r. length (range_nonces r)) ranges)"
    unfolding sum_list_sum_nth using j(1) by (auto intro!: sum_mono)
  then show "sum_list (map (\<lambda>r. unat (sr_hashes_checked r)) results) \<le> Suc e - b" by (simp add: s)
  assume "\<forall>w < length results. sr_status (results ! w) = EXHAUSTED"
  then have "unat (sr_hashes_checked (results ! w)) = length (range_nonces (ranges ! w))" if "w < length ranges" for w
    using ok [OF that] that j(1) by (auto simp: result_ok_def Let_def length_range_nonces Suc_diff_le)
  then have "sum_list (map (\<lambda>r. unat (sr_hashes_checked r)) results) = sum_list (map (\<lambda>r. length (range_nonces r)) ranges)"
    unfolding sum_list_sum_nth using j(1) by (auto intro!: sum.cong)
  then show "sum_list (map (\<lambda>r. unat (sr_hashes_checked r)) results) = Suc e - b" by (simp add: s)
qed

text \<open>A miner: at least one scanner, each with its scratchpad.\<close>

definition miner_ok :: "bytes list \<Rightarrow> bool" where
  "miner_ok pads \<longleftrightarrow> pads \<noteq> [] \<and> length pads < 2 ^ 64 \<and> (\<forall>pad \<in> set pads. length pad = SCRATCHPAD_BYTES)"

lemma Mine_ranges:
  assumes "miner_ok pads" "b \<le> e"
  obtains ranges where "PartitionNonceRange b e (of_nat (length pads)) = Inr ranges"
    "concat (map range_nonces ranges) = [unat b..<Suc (unat e)]" "length ranges \<le> length pads"
    "\<forall>rng \<in> set ranges. nr_begin rng \<le> nr_end rng"
proof -
  have l: "unat (of_nat (length pads) :: u64) = length pads" using assms(1) by (simp add: miner_ok_def unat_of_nat_small)
  then have "(of_nat (length pads) :: u64) \<noteq> 0" using assms(1) by (metis length_0_conv miner_ok_def unsigned_0)
  from PartitionNonceRange_covers [OF assms(2) this] l show ?thesis
    using that by (auto simp: list_all_iff)
qed

lemma Mine_start_inv:
  assumes "miner_ok pads" "length ranges \<le> length pads" "\<forall>rng \<in> set ranges. nr_begin rng \<le> nr_end rng"
  shows "mine_inv header target ranges (Mine_start ranges pads c1 c2 refresh live)"
proof -
  have "nr_begin (ranges ! w) \<le> nr_end (ranges ! w)" if "w < length ranges" for w using assms(3) that by simp
  moreover have "length (pads ! w) = SCRATCHPAD_BYTES" if "w < length ranges" for w
    using assms(1,2) that by (simp add: miner_ok_def)
  ultimately show ?thesis using assms(2)
    by (auto simp: mine_inv_def Mine_start_def word_le_nat_alt)
qed

text \<open>The outcome, in terms of the nonces from \<open>b\<close> to \<open>e\<close>.\<close>

definition mine_outcome :: "BlockCandidate \<Rightarrow> UInt256 \<Rightarrow> nat \<Rightarrow> nat \<Rightarrow> ParallelMineResult \<Rightarrow> BlockCandidate \<Rightarrow> bool" where
  "mine_outcome candidate target b e r candidate' \<longleftrightarrow>
    (let n = unat (pr_nonce r); hdr = bc_header candidate in
     unat (pr_hashes_checked r) \<le> Suc e - b \<and>
     (case pr_status r of
        FOUND \<Rightarrow> b \<le> n \<and> n \<le> e \<and> solves hdr target n \<and> pr_hash r = nonce_hash hdr (pr_nonce r) \<and>
          candidate' = ApplySolvedNonce candidate (pr_nonce r) \<and>
          (\<exists>w < pr_active_workers r. pr_winning_worker r = Some w)
      | EXHAUSTED \<Rightarrow> candidate' = candidate \<and> (\<forall>m. b \<le> m \<and> m \<le> e \<longrightarrow> \<not> solves hdr target m) \<and>
          unat (pr_hashes_checked r) = Suc e - b
      | CANCELLED \<Rightarrow> candidate' = candidate))"

lemma Mine_finish_outcome:
  assumes j: "joined_ok (bc_header candidate) target b e ranges results" and e: "Suc e - b < 2 ^ 64"
    and f: "Mine_finish candidate nonce_end results sh = (r, candidate')"
  shows "mine_outcome candidate target b e r candidate'"
proof -
  let ?total = "fold (\<lambda>result total. SaturatingAdd total (sr_hashes_checked result)) results 0"
  let ?sum = "sum_list (map (\<lambda>r. unat (sr_hashes_checked r)) results)"
  have le: "?sum \<le> Suc e - b" by (rule joined_hashes(1) [OF j])
  have tot: "unat ?total = ?sum" using total_hashes_value [of results 0] le e by simp
  consider "raised (sh_cancelled sh) \<or> raised (sh_cancelled_secondary sh)"
    | w where "\<not> (raised (sh_cancelled sh) \<or> raised (sh_cancelled_secondary sh))" "pick_winner results = Some w"
    | "\<not> (raised (sh_cancelled sh) \<or> raised (sh_cancelled_secondary sh))" "pick_winner results = None"
      "list_ex (\<lambda>result. sr_status result = CANCELLED) results"
    | "\<not> (raised (sh_cancelled sh) \<or> raised (sh_cancelled_secondary sh))" "pick_winner results = None"
      "\<not> list_ex (\<lambda>result. sr_status result = CANCELLED) results"
    by (cases "pick_winner results") auto
  then show ?thesis
  proof cases
    case 1
    then show ?thesis using f tot le by (auto simp: Mine_finish_def mine_outcome_def Let_def)
  next
    case (2 w)
    note p = pick_winner_Some [OF 2(2)]
    show ?thesis using f 2 tot le joined_found [OF j, of w] p
      by (auto simp: Mine_finish_def mine_outcome_def Let_def)
  next
    case 3
    then show ?thesis using f tot le by (auto simp: Mine_finish_def mine_outcome_def Let_def)
  next
    case 4
    have "sr_status (results ! w) = EXHAUSTED" if "w < length results" for w
      using 4(2,3) that by (cases "sr_status (results ! w)") (auto simp: pick_winner_None list_ex_length)
    then have "\<forall>w < length results. sr_status (results ! w) = EXHAUSTED" by blast
    from joined_exhausted [OF j this] joined_hashes(2) [OF j this] show ?thesis
      using f 4 tot by (auto simp: Mine_finish_def mine_outcome_def Let_def)
  qed
qed

lemma mine_joined:
  assumes "mine_inv header target ranges S" "results_of S = Some results"
    and "concat (map range_nonces ranges) = [b..<Suc e]"
  shows "joined_ok header target b e ranges results"
  using results_ofD [OF assms(2,1)] assms(3) by (simp add: joined_ok_def)

lemma Mine_outcomes:
  assumes "miner_ok pads" "candidate_ok candidate" "b \<le> e" "Mine pads candidate target b e c1 c2 live refresh out"
  shows "\<exists>r candidate'. out = Inr (r, candidate') \<and> mine_outcome candidate target (unat b) (unat e) r candidate'"
proof -
  obtain ranges where p: "PartitionNonceRange b e (of_nat (length pads)) = Inr ranges"
    "concat (map range_nonces ranges) = [unat b..<Suc (unat e)]" "length ranges \<le> length pads"
    "\<forall>rng \<in> set ranges. nr_begin rng \<le> nr_end rng"
    by (rule Mine_ranges [OF assms(1,3)])
  have v: "ValidateBlockCandidateForMining candidate = Inr ()" using assms(2) by (simp add: Validate_iff)
  from assms(4) obtain S results where m: "(mine_step (bc_header candidate) target ranges)\<^sup>*\<^sup>* (Mine_start ranges pads c1 c2 refresh live) S"
    "results_of S = Some results" "out = Inr (Mine_finish candidate e results (ms_shared S))"
    by (cases rule: Mine.cases) (use v p(1) in auto)
  have "mine_inv (bc_header candidate) target ranges S"
    by (rule mine_steps_inv [OF m(1) Mine_start_inv [OF assms(1) p(3,4)]])
  from mine_joined [OF this m(2) p(2)]
  have j: "joined_ok (bc_header candidate) target (unat b) (unat e) ranges results" .
  have "Suc (unat e) - unat b < 2 ^ 64" using u32_small [of "Suc (unat e) - unat b" e] by simp
  from Mine_finish_outcome [OF j this] m(3) show ?thesis
    by (cases "Mine_finish candidate e results (ms_shared S)") auto
qed

section \<open>Every run ends\<close>

text \<open>Runs that count the steps of the threads and allow any stores in between.\<close>

inductive mine_run :: "BlockHeader \<Rightarrow> UInt256 \<Rightarrow> NonceRange list \<Rightarrow> nat \<Rightarrow> mine_state \<Rightarrow> mine_state \<Rightarrow> bool"
  for header target ranges where
  start: "mine_run header target ranges 0 S S"
| thread: "mine_run header target ranges n S T \<Longrightarrow> work_step header target ranges T U \<Longrightarrow>
    mine_run header target ranges (Suc n) S U"
| store: "mine_run header target ranges n S T \<Longrightarrow> mine_step header target ranges T U \<Longrightarrow>
    ms_workers U = ms_workers T \<Longrightarrow> mine_run header target ranges n S U"

lemma mine_run_rank:
  "mine_run header target ranges n S T \<Longrightarrow> mine_inv header target ranges S \<Longrightarrow>
    mine_inv header target ranges T \<and> n + total_rank ranges T \<le> total_rank ranges S"
proof (induction rule: mine_run.induct)
  case (thread n S T U)
  with work_step_inv [of header target ranges T U] show ?case by fastforce
next
  case (store n S T U)
  then have "mine_inv header target ranges U" using mine_step_inv by blast
  moreover have "total_rank ranges U = total_rank ranges T" using store by (simp add: total_rank_def)
  ultimately show ?case using store by simp
qed simp

lemma start_rank:
  assumes "concat (map range_nonces ranges) = [b..<Suc e]"
  shows "total_rank ranges (Mine_start ranges pads c1 c2 refresh live) = 3 * (Suc e - b) + 2 * length ranges"
proof -
  have "total_rank ranges (Mine_start ranges pads c1 c2 refresh live) =
      (\<Sum>w < length ranges. 3 * length (range_nonces (ranges ! w)) + 2)"
    by (simp add: total_rank_def Mine_start_def length_range_nonces)
  also have "\<dots> = 3 * (\<Sum>w < length ranges. length (range_nonces (ranges ! w))) + 2 * length ranges"
    by (simp only: sum.distrib sum_distrib_left) simp
  also have "(\<Sum>w < length ranges. length (range_nonces (ranges ! w))) = length (concat (map range_nonces ranges))"
    by (simp add: length_concat o_def sum_list_sum_nth atLeast0LessThan)
  finally show ?thesis unfolding assms by (simp del: upt_Suc)
qed

lemma work_steps_finish:
  "mine_inv header target ranges S \<Longrightarrow>
    \<exists>S' results. (work_step header target ranges)\<^sup>*\<^sup>* S S' \<and> results_of S' = Some results"
proof (induction "total_rank ranges S" arbitrary: S rule: less_induct)
  case less
  show ?case
  proof (cases "results_of S")
    case None
    then obtain T where T: "work_step header target ranges S T" using work_step_exists less.prems by blast
    from less.hyps [OF work_step_inv(2,1) [OF less.prems T]] T show ?thesis
      by (meson converse_rtranclp_into_rtranclp)
  qed auto
qed

lemma work_steps_mine_steps:
  "(work_step header target ranges)\<^sup>*\<^sup>* S S' \<Longrightarrow> (mine_step header target ranges)\<^sup>*\<^sup>* S S'"
  by (induction rule: rtranclp_induct) (auto intro: mine_step.thread rtranclp.rtrancl_into_rtrancl)

lemma Mine_total:
  assumes "miner_ok pads" "candidate_ok candidate" "b \<le> e"
  shows "\<exists>out. Mine pads candidate target b e c1 c2 live refresh out"
proof -
  obtain ranges where p: "PartitionNonceRange b e (of_nat (length pads)) = Inr ranges"
    "length ranges \<le> length pads" "\<forall>rng \<in> set ranges. nr_begin rng \<le> nr_end rng"
    by (rule Mine_ranges [OF assms(1,3)])
  obtain S results where S: "(work_step (bc_header candidate) target ranges)\<^sup>*\<^sup>* (Mine_start ranges pads c1 c2 refresh live) S"
    "results_of S = Some results"
    using work_steps_finish [OF Mine_start_inv [OF assms(1) p(2,3)]] by blast
  have v: "ValidateBlockCandidateForMining candidate = Inr ()" using assms(2) by (simp add: Validate_iff)
  from Mine.joined [OF v p(1) work_steps_mine_steps [OF S(1)] S(2)] show ?thesis by blast
qed

section \<open>Without a cancellation\<close>

lemma start_only_stopped:
  "quiet (ms_shared (Mine_start ranges pads c1 c2 refresh live)) \<Longrightarrow>
    only_stopped ranges (Mine_start ranges pads c1 c2 refresh live)"
  by (auto simp: only_stopped_def Mine_start_def)

lemma quiet_result:
  assumes "mine_inv (bc_header candidate) target ranges S" "only_stopped ranges S" "results_of S = Some results"
    and "Mine_finish candidate nonce_end results (ms_shared S) = (r, candidate')"
  shows "pr_status r \<noteq> CANCELLED"
proof -
  have q: "\<not> (raised (sh_cancelled (ms_shared S)) \<or> raised (sh_cancelled_secondary (ms_shared S)))"
    using assms(2) by (simp add: only_stopped_def quiet_def)
  note d = results_ofD [OF assms(3,1)]
  have "list_ex (\<lambda>r. sr_status r = CANCELLED) results \<Longrightarrow> pick_winner results \<noteq> None"
  proof -
    assume "list_ex (\<lambda>r. sr_status r = CANCELLED) results"
    then obtain w where w: "w < length ranges" "sr_status (results ! w) = CANCELLED"
      using d(1) by (auto simp: list_ex_length)
    then have "sh_stop (ms_shared S)" using assms(2) d(2) [OF w(1)] by (auto simp: only_stopped_def)
    then obtain v x where "v < length ranges" "ms_workers S ! v = W_done x" "sr_status x = FOUND"
      using assms(1) by (auto simp: mine_inv_def)
    then show ?thesis using d(1) d(2) [of v] by (auto simp: pick_winner_None)
  qed
  then show ?thesis using q assms(4) by (auto simp: Mine_finish_def Let_def split: option.splits if_splits)
qed

section \<open>Properties\<close>

text \<open>C18: A range of nonces is divided among the workers without gap or overlap: the ranges, in order, list
  every nonce from \<open>nonce_begin\<close> to \<open>nonce_end\<close> exactly once, there are as many as workers unless there
  are fewer nonces, and their sizes differ by at most one.\<close>

theorem PartitionNonceRange_tiles:
  assumes "nonce_begin \<le> nonce_end" "worker_count \<noteq> 0"
  shows "\<exists>rs. PartitionNonceRange nonce_begin nonce_end worker_count = Inr rs \<and>
    concat (map range_nonces rs) = [unat nonce_begin..<Suc (unat nonce_end)] \<and>
    length rs = min (unat nonce_end - unat nonce_begin + 1) (unat worker_count) \<and>
    (\<exists>size. list_all (\<lambda>r. length (range_nonces r) = size \<or> length (range_nonces r) = size + 1) rs)"
  using PartitionNonceRange_covers [OF assms] by blast

theorem PartitionNonceRange_tiles_witness:
  "\<exists>rs. PartitionNonceRange 0 0xffffffff 7 = Inr rs \<and> concat (map range_nonces rs) = [0..<4294967296] \<and> length rs = 7"
  using PartitionNonceRange_tiles [of 0 "0xffffffff" 7] by auto

lemma sample_miner: "miner_ok (replicate 4 NonceScanner_new)"
  by (simp add: miner_ok_def NonceScanner_new_def)

text \<open>C3: Whatever the interleaving of the threads and whenever other threads store to the flags, \<open>Mine\<close>
  reports the truth: \<open>FOUND\<close> gives a nonce of the range that solves the candidate, its hash, a winning
  worker and the solved block; \<open>EXHAUSTED\<close> means that no nonce of the range solves it and every one was
  hashed; \<open>CANCELLED\<close> and \<open>EXHAUSTED\<close> leave the candidate alone. The count of hashes never exceeds the
  number of nonces, so the saturating sum does not saturate.\<close>

theorem Mine_reports_truth:
  assumes "miner_ok pads" "ValidateBlockCandidateForMining candidate = Inr ()" "nonce_begin \<le> nonce_end"
    and "Mine pads candidate target nonce_begin nonce_end c1 c2 live refresh out"
  shows "\<exists>r candidate'. out = Inr (r, candidate') \<and>
    mine_outcome candidate target (unat nonce_begin) (unat nonce_end) r candidate'"
  using Mine_outcomes [OF assms(1) _ assms(3,4)] assms(2) by (simp add: Validate_iff)

theorem Mine_reports_truth_witness:
  "\<exists>c out r candidate'. BuildBlockCandidate sample_block_template [0x51] (replicate 8 0) = Inr c \<and>
    Mine (replicate 4 NonceScanner_new) c (bt_target sample_block_template) 0 0xffffffff None None None (Some False) out \<and>
    out = Inr (r, candidate') \<and> mine_outcome c (bt_target sample_block_template) 0 4294967295 r candidate'"
proof -
  obtain c where c: "BuildBlockCandidate sample_block_template [0x51] (replicate 8 0) = Inr c"
    using sample_candidate [of "replicate 8 0"] by auto
  have le: "(0 :: u32) \<le> 0xffffffff" by simp
  obtain out where out: "Mine (replicate 4 NonceScanner_new) c (bt_target sample_block_template) 0 0xffffffff None None None (Some False) out"
    using Mine_total [OF sample_miner BuildBlockCandidate_ok [OF c] le] by blast
  have "ValidateBlockCandidateForMining c = Inr ()" using BuildBlockCandidate_ok [OF c] by (simp add: Validate_iff)
  from Mine_reports_truth [OF sample_miner this le out] c out show ?thesis by auto
qed

text \<open>C8: Mining always ends: in any run, with any stores in between, the threads take at most three steps
  for each nonce and two for each worker, a thread that has not returned can always take a step, and
  so every call has an outcome.\<close>

theorem Mine_terminates:
  assumes "miner_ok pads" "ValidateBlockCandidateForMining candidate = Inr ()" "nonce_begin \<le> nonce_end"
  shows "(\<exists>out. Mine pads candidate target nonce_begin nonce_end c1 c2 live refresh out) \<and>
    (\<exists>ranges. PartitionNonceRange nonce_begin nonce_end (of_nat (length pads)) = Inr ranges \<and>
      (\<forall>n S. mine_run (bc_header candidate) target ranges n (Mine_start ranges pads c1 c2 refresh live) S \<longrightarrow>
        n \<le> 3 * (Suc (unat nonce_end) - unat nonce_begin) + 2 * length ranges \<and>
        (results_of S = None \<longrightarrow> (\<exists>S'. work_step (bc_header candidate) target ranges S S'))))"
proof
  show "\<exists>out. Mine pads candidate target nonce_begin nonce_end c1 c2 live refresh out"
    using Mine_total assms by (simp add: Validate_iff)
  obtain ranges where p: "PartitionNonceRange nonce_begin nonce_end (of_nat (length pads)) = Inr ranges"
    "concat (map range_nonces ranges) = [unat nonce_begin..<Suc (unat nonce_end)]" "length ranges \<le> length pads"
    "\<forall>rng \<in> set ranges. nr_begin rng \<le> nr_end rng"
    by (rule Mine_ranges [OF assms(1,3)])
  have "n \<le> 3 * (Suc (unat nonce_end) - unat nonce_begin) + 2 * length ranges \<and>
      (results_of S = None \<longrightarrow> (\<exists>S'. work_step (bc_header candidate) target ranges S S'))"
    if "mine_run (bc_header candidate) target ranges n (Mine_start ranges pads c1 c2 refresh live) S" for n S
    using mine_run_rank [OF that Mine_start_inv [OF assms(1) p(3,4)]] work_step_exists
    unfolding start_rank [OF p(2)] by auto
  then show "\<exists>ranges. PartitionNonceRange nonce_begin nonce_end (of_nat (length pads)) = Inr ranges \<and>
      (\<forall>n S. mine_run (bc_header candidate) target ranges n (Mine_start ranges pads c1 c2 refresh live) S \<longrightarrow>
        n \<le> 3 * (Suc (unat nonce_end) - unat nonce_begin) + 2 * length ranges \<and>
        (results_of S = None \<longrightarrow> (\<exists>S'. work_step (bc_header candidate) target ranges S S')))"
    using p(1) by blast
qed

theorem Mine_terminates_witness:
  "\<exists>c out. BuildBlockCandidate sample_block_template [0x51] (replicate 8 0) = Inr c \<and>
    Mine (replicate 4 NonceScanner_new) c (bt_target sample_block_template) 0 0xffffffff None None None None out"
proof -
  obtain c where c: "BuildBlockCandidate sample_block_template [0x51] (replicate 8 0) = Inr c"
    using sample_candidate [of "replicate 8 0"] by auto
  then have "ValidateBlockCandidateForMining c = Inr ()" using BuildBlockCandidate_ok by (simp add: Validate_iff)
  from Mine_terminates [OF sample_miner this, of 0 "0xffffffff"] c show ?thesis by auto
qed

text \<open>C4: While no flag is set from outside, the threads find a solution whenever the range has one: when
  all have returned, in whatever order they ran, the status is \<open>FOUND\<close> if some nonce of the range solves
  the candidate and \<open>EXHAUSTED\<close> otherwise; a thread stopped early never hides a solution.\<close>

theorem Mine_finds_solution:
  assumes "miner_ok pads" "ValidateBlockCandidateForMining candidate = Inr ()" "nonce_begin \<le> nonce_end"
    and "PartitionNonceRange nonce_begin nonce_end (of_nat (length pads)) = Inr ranges"
    and "((work_step (bc_header candidate) target ranges) ^^ k)
      (Mine_start ranges pads (Some False) (Some False) (Some False) live) S"
    and "results_of S = Some results"
  shows "pr_status (fst (Mine_finish candidate nonce_end results (ms_shared S))) =
    (if \<exists>n. unat nonce_begin \<le> n \<and> n \<le> unat nonce_end \<and> solves (bc_header candidate) target n
     then FOUND else EXHAUSTED)"
proof -
  obtain ranges' where p: "PartitionNonceRange nonce_begin nonce_end (of_nat (length pads)) = Inr ranges'"
    "concat (map range_nonces ranges') = [unat nonce_begin..<Suc (unat nonce_end)]" "length ranges' \<le> length pads"
    "\<forall>rng \<in> set ranges'. nr_begin rng \<le> nr_end rng"
    by (rule Mine_ranges [OF assms(1,3)])
  then have eq: "ranges' = ranges" using assms(4) by simp
  note p = p [unfolded eq]
  let ?S0 = "Mine_start ranges pads (Some False) (Some False) (Some False) live"
  have "only_stopped ranges ?S0" by (rule start_only_stopped) (simp add: Mine_start_def quiet_def raised_def)
  then have S: "mine_inv (bc_header candidate) target ranges S" "only_stopped ranges S"
    using work_steps_rank [OF assms(5) Mine_start_inv [OF assms(1) p(3,4)]] by blast+
  obtain r candidate' where f: "Mine_finish candidate nonce_end results (ms_shared S) = (r, candidate')"
    by (rule prod.exhaust)
  have e: "Suc (unat nonce_end) - unat nonce_begin < 2 ^ 64"
    using u32_small [of "Suc (unat nonce_end) - unat nonce_begin" nonce_end] by simp
  have "mine_outcome candidate target (unat nonce_begin) (unat nonce_end) r candidate'"
    by (rule Mine_finish_outcome [OF mine_joined [OF S(1) assms(6) p(2)] e f])
  moreover have "pr_status r \<noteq> CANCELLED" by (rule quiet_result [OF S assms(6) f])
  ultimately show ?thesis using f by (cases "pr_status r") (auto simp: mine_outcome_def Let_def)
qed

theorem Mine_finds_solution_witness:
  "\<exists>c ranges S results. BuildBlockCandidate sample_block_template [0x51] (replicate 8 0) = Inr c \<and>
    PartitionNonceRange 0 0xffffffff 4 = Inr ranges \<and> results_of S = Some results \<and>
    pr_status (fst (Mine_finish c 0xffffffff results (ms_shared S))) =
      (if \<exists>n. 0 \<le> n \<and> n \<le> 4294967295 \<and> solves (bc_header c) (bt_target sample_block_template) n then FOUND else EXHAUSTED)"
proof -
  obtain c where c: "BuildBlockCandidate sample_block_template [0x51] (replicate 8 0) = Inr c"
    using sample_candidate [of "replicate 8 0"] by auto
  then have v: "ValidateBlockCandidateForMining c = Inr ()" using BuildBlockCandidate_ok by (simp add: Validate_iff)
  have le: "(0 :: u32) \<le> 0xffffffff" by simp
  let ?pads = "replicate 4 NonceScanner_new"
  obtain ranges where p: "PartitionNonceRange 0 0xffffffff (of_nat (length ?pads)) = Inr ranges"
    "length ranges \<le> length ?pads" "\<forall>rng \<in> set ranges. nr_begin rng \<le> nr_end rng"
    by (rule Mine_ranges [OF sample_miner le])
  let ?S0 = "Mine_start ranges ?pads (Some False) (Some False) (Some False) None"
  obtain S results where S: "(work_step (bc_header c) (bt_target sample_block_template) ranges)\<^sup>*\<^sup>* ?S0 S"
    "results_of S = Some results"
    using work_steps_finish [OF Mine_start_inv [OF sample_miner p(2,3)]] by blast
  obtain k where "((work_step (bc_header c) (bt_target sample_block_template) ranges) ^^ k) ?S0 S"
    using S(1) by (auto simp: rtranclp_power)
  from Mine_finds_solution [OF sample_miner v le p(1) this S(2)]
  have r: "pr_status (fst (Mine_finish c 0xffffffff results (ms_shared S))) =
      (if \<exists>n. 0 \<le> n \<and> n \<le> 4294967295 \<and> solves (bc_header c) (bt_target sample_block_template) n then FOUND else EXHAUSTED)"
    by simp
  have "PartitionNonceRange 0 0xffffffff 4 = Inr ranges" using p(1) by simp
  then show ?thesis
    by (intro exI [of _ c] exI [of _ ranges] exI [of _ S] exI [of _ results] conjI c S(2) r)
qed

end
