(* ===== verification/HashCounter.thy ===== *)
theory HashCounter
  imports ParallelMiner
begin

text \<open>
  The live counter of \<open>src/parallel_miner.cpp\<close>: every hash of every thread adds one to
  \<open>live_hashes\<close>, so that after the threads are joined it has grown by the count that \<open>Mine\<close> returns.
\<close>

text \<open>\<open>Mine\<close> with the value it leaves in \<open>live_hashes\<close>.\<close>

inductive Mine_counting :: "bytes list \<Rightarrow> BlockCandidate \<Rightarrow> UInt256 \<Rightarrow> u32 \<Rightarrow> u32 \<Rightarrow> bool option \<Rightarrow> bool option \<Rightarrow> u64 \<Rightarrow>
    bool option \<Rightarrow> (ParallelMineResult \<times> BlockCandidate) res \<Rightarrow> u64 \<Rightarrow> bool" where
  thrown: "Mine pads candidate target nonce_begin nonce_end c1 c2 (Some live) refresh (Inl e) \<Longrightarrow>
    Mine_counting pads candidate target nonce_begin nonce_end c1 c2 live refresh (Inl e) live"
| counted: "ValidateBlockCandidateForMining candidate = Inr () \<Longrightarrow>
    PartitionNonceRange nonce_begin nonce_end (of_nat (length pads)) = Inr ranges \<Longrightarrow>
    (mine_step (bc_header candidate) target ranges)\<^sup>*\<^sup>* (Mine_start ranges pads c1 c2 refresh (Some live)) S \<Longrightarrow>
    results_of S = Some results \<Longrightarrow> sh_live_hashes (ms_shared S) = Some live' \<Longrightarrow>
    Mine_counting pads candidate target nonce_begin nonce_end c1 c2 live refresh
      (Inr (Mine_finish candidate nonce_end results (ms_shared S))) live'"

inductive_cases Mine_countingE: "Mine_counting pads candidate target b e c1 c2 live refresh out live'"

text \<open>The hashes a thread has counted so far.\<close>

fun counted :: "worker \<Rightarrow> u64" where
  "counted (W_loop cb wh) = wh"
| "counted (W_scan ce n h wh) = wh + h"
| "counted (W_chunk_done ce wh) = wh"
| "counted (W_found r) = sr_hashes_checked r"
| "counted (W_done r) = sr_hashes_checked r"

lemma counted_step:
  assumes ok: "worker_ok header target rng wk"
    and step: "worker_step header target rng sh wk pad = Some (wk', pad', stores, hashed)"
  shows "counted wk' = counted wk + of_bool hashed"
proof (cases wk)
  case (W_scan ce n h wh)
  then obtain cb where cb: "unat (nr_begin rng) \<le> cb" "cb \<le> unat n" "h = of_nat (unat n - cb)"
    "wh = of_nat (cb - unat (nr_begin rng))" using ok by auto
  have split_count: "unat n - unat (nr_begin rng) = (cb - unat (nr_begin rng)) + (unat n - cb)" using cb by linarith
  have "SaturatingAdd wh h = wh + h" "SaturatingAdd wh (h + 1) = wh + (h + 1)"
    unfolding cb(3,4) scan_hashes(1,2) [OF cb(1,2)] split_count of_nat_add by (simp_all only: of_nat_1 add.assoc)
  with step W_scan show ?thesis
    by (auto simp: worker_step_def Let_def split: if_splits option.splits)
qed (use step in \<open>auto simp: worker_step_def Let_def split: if_splits\<close>)

definition live_inv :: "u64 \<Rightarrow> mine_state \<Rightarrow> bool" where
  "live_inv n S \<longleftrightarrow> sh_live_hashes (ms_shared S) = Some (n + sum_list (map counted (ms_workers S)))"

lemma sum_list_update_word:
  "i < length xs \<Longrightarrow> sum_list (map f (xs[i := x])) = sum_list (map f xs) + f x - (f (xs ! i) :: u64)"
  by (induction xs arbitrary: i) (auto simp: algebra_simps split: nat.splits)

lemma live_inv_step:
  assumes "mine_step header target ranges S S'" "mine_inv header target ranges S" "live_inv n S"
  shows "live_inv n S'"
  using assms(1)
proof cases
  case thread
  then show ?thesis
  proof cases
    case (work w wk pad stores hashed)
    have ok: "worker_ok header target (ranges ! w) (ms_workers S ! w)"
      using assms(2) work(2) by (simp add: mine_inv_def)
    have c: "counted wk = counted (ms_workers S ! w) + of_bool hashed" by (rule counted_step [OF ok work(3)])
    then show ?thesis using assms(3) work(1,2)
      by (simp add: live_inv_def sum_list_update_word)
  qed
qed (use assms(3) in \<open>simp_all add: live_inv_def\<close>)

lemma live_inv_steps:
  "(mine_step header target ranges)\<^sup>*\<^sup>* S S' \<Longrightarrow> mine_inv header target ranges S \<Longrightarrow> live_inv n S \<Longrightarrow>
    mine_inv header target ranges S' \<and> live_inv n S'"
  by (induction rule: rtranclp_induct) (auto intro: mine_step_inv live_inv_step)

lemma live_inv_start: "live_inv n (Mine_start ranges pads c1 c2 refresh (Some n))"
  by (simp add: live_inv_def Mine_start_def o_def)

lemma counted_results:
  assumes "results_of S = Some results"
  shows "map counted (ms_workers S) = map sr_hashes_checked results"
proof -
  have "map (\<lambda>wk. case wk of W_done r \<Rightarrow> Some r | _ \<Rightarrow> None) ws = map Some results \<Longrightarrow>
      map counted ws = map sr_hashes_checked results" for ws
    by (induction ws arbitrary: results) (auto split: worker.splits)
  then show ?thesis using assms by (simp add: results_of_def those_Some_iff)
qed

lemma finish_hashes:
  "pr_hashes_checked (fst (Mine_finish candidate nonce_end results sh)) =
    fold (\<lambda>result total. SaturatingAdd total (sr_hashes_checked result)) results 0"
  by (simp add: Mine_finish_def Let_def split: option.split)

lemma unat_sum_list:
  "sum_list (map (\<lambda>r. unat (f r :: u64)) xs) < 2 ^ 64 \<Longrightarrow> unat (sum_list (map f xs)) = sum_list (map (\<lambda>r. unat (f r)) xs)"
  by (induction xs) (simp_all add: unat_word_ariths)

lemma live_joined:
  assumes "miner_ok pads" "b \<le> e"
    and "PartitionNonceRange b e (of_nat (length pads)) = Inr ranges"
    and "(mine_step (bc_header candidate) target ranges)\<^sup>*\<^sup>* (Mine_start ranges pads c1 c2 refresh (Some n)) S"
    and "results_of S = Some results"
  shows "sh_live_hashes (ms_shared S) =
    Some (n + pr_hashes_checked (fst (Mine_finish candidate nonce_end results (ms_shared S))))"
proof -
  obtain ranges' where p: "PartitionNonceRange b e (of_nat (length pads)) = Inr ranges'"
    "concat (map range_nonces ranges') = [unat b..<Suc (unat e)]" "length ranges' \<le> length pads"
    "\<forall>rng \<in> set ranges'. nr_begin rng \<le> nr_end rng"
    by (rule Mine_ranges [OF assms(1,2)])
  then have eq: "ranges' = ranges" using assms(3) by simp
  note p = p [unfolded eq]
  have S: "mine_inv (bc_header candidate) target ranges S" "live_inv n S"
    using live_inv_steps [OF assms(4) Mine_start_inv [OF assms(1) p(3,4)] live_inv_start] by blast+
  let ?sum = "sum_list (map (\<lambda>r. unat (sr_hashes_checked r)) results)"
  have "?sum \<le> Suc (unat e) - unat b" by (rule joined_hashes(1) [OF mine_joined [OF S(1) assms(5) p(2)]])
  then have small: "?sum < 2 ^ 64" using u32_small [of "?sum" e] by simp
  have "fold (\<lambda>result total. SaturatingAdd total (sr_hashes_checked result)) results 0 = sum_list (map sr_hashes_checked results)"
    by (rule word_unat_eq_iff [THEN iffD2])
      (use total_hashes_value [of results 0] unat_sum_list [OF small] small in simp)
  then show ?thesis using S(2) unfolding live_inv_def finish_hashes counted_results [OF assms(5)] by simp
qed

lemma Mine_counting_Mine:
  "Mine_counting pads candidate target b e c1 c2 live refresh out live' \<Longrightarrow>
    Mine pads candidate target b e c1 c2 (Some live) refresh out"
  by (auto elim!: Mine_countingE intro: Mine.joined)

lemma Mine_counting_live:
  assumes "miner_ok pads" "nonce_begin \<le> nonce_end"
    and "Mine_counting pads candidate target nonce_begin nonce_end c1 c2 live refresh (Inr (r, candidate')) live'"
  shows "live' = live + pr_hashes_checked r"
proof -
  from assms(3) obtain ranges S results where
    c: "PartitionNonceRange nonce_begin nonce_end (of_nat (length pads)) = Inr ranges"
      "(mine_step (bc_header candidate) target ranges)\<^sup>*\<^sup>* (Mine_start ranges pads c1 c2 refresh (Some live)) S"
      "results_of S = Some results"
    and f: "sh_live_hashes (ms_shared S) = Some live'" "(r, candidate') = Mine_finish candidate nonce_end results (ms_shared S)"
    by (rule Mine_countingE) auto
  from live_joined [OF assms(1,2) c, of nonce_end] f show ?thesis by (metis fst_conv option.inject)
qed

section \<open>Properties\<close>

text \<open>C16: Whatever the interleaving of the threads, the live counter that the status line reads grows by
  exactly the number of hashes \<open>Mine\<close> reports, modulo \<open>2 ^ 64\<close>: the saturating sums of the result and
  the wrapping increments of the counter agree.\<close>

theorem Mine_counts_live_hashes:
  assumes "miner_ok pads" "nonce_begin \<le> nonce_end"
    and "Mine_counting pads candidate target nonce_begin nonce_end c1 c2 live refresh (Inr (r, candidate')) live'"
  shows "live' = live + pr_hashes_checked r"
  using assms by (rule Mine_counting_live)

lemma Mine_counting_total:
  assumes "miner_ok pads" "ValidateBlockCandidateForMining candidate = Inr ()" "b \<le> e"
  shows "\<exists>r candidate' live'. Mine_counting pads candidate target b e c1 c2 live refresh (Inr (r, candidate')) live'"
proof -
  obtain ranges where p: "PartitionNonceRange b e (of_nat (length pads)) = Inr ranges"
    "length ranges \<le> length pads" "\<forall>rng \<in> set ranges. nr_begin rng \<le> nr_end rng"
    by (rule Mine_ranges [OF assms(1,3)])
  obtain S results where S: "(work_step (bc_header candidate) target ranges)\<^sup>*\<^sup>* (Mine_start ranges pads c1 c2 refresh (Some live)) S"
    "results_of S = Some results"
    using work_steps_finish [OF Mine_start_inv [OF assms(1) p(2,3)]] by blast
  obtain live' where "sh_live_hashes (ms_shared S) = Some live'"
    using live_joined [OF assms(1,3) p(1) work_steps_mine_steps [OF S(1)] S(2)] by blast
  with Mine_counting.counted [OF assms(2) p(1) work_steps_mine_steps [OF S(1)] S(2)] show ?thesis
    by (metis surj_pair)
qed

theorem Mine_counts_live_hashes_witness:
  "\<exists>c r c' live'. BuildBlockCandidate sample_block_template [0x51] (replicate 8 0) = Inr c \<and>
    Mine_counting (replicate 4 NonceScanner_new) c (bt_target sample_block_template) 0 7 None None 41 None
      (Inr (r, c')) live' \<and> live' = 41 + pr_hashes_checked r"
proof -
  obtain c where c: "BuildBlockCandidate sample_block_template [0x51] (replicate 8 0) = Inr c"
    using sample_candidate [of "replicate 8 0"] by auto
  then have v: "ValidateBlockCandidateForMining c = Inr ()" using BuildBlockCandidate_ok by (simp add: Validate_iff)
  have le: "(0 :: u32) \<le> 7" by simp
  obtain r c' live' where m: "Mine_counting (replicate 4 NonceScanner_new) c (bt_target sample_block_template) 0 7 None None 41 None
      (Inr (r, c')) live'"
    using Mine_counting_total [OF sample_miner v le] by blast
  from Mine_counts_live_hashes [OF sample_miner le m] c m show ?thesis by blast
qed

end
