(* ===== verification/Effects.thy ===== *)
theory Effects
  imports Prelude
begin

text \<open>
  Effects with exceptions: an action takes the state of the process, returns a result or an
  exception, and the state it leaves, which an exception does not undo. The state of the process
  holds what the sources keep in statics; the world outside (the network, other threads that set
  flags, the file system, clocks) is its last component, of an arbitrary type, and the operations
  on it are parameters of the model.
\<close>

record 'e process =
  curl_global :: bool
  outside :: 'e

type_synonym ('w, 'a) act = "'w \<Rightarrow> 'a res \<times> 'w"

definition aok :: "'a \<Rightarrow> ('w, 'a) act" where
  "aok x = (\<lambda>w. (Inr x, w))"

definition athrow :: "exn \<Rightarrow> ('w, 'a) act" where
  "athrow e = (\<lambda>w. (Inl e, w))"

definition abind :: "('w, 'a) act \<Rightarrow> ('a \<Rightarrow> ('w, 'b) act) \<Rightarrow> ('w, 'b) act" where
  "abind m f = (\<lambda>w. case m w of (Inl e, w') \<Rightarrow> (Inl e, w') | (Inr x, w') \<Rightarrow> f x w')"

definition alift :: "'a res \<Rightarrow> ('w, 'a) act" where
  "alift r = (\<lambda>w. (r, w))"

definition athrow_if :: "bool \<Rightarrow> exn \<Rightarrow> ('w, unit) act" where
  "athrow_if c e = (if c then athrow e else aok ())"

text \<open>An operation on the outside world, which cannot throw.\<close>

definition eff :: "('e \<Rightarrow> 'a \<times> 'e) \<Rightarrow> ('e process, 'a) act" where
  "eff f = (\<lambda>p. let (x, e) = f (outside p) in (Inr x, p\<lparr>outside := e\<rparr>))"

fun aforeach :: "('a \<Rightarrow> ('w, unit) act) \<Rightarrow> 'a list \<Rightarrow> ('w, unit) act" where
  "aforeach f [] = aok ()"
| "aforeach f (x # xs) = abind (f x) (\<lambda>_. aforeach f xs)"

named_theorems act_simps \<open>inversion of actions that end in a result or an exception\<close>

lemma aok_eq [simp, act_simps]: "aok x w = (r, w') \<longleftrightarrow> r = Inr x \<and> w' = w"
  by (auto simp: aok_def)

lemma athrow_eq [simp, act_simps]: "athrow e w = (r, w') \<longleftrightarrow> r = Inl e \<and> w' = w"
  by (auto simp: athrow_def)

lemma alift_eq [simp, act_simps]: "alift m w = (r, w') \<longleftrightarrow> m = r \<and> w' = w"
  by (auto simp: alift_def)

lemma athrow_if_Inr [simp, act_simps]: "athrow_if c e w = (Inr u, w') \<longleftrightarrow> \<not> c \<and> w' = w"
  by (auto simp: athrow_if_def)

lemma athrow_if_Inl [simp, act_simps]: "athrow_if c e w = (Inl e', w') \<longleftrightarrow> c \<and> e' = e \<and> w' = w"
  by (auto simp: athrow_if_def)

lemma eff_Inr [act_simps]:
  "eff f p = (Inr x, p') \<longleftrightarrow> (\<exists>e. f (outside p) = (x, e) \<and> p' = p\<lparr>outside := e\<rparr>)"
  by (auto simp: eff_def split: prod.splits)

lemma eff_Inl [simp, act_simps]: "eff f p \<noteq> (Inl e, p')"
  by (auto simp: eff_def split: prod.splits)

lemma abind_Inr [act_simps]:
  "abind m f w = (Inr y, w') \<longleftrightarrow> (\<exists>x w1. m w = (Inr x, w1) \<and> f x w1 = (Inr y, w'))"
  by (auto simp: abind_def split: prod.splits sum.splits)

lemma abind_Inl [act_simps]:
  "abind m f w = (Inl e, w') \<longleftrightarrow>
    m w = (Inl e, w') \<or> (\<exists>x w1. m w = (Inr x, w1) \<and> f x w1 = (Inl e, w'))"
  by (auto simp: abind_def split: prod.splits sum.splits)

lemma abind_run [simp]:
  "m w = (Inr x, w1) \<Longrightarrow> abind m f w = f x w1"
  "m w = (Inl e, w1) \<Longrightarrow> abind m f w = (Inl e, w1)"
  by (simp_all add: abind_def)

lemma abind_aok [simp]: "abind (aok x) f = f x"
  by (simp add: abind_def aok_def)

text \<open>An action that throws no exceptions but those of a set.\<close>

definition throws_only :: "(exn \<Rightarrow> bool) \<Rightarrow> ('w, 'a) act \<Rightarrow> bool" where
  "throws_only P m \<longleftrightarrow> (\<forall>w e w'. m w = (Inl e, w') \<longrightarrow> P e)"

lemma throws_onlyD: "throws_only P m \<Longrightarrow> m w = (Inl e, w') \<Longrightarrow> P e"
  unfolding throws_only_def by blast

lemma throws_only_abind [intro]:
  "throws_only P m \<Longrightarrow> (\<And>x. throws_only P (f x)) \<Longrightarrow> throws_only P (abind m f)"
  unfolding throws_only_def act_simps by blast

lemma throws_only_basic [simp]:
  "throws_only P (aok x)" "throws_only P (eff g)"
  "throws_only P (athrow e) \<longleftrightarrow> P e"
  "throws_only P (athrow_if c e) \<longleftrightarrow> (c \<longrightarrow> P e)"
  "throws_only P (alift r) \<longleftrightarrow> (\<forall>e. r = Inl e \<longrightarrow> P e)"
  by (auto simp: throws_only_def)

lemma throws_only_aforeach: "(\<And>x. throws_only P (f x)) \<Longrightarrow> throws_only P (aforeach f xs)"
  by (induction xs) auto

lemma throws_only_mono: "throws_only P m \<Longrightarrow> (\<And>e. P e \<Longrightarrow> Q e) \<Longrightarrow> throws_only Q m"
  by (auto simp: throws_only_def)

text \<open>An action on a part of the state.\<close>

definition on_rest :: "('t, 'a) act \<Rightarrow> ('s \<times> 't, 'a) act" where
  "on_rest m = (\<lambda>(s, t). let (r, t') = m t in (r, s, t'))"

lemma on_rest_eq [act_simps]:
  "on_rest m (s, t) = (r, s', t') \<longleftrightarrow> m t = (r, t') \<and> s' = s"
  by (auto simp: on_rest_def split: prod.splits)

lemma throws_only_on_rest [simp]: "throws_only P (on_rest m) \<longleftrightarrow> throws_only P m"
proof
  assume l: "throws_only P (on_rest m)"
  show "throws_only P m" unfolding throws_only_def
  proof (intro allI impI)
    fix t e t' assume "m t = (Inl e, t')"
    then have "on_rest m (undefined, t) = (Inl e, undefined, t')" by (simp add: on_rest_def)
    with l show "P e" by (rule throws_onlyD)
  qed
next
  assume "throws_only P m"
  then show "throws_only P (on_rest m)"
    unfolding throws_only_def on_rest_def by (auto split: prod.splits)
qed

section \<open>Loops that may go on for ever\<close>

text \<open>A loop without a bound: each round gives the next state or the result.\<close>

partial_function (option) repeat_until :: "('s \<Rightarrow> 's + 'a) \<Rightarrow> 's \<Rightarrow> 'a option" where
  "repeat_until round st = (case round st of Inl st' \<Rightarrow> repeat_until round st' | Inr r \<Rightarrow> Some r)"

lemma repeat_until_induct:
  assumes "repeat_until round st = Some r"
    and "\<And>st r. round st = Inr r \<Longrightarrow> P st r"
    and "\<And>st st' r. round st = Inl st' \<Longrightarrow> repeat_until round st' = Some r \<Longrightarrow> P st' r \<Longrightarrow> P st r"
  shows "P st r"
proof -
  have "repeat_until round st = Some r \<and> P st r"
  proof (rule repeat_until.raw_induct [where P = "\<lambda>f x y. f = round \<longrightarrow> repeat_until round x = Some y \<and> P x y",
        OF _ assms(1), THEN mp])
    fix loop f x y
    assume IH: "\<And>f x y. loop f x = Some y \<Longrightarrow> f = round \<longrightarrow> repeat_until round x = Some y \<and> P x y"
      and step: "(case f x of Inl x' \<Rightarrow> loop f x' | Inr r \<Rightarrow> Some r) = Some y"
    show "f = round \<longrightarrow> repeat_until round x = Some y \<and> P x y"
    proof
      assume f: "f = round"
      show "repeat_until round x = Some y \<and> P x y"
      proof (cases "round x")
        case (Inl x')
        then have "repeat_until round x' = Some y \<and> P x' y" using IH step f by simp
        with Inl assms(3) show ?thesis by (subst repeat_until.simps) simp
      next
        case (Inr a)
        with step f have "a = y" by simp
        with Inr assms(2) show ?thesis by (subst repeat_until.simps) simp
      qed
    qed
  qed simp
  then show ?thesis ..
qed

text \<open>The result is that of a round in a state that the invariant holds of.\<close>

lemma repeat_until_result:
  assumes "repeat_until round st = Some r" "I st"
    and "\<And>st st'. I st \<Longrightarrow> round st = Inl st' \<Longrightarrow> I st'"
  shows "\<exists>st'. I st' \<and> round st' = Inr r"
proof -
  have "I st \<longrightarrow> (\<exists>st'. I st' \<and> round st' = Inr r)"
    by (rule repeat_until_induct [OF assms(1)]) (use assms(3) in blast)+
  with assms(2) show ?thesis by blast
qed

text \<open>A loop that never ends goes through infinitely many rounds.\<close>

lemma repeat_until_None:
  assumes "repeat_until round st = None"
  shows "\<exists>f. f 0 = st \<and> (\<forall>n. round (f n) = Inl (f (Suc n)))"
proof -
  define f where "f = rec_nat st (\<lambda>_ x. projl (round x))"
  have round: "\<exists>x'. round x = Inl x' \<and> repeat_until round x' = None" if "repeat_until round x = None" for x
    using that by (subst (asm) repeat_until.simps) (auto split: sum.splits)
  have "repeat_until round (f n) = None" for n
  proof (induction n)
    case (Suc n)
    with round [of "f n"] show ?case by (auto simp: f_def)
  qed (simp add: f_def assms)
  then have "round (f n) = Inl (f (Suc n))" for n
    using round [of "f n"] by (auto simp: f_def)
  then show ?thesis by (intro exI [of _ f]) (simp add: f_def)
qed

text \<open>The loop ends when every round that goes on makes a measure smaller.\<close>

lemma repeat_until_ends:
  assumes "\<And>st st'. I st \<Longrightarrow> round st = Inl st' \<Longrightarrow> I st' \<and> (m st' :: nat) < m st" "I st"
  shows "\<exists>r. repeat_until round st = Some r"
  using assms(2)
proof (induction "m st" arbitrary: st rule: less_induct)
  case less
  then show ?case using assms(1) [of st] by (subst repeat_until.simps) (auto split: sum.split)
qed

text \<open>
  The interface of a loop that repeats an operation for as long as it fails: what a failed round
  means and what a result means.
\<close>

locale retry =
  fixes round :: "'s \<Rightarrow> 's + 'a"
    and failed :: "'s \<Rightarrow> bool"
    and report :: "'a \<Rightarrow> bool"
  assumes round_Inl: "round st = Inl st' \<Longrightarrow> failed st"
    and round_Inr: "round st = Inr r \<Longrightarrow> report r"
begin

lemma retry_outcome:
  "case repeat_until round st of
     None \<Rightarrow> \<exists>sts. sts 0 = st \<and> (\<forall>n. failed (sts n))
   | Some r \<Rightarrow> report r"
proof (cases "repeat_until round st")
  case None
  then show ?thesis using repeat_until_None [OF None] round_Inl by fastforce
next
  case (Some r)
  then show ?thesis using repeat_until_result [OF Some, of "\<lambda>_. True"] round_Inr by auto
qed

lemma retry_result: "repeat_until round st = Some r \<Longrightarrow> report r"
  using retry_outcome [of st] by simp

end

text \<open>The message of an exception, \<open>what()\<close>.\<close>

fun what_of :: "exn \<Rightarrow> string" where
  "what_of (CoinbaseException m) = m"
| "what_of (BlockBuildException m) = m"
| "what_of (MiningJobException m) = m"
| "what_of (TemplateException m) = m"
| "what_of (NetworkException m) = m"
| "what_of (PayoutAddressException m) = m"
| "what_of (MinerConfigException m) = m"
| "what_of (RpcException m _) = m"
| "what_of (RpcCancelledException m) = m"
| "what_of (RpcConnectionException m) = m"
| "what_of (InvalidArgument m) = m"
| "what_of (RuntimeError m) = m"
| "what_of (JsonException m) = m"

end
