(* ===== verification/RuntimeReporter.thy ===== *)
theory RuntimeReporter
  imports Effects
begin

text \<open>
  \<open>src/runtime_reporter.h\<close> and \<open>src/runtime_reporter.cpp\<close>: the counters of a mining session and the
  thread that prints them at intervals. Times are nanoseconds of the steady clock. The clock, the
  sleep, the stop request and the loads of the counters, which other threads change, are operations
  on the world outside; so is the arithmetic of \<open>double\<close>, which the model only passes on.
\<close>

record MiningRuntimeStats =
  completed_hashes :: u64
  accepted_blocks :: u64
  stale_work :: u64
  rejected_blocks :: u64
  current_height :: u64

definition no_stats :: MiningRuntimeStats where
  "no_stats = \<lparr>completed_hashes = 0, accepted_blocks = 0, stale_work = 0, rejected_blocks = 0, current_height = 0\<rparr>"

record MiningRuntimeSnapshot =
  sn_completed_hashes :: u64
  sn_accepted_blocks :: u64
  sn_stale_work :: u64
  sn_rejected_blocks :: u64
  sn_current_height :: u64

text \<open>Five loads, each of one counter: the counters may change in between.\<close>

definition SnapshotMiningRuntimeStats :: "('e \<Rightarrow> MiningRuntimeStats \<times> 'e) \<Rightarrow> 'e \<Rightarrow> MiningRuntimeSnapshot \<times> 'e" where
  "SnapshotMiningRuntimeStats load e =
    (let (s1, e) = load e; (s2, e) = load e; (s3, e) = load e; (s4, e) = load e; (s5, e) = load e
     in (\<lparr>sn_completed_hashes = completed_hashes s1, sn_accepted_blocks = accepted_blocks s2,
          sn_stale_work = stale_work s3, sn_rejected_blocks = rejected_blocks s4,
          sn_current_height = current_height s5\<rparr>, e))"

section \<open>Rates and times\<close>

record 'd double_ops =
  d_zero :: 'd
  d_of_u64 :: "u64 \<Rightarrow> 'd"
  d_seconds :: "int \<Rightarrow> 'd"
  d_le_zero :: "'d \<Rightarrow> bool"
  d_div :: "'d \<Rightarrow> 'd \<Rightarrow> 'd"
  d_fixed2 :: "'d \<Rightarrow> string"

definition CalculateHashRate :: "'d double_ops \<Rightarrow> u64 \<Rightarrow> u64 \<Rightarrow> int \<Rightarrow> 'd" where
  "CalculateHashRate D previous_hashes current_hashes elapsed =
    (if current_hashes < previous_hashes \<or> elapsed \<le> 0 then d_zero D
     else let seconds = d_seconds D elapsed
       in if d_le_zero D seconds then d_zero D
          else d_div D (d_of_u64 D (current_hashes - previous_hashes)) seconds)"

text \<open>\<open>duration_cast\<close> to a coarser unit rounds toward zero.\<close>

definition duration_cast :: "int \<Rightarrow> int \<Rightarrow> int" where
  "duration_cast unit t = sgn t * (\<bar>t\<bar> div unit)"

definition setw2 :: "int \<Rightarrow> string" where
  "setw2 n = (let s = to_string_int n in replicate (2 - length s) CHR ''0'' @ s)"

definition FormatMiningUptime :: "int \<Rightarrow> string" where
  "FormatMiningUptime elapsed =
    (let total_seconds = duration_cast 1000000000 elapsed;
         total_seconds = (if total_seconds < 0 then 0 else total_seconds);
         hours = total_seconds div 3600;
         minutes = (total_seconds mod 3600) div 60;
         seconds = total_seconds mod 60
     in setw2 hours @ '':'' @ setw2 minutes @ '':'' @ setw2 seconds)"

section \<open>The thread\<close>

record 'e reporter_api =
  ra_now :: "'e \<Rightarrow> int \<times> 'e"
  ra_stop_requested :: "'e \<Rightarrow> bool \<times> 'e"
  ra_sleep :: "int \<Rightarrow> 'e \<Rightarrow> 'e"
  ra_load :: "'e \<Rightarrow> MiningRuntimeStats \<times> 'e"
  ra_print :: "string \<Rightarrow> 'e \<Rightarrow> 'e"

text \<open>One round of the loop of \<open>WaitForInterval\<close>; the interval and the delay are milliseconds.\<close>

definition delay_until :: "int \<Rightarrow> int \<Rightarrow> int" where
  "delay_until deadline now =
    (let remaining = duration_cast 1000000 (deadline - now);
         remaining = (if remaining \<le> 0 then 1 else remaining)
     in min remaining 100)"

definition wait_round :: "'e reporter_api \<Rightarrow> int \<Rightarrow> 'e \<Rightarrow> 'e + bool \<times> 'e" where
  "wait_round R deadline e =
    (let (stop, e) = ra_stop_requested R e
     in if stop then Inr (False, e)
        else let (now, e) = ra_now R e
          in if now \<ge> deadline then Inr (True, e)
             else Inl (ra_sleep R (delay_until deadline now) e))"

definition WaitForInterval :: "'e reporter_api \<Rightarrow> int \<Rightarrow> 'e \<Rightarrow> (bool \<times> 'e) option" where
  "WaitForInterval R interval e =
    (let (now, e) = ra_now R e
     in repeat_until (wait_round R (now + 1000000 * interval)) e)"

definition status_line :: "'d double_ops \<Rightarrow> nat \<Rightarrow> MiningRuntimeSnapshot \<Rightarrow> 'd \<Rightarrow> int \<Rightarrow> string" where
  "status_line D worker_count snapshot hash_rate uptime =
    ''[status] height='' @ to_string (unat (sn_current_height snapshot)) @
    '' workers='' @ to_string worker_count @
    '' hashrate='' @ d_fixed2 D hash_rate @ '' H/s session_hashes='' @ to_string (unat (sn_completed_hashes snapshot)) @
    '' accepted='' @ to_string (unat (sn_accepted_blocks snapshot)) @
    '' stale='' @ to_string (unat (sn_stale_work snapshot)) @
    '' rejected='' @ to_string (unat (sn_rejected_blocks snapshot)) @
    '' uptime='' @ FormatMiningUptime uptime @ [CHR 0x0A]"

text \<open>One status report: the state of the loop is \<open>previous_time\<close> and \<open>previous_hashes\<close>.\<close>

definition report_status :: "'e reporter_api \<Rightarrow> 'd double_ops \<Rightarrow> nat \<Rightarrow> int \<Rightarrow> int \<times> u64 \<Rightarrow> 'e \<Rightarrow> (int \<times> u64) \<times> 'e" where
  "report_status R D worker_count started = (\<lambda>(previous_time, previous_hashes) e.
    let (now, e) = ra_now R e;
        (snapshot, e) = SnapshotMiningRuntimeStats (ra_load R) e;
        hash_rate = CalculateHashRate D previous_hashes (sn_completed_hashes snapshot) (now - previous_time);
        e = ra_print R (status_line D worker_count snapshot hash_rate (now - started)) e
    in ((now, sn_completed_hashes snapshot), e))"

partial_function (option) report_loop :: "('e \<Rightarrow> (bool \<times> 'e) option) \<Rightarrow> ('s \<Rightarrow> 'e \<Rightarrow> 's \<times> 'e) \<Rightarrow> 's \<times> 'e \<Rightarrow> 'e option" where
  "report_loop wait report st =
    Option.bind (wait (snd st)) (\<lambda>w. if fst w then report_loop wait report (report (fst st) (snd w)) else Some (snd w))"

definition RuntimeReporter_new :: "nat \<Rightarrow> int \<Rightarrow> unit res" where
  "RuntimeReporter_new worker_count interval =
    rbind (throw_if (worker_count = 0) (InvalidArgument ''runtime reporter worker count must be positive'')) (\<lambda>_.
    throw_if (interval \<le> 0) (InvalidArgument ''runtime reporter interval must be positive''))"

definition reporter_thread :: "'e reporter_api \<Rightarrow> 'd double_ops \<Rightarrow> nat \<Rightarrow> int \<Rightarrow> 'e \<Rightarrow> 'e option" where
  "reporter_thread R D worker_count interval e =
    (let (started, e) = ra_now R e; (stats, e) = ra_load R e
     in report_loop (WaitForInterval R interval) (report_status R D worker_count started)
          ((started, completed_hashes stats), e))"

section \<open>Waiting\<close>

lemma delay_bounds: "now < deadline \<Longrightarrow> 1 \<le> delay_until deadline now \<and> delay_until deadline now \<le> 100"
  by (simp add: delay_until_def Let_def)

text \<open>A clock that a sleep advances by at least its duration, and that nothing else sets.\<close>

definition steady :: "'e reporter_api \<Rightarrow> ('e \<Rightarrow> int) \<Rightarrow> bool" where
  "steady R clock \<longleftrightarrow> (\<forall>e. fst (ra_now R e) = clock (snd (ra_now R e)) \<and>
    clock e \<le> clock (snd (ra_now R e)) \<and> clock e \<le> clock (snd (ra_stop_requested R e)) \<and>
    (\<forall>d. d > 0 \<longrightarrow> clock e + 1000000 * d \<le> clock (ra_sleep R d e)))"

lemma wait_round_Inl:
  assumes "steady R clock" "wait_round R deadline e = Inl e'"
  shows "clock e < deadline \<and> clock e + 1000000 \<le> clock e'"
proof -
  obtain e1 now e2 where e: "ra_stop_requested R e = (False, e1)" "ra_now R e1 = (now, e2)" "now < deadline"
    "e' = ra_sleep R (delay_until deadline now) e2"
    using assms(2) by (auto simp: wait_round_def split: prod.splits if_splits)
  have s: "clock e \<le> clock e1" "clock e1 \<le> clock e2" "now = clock e2"
    using assms(1) e(1,2) unfolding steady_def by (metis fst_conv snd_conv)+
  have d: "1 \<le> delay_until deadline now" using delay_bounds [OF e(3)] by simp
  then have "clock e2 + 1000000 * delay_until deadline now \<le> clock e'"
    using assms(1) unfolding steady_def e(4) by simp
  with s d e(3) show ?thesis by linarith
qed

lemma wait_round_Inr:
  "wait_round R deadline e = Inr (b, e') \<Longrightarrow>
    (b \<longrightarrow> (\<exists>e1 now. ra_now R e1 = (now, e') \<and> deadline \<le> now)) \<and>
    (\<not> b \<longrightarrow> (\<exists>e1. ra_stop_requested R e1 = (True, e')))"
  by (auto simp: wait_round_def split: prod.splits if_splits)

section \<open>Properties\<close>

text \<open>C32: The wait between two status reports ends: on a clock that a sleep advances by its duration, it
  returns true once the clock has passed the interval, or false as soon as it sees the stop request;
  it never reports an interval that has not passed.\<close>

theorem WaitForInterval_ends:
  assumes "steady R clock"
  shows "\<exists>b e'. WaitForInterval R interval e = Some (b, e') \<and>
    (if b then clock e + 1000000 * interval \<le> clock e' else \<exists>e1. ra_stop_requested R e1 = (True, e'))"
proof -
  obtain now e0 where n: "ra_now R e = (now, e0)" by fastforce
  with assms have now: "now = clock e0" "clock e \<le> clock e0" unfolding steady_def by (metis fst_conv snd_conv)+
  let ?round = "wait_round R (now + 1000000 * interval)"
  have "\<exists>r. repeat_until ?round e0 = Some r"
    by (rule repeat_until_ends [where I = "\<lambda>_. True" and m = "\<lambda>e. nat (now + 1000000 * interval - clock e)"])
      (use wait_round_Inl [OF assms] in fastforce)+
  then obtain b e' where r: "repeat_until ?round e0 = Some (b, e')" by auto
  then obtain e1 where "?round e1 = Inr (b, e')"
    using repeat_until_result [of ?round e0 "(b, e')" "\<lambda>_. True"] by blast
  from wait_round_Inr [OF this] have w: "if b then \<exists>e1 now'. ra_now R e1 = (now', e') \<and> now + 1000000 * interval \<le> now'
      else \<exists>e1. ra_stop_requested R e1 = (True, e')" by simp
  have "clock e + 1000000 * interval \<le> clock e'" if b
  proof -
    from w that obtain e1 now' where "ra_now R e1 = (now', e')" "now + 1000000 * interval \<le> now'" by auto
    moreover from this(1) assms have "now' = clock e'" unfolding steady_def by (metis fst_conv snd_conv)
    ultimately show ?thesis using now by simp
  qed
  with r w n show ?thesis by (intro exI [of _ b] exI [of _ e']) (simp add: WaitForInterval_def)
qed

text \<open>A clock that only sleeping advances, and no stop request.\<close>

definition sample_reporter :: "int reporter_api" where
  "sample_reporter = \<lparr>ra_now = (\<lambda>e. (e, e)), ra_stop_requested = (\<lambda>e. (e > 5000000000, e)),
    ra_sleep = (\<lambda>d e. e + 1000000 * d), ra_load = (\<lambda>e. (no_stats, e)), ra_print = (\<lambda>_ e. e)\<rparr>"

theorem WaitForInterval_ends_witness:
  "\<exists>b e'. WaitForInterval sample_reporter 1000 0 = Some (b, e') \<and>
    (if b then 0 + 1000000 * 1000 \<le> e' else \<exists>e1. ra_stop_requested sample_reporter e1 = (True, e'))"
proof -
  have "steady sample_reporter id" by (simp add: steady_def sample_reporter_def)
  from WaitForInterval_ends [OF this, of 1000 0] show ?thesis unfolding id_apply .
qed

end
