(* ===== verification/MiningJob.thy ===== *)
theory MiningJob
  imports BlockBuilder
begin

text \<open>
  \<open>src/mining_job.h\<close> and \<open>src/mining_job.cpp\<close>: a job holds a template and a payout script and
  hands out candidates that differ in their extranonce, until the 64-bit extranonces are used up.
\<close>

record MiningCandidate =
  mc_candidate :: BlockCandidate
  mc_extranonce :: u64

record MiningJob =
  m_block_template :: BlockTemplate
  m_payout_script :: bytes
  m_next_extranonce :: u64
  m_extranonce_exhausted :: bool

definition EncodeExtranonce64 :: "u64 \<Rightarrow> bytes" where
  "EncodeExtranonce64 v = fold (\<lambda>i result. result[i := ucast (drop_bit (8 * i) v)]) [0..<8] (replicate 8 0)"

definition MiningJob_new :: "BlockTemplate \<Rightarrow> bytes \<Rightarrow> u64 \<Rightarrow> MiningJob res" where
  "MiningJob_new block_template payout_script initial_extranonce =
    rbind (throw_if (payout_script = []) (MiningJobException ''mining payout script must not be empty'')) (\<lambda>_.
    ok \<lparr>m_block_template = block_template, m_payout_script = payout_script,
        m_next_extranonce = initial_extranonce, m_extranonce_exhausted = False\<rparr>)"

definition NextCandidate :: "MiningJob \<Rightarrow> (MiningCandidate \<times> MiningJob) res" where
  "NextCandidate job =
    rbind (throw_if (m_extranonce_exhausted job) (MiningJobException ''mining extranonce space exhausted'')) (\<lambda>_.
    let extranonce = m_next_extranonce job;
        encoded_extranonce = EncodeExtranonce64 extranonce
    in rbind (BuildBlockCandidate (m_block_template job) (m_payout_script job) encoded_extranonce) (\<lambda>candidate.
    let work = \<lparr>mc_candidate = candidate, mc_extranonce = extranonce\<rparr>;
        job = (if m_next_extranonce job = 0xffffffffffffffff
               then job\<lparr>m_extranonce_exhausted := True\<rparr>
               else job\<lparr>m_next_extranonce := m_next_extranonce job + 1\<rparr>)
    in ok (work, job)))"

definition HasMoreCandidates :: "MiningJob \<Rightarrow> bool" where
  "HasMoreCandidates job \<longleftrightarrow> \<not> m_extranonce_exhausted job"

section \<open>The candidates a job hands out\<close>

text \<open>The results of calling \<open>NextCandidate\<close> until it throws, at most \<open>n\<close> times.\<close>

fun issued :: "nat \<Rightarrow> MiningJob \<Rightarrow> MiningCandidate list" where
  "issued 0 job = []"
| "issued (Suc n) job =
    (case NextCandidate job of Inl e \<Rightarrow> [] | Inr (c, job') \<Rightarrow> c # issued n job')"

lemma EncodeExtranonce64_eq: "EncodeExtranonce64 v = le_bytes 8 v"
proof -
  have u: "[0..<8] = [0, 1, 2, 3, 4, 5, 6, 7]" by (simp add: upt_rec)
  show ?thesis by (simp add: EncodeExtranonce64_def u eval_nat_numeral drop_bit_drop_bit)
qed

lemma NextCandidate_Inr:
  assumes "NextCandidate job = Inr (c, job')"
  shows "\<not> m_extranonce_exhausted job" "mc_extranonce c = m_next_extranonce job"
    and "BuildBlockCandidate (m_block_template job) (m_payout_script job) (le_bytes 8 (m_next_extranonce job)) =
      Inr (mc_candidate c)"
    and "m_block_template job' = m_block_template job" "m_payout_script job' = m_payout_script job"
    and "if m_next_extranonce job = 0xffffffffffffffff then m_extranonce_exhausted job'
      else \<not> m_extranonce_exhausted job' \<and> unat (m_next_extranonce job') = Suc (unat (m_next_extranonce job))"
  using assms unat_add_one [of "m_next_extranonce job"] by (auto simp: NextCandidate_def rbind_Inr_iff Let_def EncodeExtranonce64_eq split: if_splits)

lemma issued_exhausted [simp]: "m_extranonce_exhausted job \<Longrightarrow> issued n job = []"
  by (cases n) (simp_all add: NextCandidate_def)

lemma issued_extranonces:
  "map (\<lambda>c. unat (mc_extranonce c)) (issued n job) =
    [unat (m_next_extranonce job)..<unat (m_next_extranonce job) + length (issued n job)]"
proof (induction n arbitrary: job)
  case (Suc n)
  show ?case
  proof (cases "NextCandidate job")
    case (Inr p)
    then obtain c job' where n: "NextCandidate job = Inr (c, job')" by (cases p) simp
    note s = NextCandidate_Inr [OF n]
    show ?thesis
    proof (cases "m_extranonce_exhausted job'")
      case False
      then have "unat (m_next_extranonce job') = Suc (unat (m_next_extranonce job))"
        using s(6) by (auto split: if_splits)
      then show ?thesis using n s(2) Suc.IH [of job'] by (simp add: upt_conv_Cons del: upt_Suc)
    qed (use n s(2) in simp)
  qed simp
qed simp

lemma issued_built:
  "c \<in> set (issued n job) \<Longrightarrow>
    BuildBlockCandidate (m_block_template job) (m_payout_script job) (le_bytes 8 (mc_extranonce c)) = Inr (mc_candidate c)"
proof (induction n arbitrary: job)
  case (Suc n)
  show ?case
  proof (cases "NextCandidate job")
    case (Inr p)
    then obtain c' job' where n: "NextCandidate job = Inr (c', job')" by (cases p) simp
    show ?thesis using Suc.prems Suc.IH [of job'] n NextCandidate_Inr [OF n] by auto
  qed (use Suc in simp)
qed simp

lemma candidate_script_sig:
  assumes "BuildBlockCandidate t payout en = Inr c"
  shows "\<exists>pre. \<forall>en' c'. BuildBlockCandidate t payout en' = Inr c' \<longrightarrow>
    script_sig (bc_coinbase c') = pre @ en'"
proof -
  have "\<exists>aux. hex_decode (bt_coinbase_aux_flags t) = Some aux \<and> script_sig (bc_coinbase c') = coinbase_sig (ucast (bt_height t)) aux en'"
    if "BuildBlockCandidate t payout en' = Inr c'" for en' c'
    using that unfolding BuildBlockCandidate_iff
    by (elim exE conjE) (simp add: BuildCoinbaseTransaction_iff Let_def)
  then have s: "script_sig (bc_coinbase c') = coinbase_sig (ucast (bt_height t)) (the (hex_decode (bt_coinbase_aux_flags t))) en'"
    if "BuildBlockCandidate t payout en' = Inr c'" for en' c' using that by fastforce
  show ?thesis
    by (rule exI [where x = "coinbase_sig (ucast (bt_height t)) (the (hex_decode (bt_coinbase_aux_flags t))) []"])
      (simp add: s coinbase_sig_def)
qed

lemma issued_distinct: "distinct (map (\<lambda>c. script_sig (bc_coinbase (mc_candidate c))) (issued n job))"
proof -
  have d: "distinct (map mc_extranonce (issued n job))"
  proof -
    have "distinct (map (\<lambda>c. unat (mc_extranonce c)) (issued n job))" unfolding issued_extranonces by simp
    then show ?thesis by (simp add: distinct_map inj_on_def)
  qed
  have "inj_on (\<lambda>c. script_sig (bc_coinbase (mc_candidate c))) (set (issued n job))"
  proof (rule inj_onI)
    fix c c' assume c: "c \<in> set (issued n job)" "c' \<in> set (issued n job)"
      and eq: "script_sig (bc_coinbase (mc_candidate c)) = script_sig (bc_coinbase (mc_candidate c'))"
    note b = issued_built [OF c(1)] issued_built [OF c(2)]
    obtain pre where "script_sig (bc_coinbase (mc_candidate c)) = pre @ le_bytes 8 (mc_extranonce c)"
      "script_sig (bc_coinbase (mc_candidate c')) = pre @ le_bytes 8 (mc_extranonce c')"
      using candidate_script_sig [OF b(1)] b by blast
    then have "le_bytes 8 (mc_extranonce c) = le_bytes 8 (mc_extranonce c')" using eq by simp
    then have "mc_extranonce c = mc_extranonce c'" by (simp add: le_bytes_inj)
    moreover have "inj_on mc_extranonce (set (issued n job))" using d by (simp add: distinct_map)
    ultimately show "c = c'" using c by (simp add: inj_on_eq_iff)
  qed
  then show ?thesis using d by (simp add: distinct_map)
qed

section \<open>Properties\<close>

text \<open>The candidates of a job carry consecutive extranonces from the initial one, never wrapping
  around: at most \<open>2 ^ 64\<close> minus the initial extranonce are handed out. No two have the same
  coinbase script, and each is the block candidate of the template for its extranonce.\<close>

theorem NextCandidate_never_repeats:
  assumes "MiningJob_new t payout initial = Inr job"
  shows "map (\<lambda>c. unat (mc_extranonce c)) (issued n job) = [unat initial..<unat initial + length (issued n job)] \<and>
    unat initial + length (issued n job) \<le> 2 ^ 64 \<and>
    distinct (map (\<lambda>c. script_sig (bc_coinbase (mc_candidate c))) (issued n job)) \<and>
    list_all (\<lambda>c. BuildBlockCandidate t payout (EncodeExtranonce64 (mc_extranonce c)) = Inr (mc_candidate c)) (issued n job)"
proof -
  have j: "m_next_extranonce job = initial" "m_block_template job = t" "m_payout_script job = payout"
    using assms by (auto simp: MiningJob_new_def rbind_Inr_iff)
  have e: "map (\<lambda>c. unat (mc_extranonce c)) (issued n job) = [unat initial..<unat initial + length (issued n job)]"
    using issued_extranonces [of n job] by (simp only: j)
  have "unat initial + length (issued n job) \<le> 2 ^ 64"
  proof (cases "issued n job = []")
    case True
    then show ?thesis using unsigned_less [of initial, where ?'a = nat] by simp
  next
    case False
    then have "unat (mc_extranonce (last (issued n job))) = last [unat initial..<unat initial + length (issued n job)]"
      by (simp flip: e add: last_map)
    also have "\<dots> = unat initial + length (issued n job) - 1" using False by (intro last_upt) simp
    finally show ?thesis using unsigned_less [of "mc_extranonce (last (issued n job))", where ?'a = nat] by simp
  qed
  then show ?thesis
    using e issued_distinct [of n job] issued_built [of _ n job]
    by (simp add: j list_all_iff EncodeExtranonce64_eq)
qed

lemma sample_NextCandidate_for:
  assumes "m_block_template job = sample_block_template" "length (m_payout_script job) \<le> 100" "\<not> m_extranonce_exhausted job"
  shows "\<exists>c job'. NextCandidate job = Inr (c, job')"
  using sample_candidate_for [OF _ assms(2), of "le_bytes 8 (m_next_extranonce job)"] assms
  by (auto simp: NextCandidate_def EncodeExtranonce64_eq Let_def)

lemma sample_NextCandidate:
  "m_block_template job = sample_block_template \<Longrightarrow> m_payout_script job = [0x51] \<Longrightarrow> \<not> m_extranonce_exhausted job \<Longrightarrow>
    \<exists>c job'. NextCandidate job = Inr (c, job')"
  by (rule sample_NextCandidate_for) simp_all

theorem NextCandidate_never_repeats_witness:
  "\<exists>job. MiningJob_new sample_block_template [0x51] 0xfffffffffffffffe = Inr job \<and> length (issued 5 job) = 2 \<and>
    distinct (map (\<lambda>c. script_sig (bc_coinbase (mc_candidate c))) (issued 5 job))"
proof -
  obtain job where job: "MiningJob_new sample_block_template [0x51] 0xfffffffffffffffe = Inr job"
    by (simp add: MiningJob_new_def)
  then have j: "m_next_extranonce job = 0xfffffffffffffffe" "m_block_template job = sample_block_template"
    "m_payout_script job = [0x51]" "\<not> m_extranonce_exhausted job"
    by (auto simp: MiningJob_new_def)
  obtain c1 j1 where n1: "NextCandidate job = Inr (c1, j1)" using sample_NextCandidate j by blast
  note s1 = NextCandidate_Inr [OF n1]
  have x1: "\<not> m_extranonce_exhausted j1" "m_next_extranonce j1 = 0xffffffffffffffff"
    using n1 j by (auto simp: NextCandidate_def rbind_Inr_iff Let_def)
  obtain c2 j2 where n2: "NextCandidate j1 = Inr (c2, j2)" using sample_NextCandidate s1 j x1 by metis
  have "m_extranonce_exhausted j2" using NextCandidate_Inr(6) [OF n2] x1 by simp
  then have "NextCandidate j2 = Inl (MiningJobException ''mining extranonce space exhausted'')"
    by (simp add: NextCandidate_def)
  then have "issued 5 job = [c1, c2]" using n1 n2 by (simp add: eval_nat_numeral)
  then show ?thesis using NextCandidate_never_repeats [OF job, of 5] job by auto
qed

text \<open>After the candidate with the last extranonce, and only then, the job reports that it has no
  more candidates, and every further call throws without changing the job.\<close>

theorem NextCandidate_exhausts:
  assumes "NextCandidate job = Inr (c, job')"
  shows "(HasMoreCandidates job' \<longleftrightarrow> mc_extranonce c \<noteq> 0xffffffffffffffff) \<and>
    (NextCandidate job' = Inl (MiningJobException ''mining extranonce space exhausted'') \<or> HasMoreCandidates job')"
  using NextCandidate_Inr [OF assms]
  by (auto simp: HasMoreCandidates_def NextCandidate_def [of job'] split: if_splits)

theorem NextCandidate_exhausts_witness:
  "\<exists>c job'. NextCandidate \<lparr>m_block_template = sample_block_template, m_payout_script = [0x51],
      m_next_extranonce = 0xffffffffffffffff, m_extranonce_exhausted = False\<rparr> = Inr (c, job') \<and>
    \<not> HasMoreCandidates job'"
proof -
  let ?job = "\<lparr>m_block_template = sample_block_template, m_payout_script = [0x51],
      m_next_extranonce = 0xffffffffffffffff, m_extranonce_exhausted = False\<rparr> :: MiningJob"
  obtain c job' where n: "NextCandidate ?job = Inr (c, job')"
    using sample_NextCandidate [of ?job] by auto
  then show ?thesis using NextCandidate_exhausts [OF n] NextCandidate_Inr(2) [OF n] by auto
qed

end
