(* ===== verification/Rpc.thy ===== *)
theory Rpc
  imports Json Effects
begin

text \<open>
  \<open>src/rpc.h\<close> and \<open>src/rpc.cpp\<close>: the JSON-RPC client. libcurl is third-party code: a record of the
  operations that the sources call. The theorems say which responses give a result, which give which
  exception, and that a call is cancelled only by its flag.
\<close>

section \<open>libcurl\<close>

datatype CURLcode = CURLE_OK | CURLE_ABORTED_BY_CALLBACK | CURLE_OTHER nat

datatype curl_flag = CURLPROTO_HTTP | CURLPROTO_HTTPS | CURLAUTH_BASIC

text \<open>An atomic flag is the effect of loading it; other threads may store it at any time.\<close>

type_synonym 'e atomic_flag = "'e \<Rightarrow> bool \<times> 'e"

datatype 'e curl_option =
    CURLOPT_URL string
  | CURLOPT_PROTOCOLS "curl_flag list"
  | CURLOPT_POST int
  | CURLOPT_HTTPHEADER "string list"
  | CURLOPT_POSTFIELDS string
  | CURLOPT_POSTFIELDSIZE_LARGE int
  | CURLOPT_USERPWD string
  | CURLOPT_HTTPAUTH "curl_flag list"
  | CURLOPT_WRITEFUNCTION
  | CURLOPT_WRITEDATA
  | CURLOPT_CONNECTTIMEOUT int
  | CURLOPT_TIMEOUT int
  | CURLOPT_NOPROGRESS int
  | CURLOPT_XFERINFOFUNCTION "'e atomic_flag option \<Rightarrow> 'e \<Rightarrow> int \<times> 'e"
  | CURLOPT_XFERINFODATA "'e atomic_flag"
  | CURLOPT_NOSIGNAL int
  | CURLOPT_ACCEPT_ENCODING string

text \<open>
  \<open>curl_init\<close> and \<open>curl_append\<close> tell whether \<open>curl_easy_init()\<close> and \<open>curl_slist_append()\<close> return a
  non-null pointer. \<open>curl_perform\<close> gets the options of the handle and answers with the calls it
  makes to the write function (data, size, count) and its code.
\<close>

record 'e curl_api =
  curl_global_init :: "'e \<Rightarrow> CURLcode \<times> 'e"
  curl_init :: "'e \<Rightarrow> bool \<times> 'e"
  curl_append :: "'e \<Rightarrow> bool \<times> 'e"
  curl_setopt :: "'e curl_option \<Rightarrow> 'e \<Rightarrow> CURLcode \<times> 'e"
  curl_perform :: "'e curl_option list \<Rightarrow> 'e \<Rightarrow> ((string \<times> u64 \<times> u64) list \<times> CURLcode) \<times> 'e"
  curl_response_code :: "'e \<Rightarrow> (CURLcode \<times> int) \<times> 'e"
  curl_strerror :: "CURLcode \<Rightarrow> string"

section \<open>Data\<close>

record 'e RpcCallOptions =
  timeout_seconds :: int
  cancelled :: "'e atomic_flag option"

definition default_options :: "'e RpcCallOptions" where
  "default_options = \<lparr>timeout_seconds = 30, cancelled = None\<rparr>"

record RpcCredentials =
  basic_auth :: string

datatype SubmitBlockResult = NEEDS_TIP_CONFIRMATION | REJECTED

record RpcClient =
  m_url :: string
  m_credentials :: RpcCredentials
  m_next_id :: u64

section \<open>Helpers\<close>

definition EnsureCurlInitialized :: "'e curl_api \<Rightarrow> ('e process, unit) act" where
  "EnsureCurlInitialized C p =
    (if curl_global p then aok () p
     else abind (eff (curl_global_init C)) (\<lambda>result.
       if result \<noteq> CURLE_OK
       then athrow (RpcException (''curl_global_init failed: '' @ curl_strerror C result) None)
       else (\<lambda>p. (Inr (), p\<lparr>curl_global := True\<rparr>))) p)"

definition WriteResponse :: "string \<Rightarrow> u64 \<Rightarrow> u64 \<Rightarrow> string \<Rightarrow> u64 \<times> string" where
  "WriteResponse data sz count out =
    (if count \<noteq> 0 \<and> sz > - 1 div count then (0, out)
     else let n = sz * count in (n, out @ take (unat n) data))"

fun TrimLineEnding_rev :: "string \<Rightarrow> string" where
  "TrimLineEnding_rev [] = []"
| "TrimLineEnding_rev (c # cs) =
    (if c = CHR 0x0A \<or> c = CHR 0x0D then TrimLineEnding_rev cs else c # cs)"

definition TrimLineEnding :: "string \<Rightarrow> string" where
  "TrimLineEnding v = rev (TrimLineEnding_rev (rev v))"

definition TransferProgress :: "'e atomic_flag option \<Rightarrow> 'e \<Rightarrow> int \<times> 'e" where
  "TransferProgress ctx e =
    (case ctx of None \<Rightarrow> (0, e)
     | Some load \<Rightarrow> let (c, e') = load e in (if c then 1 else 0, e'))"

section \<open>Credentials\<close>

definition FromUserPassword :: "string \<Rightarrow> string \<Rightarrow> RpcCredentials res" where
  "FromUserPassword user password =
    rbind (throw_if (user = []) (RpcException ''RPC username must not be empty'' None)) (\<lambda>_.
    rbind (throw_if (CHR '':'' \<in> set user) (RpcException (''RPC username must not contain '' @ [CHR 0x27, CHR '':'', CHR 0x27]) None)) (\<lambda>_.
    ok \<lparr>basic_auth = user @ '':'' @ password\<rparr>))"

text \<open>\<open>std::string::find\<close> of a character.\<close>

fun find_char :: "char \<Rightarrow> string \<Rightarrow> nat option" where
  "find_char c [] = None"
| "find_char c (x # xs) = (if x = c then Some 0 else map_option Suc (find_char c xs))"

text \<open>The content of a file that can be opened, as \<open>std::ifstream\<close> reads it.\<close>

type_synonym 'e files = "string \<Rightarrow> 'e \<Rightarrow> string option \<times> 'e"

definition FromCookieFile :: "'e files \<Rightarrow> string \<Rightarrow> ('e process, RpcCredentials) act" where
  "FromCookieFile read_file path =
    abind (eff (read_file path)) (\<lambda>file.
    case file of
      None \<Rightarrow> athrow (RpcException (''Unable to open RPC cookie file: '' @ path) None)
    | Some content \<Rightarrow>
        let cookie = TrimLineEnding (takeWhile (\<lambda>c. c \<noteq> CHR 0x0A) content)
        in case find_char CHR '':'' cookie of
             None \<Rightarrow> athrow (RpcException (''Malformed RPC cookie file: '' @ path) None)
           | Some separator \<Rightarrow>
               if separator = 0 \<or> separator + 1 \<ge> length cookie
               then athrow (RpcException (''Malformed RPC cookie file: '' @ path) None)
               else aok \<lparr>basic_auth = cookie\<rparr>)"

section \<open>Requests and responses\<close>

definition BuildRpcRequest :: "'j json_api \<Rightarrow> u64 \<Rightarrow> string \<Rightarrow> 'j \<Rightarrow> 'j res" where
  "BuildRpcRequest J i method params =
    rbind (throw_if (method = []) (RpcException ''JSON-RPC method must not be empty'' None)) (\<lambda>_.
    ok (j_mk_object J
      [(''jsonrpc'', j_mk_string J ''1.0''), (''id'', j_mk_u64 J i),
       (''method'', j_mk_string J method), (''params'', params)]))"

definition rpc_error :: "'j json_api \<Rightarrow> 'j \<Rightarrow> exn" where
  "rpc_error J err =
    (if j_is_object J err then
       RpcException
         (case j_find J err ''message'' of
            Some m \<Rightarrow> if j_is_string J m then j_string J m else ''JSON-RPC error''
          | None \<Rightarrow> ''JSON-RPC error'')
         (case j_find J err ''code'' of
            Some c \<Rightarrow> if j_is_integer J c then Some (j_int J c) else None
          | None \<Rightarrow> None)
     else RpcException ''JSON-RPC error'' None)"

definition http_text :: "int \<Rightarrow> string" where
  "http_text status = '' (HTTP '' @ to_string_int status @ '')''"

definition ParseRpcResponse :: "'j json_api \<Rightarrow> string \<Rightarrow> int \<Rightarrow> 'j res" where
  "ParseRpcResponse J body status =
    rbind (throw_if (status = 401 \<or> status = 403)
      (RpcException (''RPC authentication failed'' @ http_text status) None)) (\<lambda>_.
    rbind (throw_if (body = [])
      (RpcException (''Empty RPC response body'' @ http_text status) None)) (\<lambda>_.
    case j_parse J body of
      Inl what \<Rightarrow> throw (RpcException (''Invalid JSON-RPC response'' @ http_text status @ '': '' @ what) None)
    | Inr response \<Rightarrow>
        rbind (throw_if (\<not> j_is_object J response)
          (RpcException ''JSON-RPC response is not an object'' None)) (\<lambda>_.
        rbind (case j_find J response ''error'' of
                 Some err \<Rightarrow> throw_if (\<not> j_is_null J err) (rpc_error J err)
               | None \<Rightarrow> ok ()) (\<lambda>_.
        rbind (throw_if (status < 200 \<or> status \<ge> 300)
          (RpcException (''RPC HTTP request failed with status '' @ to_string_int status) None)) (\<lambda>_.
        of_option (RpcException ''JSON-RPC response is missing result'' None)
          (j_find J response ''result''))))))"

definition ClassifySubmitBlockResult :: "'j json_api \<Rightarrow> 'j \<Rightarrow> (SubmitBlockResult \<times> string) res" where
  "ClassifySubmitBlockResult J result =
    (if j_is_null J result then ok (NEEDS_TIP_CONFIRMATION, [])
     else
       rbind (throw_if (\<not> j_is_string J result)
         (RuntimeError ''submitblock returned unexpected non-null result'')) (\<lambda>_.
       let rejection = j_string J result
       in if rejection = ''duplicate'' \<or> rejection = ''inconclusive''
          then ok (NEEDS_TIP_CONFIRMATION, rejection)
          else ok (REJECTED, rejection)))"

section \<open>The client\<close>

definition RpcClient_new :: "'e curl_api \<Rightarrow> string \<Rightarrow> RpcCredentials \<Rightarrow> ('e process, RpcClient) act" where
  "RpcClient_new C url credentials =
    abind (athrow_if (url = []) (RpcException ''RPC URL must not be empty'' None)) (\<lambda>_.
    abind (EnsureCurlInitialized C) (\<lambda>_.
    aok \<lparr>m_url = url, m_credentials = credentials, m_next_id = 0\<rparr>))"

text \<open>\<open>c_str()\<close>, which ends at the first null character.\<close>

definition c_str :: "string \<Rightarrow> string" where
  "c_str s = takeWhile (\<lambda>c. c \<noteq> CHR 0x00) s"

definition call_options :: "RpcClient \<Rightarrow> 'e RpcCallOptions \<Rightarrow> string \<Rightarrow> 'e curl_option list" where
  "call_options client opts request_body =
    [CURLOPT_URL (c_str (m_url client)),
     CURLOPT_PROTOCOLS [CURLPROTO_HTTP, CURLPROTO_HTTPS],
     CURLOPT_POST 1,
     CURLOPT_HTTPHEADER [''Content-Type: application/json''],
     CURLOPT_POSTFIELDS request_body,
     CURLOPT_POSTFIELDSIZE_LARGE (int (length request_body)),
     CURLOPT_USERPWD (c_str (basic_auth (m_credentials client))),
     CURLOPT_HTTPAUTH [CURLAUTH_BASIC],
     CURLOPT_WRITEFUNCTION,
     CURLOPT_WRITEDATA,
     CURLOPT_CONNECTTIMEOUT 10,
     CURLOPT_TIMEOUT (timeout_seconds opts)]
    @ (case cancelled opts of
         None \<Rightarrow> []
       | Some load \<Rightarrow> [CURLOPT_NOPROGRESS 0, CURLOPT_XFERINFOFUNCTION TransferProgress,
           CURLOPT_XFERINFODATA load])
    @ [CURLOPT_NOSIGNAL 1, CURLOPT_ACCEPT_ENCODING []]"

definition SetOption :: "'e curl_api \<Rightarrow> 'e curl_option \<Rightarrow> ('e process, unit) act" where
  "SetOption C opt =
    abind (eff (curl_setopt C opt)) (\<lambda>result.
    athrow_if (result \<noteq> CURLE_OK)
      (RpcException (''curl_easy_setopt failed: '' @ curl_strerror C result) None))"

definition is_cancelled :: "'e RpcCallOptions \<Rightarrow> ('e process, bool) act" where
  "is_cancelled opts = (case cancelled opts of None \<Rightarrow> aok False | Some load \<Rightarrow> eff load)"

definition collect_response :: "(string \<times> u64 \<times> u64) list \<Rightarrow> string" where
  "collect_response chunks = fold (\<lambda>(data, sz, count) out. snd (WriteResponse data sz count out)) chunks []"

definition check_transfer :: "'e curl_api \<Rightarrow> 'e RpcCallOptions \<Rightarrow> CURLcode \<Rightarrow> ('e process, unit) act" where
  "check_transfer C opts result =
    (if result = CURLE_OK then aok ()
     else abind (if result = CURLE_ABORTED_BY_CALLBACK then is_cancelled opts else aok False) (\<lambda>c.
       if c then athrow (RpcCancelledException ''RPC request cancelled'')
       else athrow (RpcException (''RPC transport error: '' @ curl_strerror C result) None)))"

definition transfer :: "'e curl_api \<Rightarrow> RpcClient \<Rightarrow> 'e RpcCallOptions \<Rightarrow> string \<Rightarrow> ('e process, string \<times> int) act" where
  "transfer C client opts request_body =
    abind (eff (curl_init C)) (\<lambda>curl.
    abind (athrow_if (\<not> curl) (RpcException ''curl_easy_init failed'' None)) (\<lambda>_.
    abind (eff (curl_append C)) (\<lambda>headers.
    abind (athrow_if (\<not> headers) (RpcException ''Unable to allocate HTTP headers'' None)) (\<lambda>_.
    abind (aforeach (SetOption C) (call_options client opts request_body)) (\<lambda>_.
    abind (eff (curl_perform C (call_options client opts request_body))) (\<lambda>(chunks, result).
    abind (check_transfer C opts result) (\<lambda>_.
    abind (eff (curl_response_code C)) (\<lambda>(info_result, http_status).
    abind (athrow_if (info_result \<noteq> CURLE_OK)
      (RpcException (''Unable to read RPC HTTP status: '' @ curl_strerror C info_result) None)) (\<lambda>_.
    aok (collect_response chunks, http_status))))))))))"

text \<open>
  A call acts on the client, whose next id it uses up even when it throws, and on the process. The
  part before the id is taken is \<open>call_refused\<close>.
\<close>

definition call_refused :: "'e RpcCallOptions \<Rightarrow> ('e process, unit) act" where
  "call_refused opts =
    abind (athrow_if (timeout_seconds opts < 0) (RpcException ''RPC timeout must not be negative'' None)) (\<lambda>_.
    abind (is_cancelled opts) (\<lambda>c.
    athrow_if c (RpcCancelledException ''RPC request cancelled'')))"

definition dump :: "'j json_api \<Rightarrow> 'j \<Rightarrow> string res" where
  "dump J v = (case j_dump J v of Inl what \<Rightarrow> throw (JsonException what) | Inr text \<Rightarrow> ok text)"

definition perform_request :: "'e curl_api \<Rightarrow> 'j json_api \<Rightarrow> RpcClient \<Rightarrow> string \<Rightarrow> 'j \<Rightarrow> 'e RpcCallOptions \<Rightarrow>
    ('e process, 'j) act" where
  "perform_request C J client method params opts =
    abind (alift (BuildRpcRequest J (m_next_id client) method params)) (\<lambda>request.
    abind (alift (dump J request)) (\<lambda>request_body.
    abind (transfer C client opts request_body) (\<lambda>(response_body, http_status).
    alift (ParseRpcResponse J response_body http_status))))"

definition Call :: "'e curl_api \<Rightarrow> 'j json_api \<Rightarrow> string \<Rightarrow> 'j \<Rightarrow> 'e RpcCallOptions \<Rightarrow>
    (RpcClient \<times> 'e process, 'j) act" where
  "Call C J method params opts = (\<lambda>(client, p).
    case call_refused opts p of
      (Inl e, p) \<Rightarrow> (Inl e, client, p)
    | (Inr _, p) \<Rightarrow>
        let client = client\<lparr>m_next_id := m_next_id client + 1\<rparr>;
            (r, p) = perform_request C J client method params opts p
        in (r, client, p))"

section \<open>What a response means\<close>

lemma ParseRpcResponse_Inr:
  "ParseRpcResponse J body status = Inr v \<longleftrightarrow>
    200 \<le> status \<and> status < 300 \<and> body \<noteq> [] \<and>
    (\<exists>response. j_parse J body = Inr response \<and> j_is_object J response \<and>
      (\<forall>err. j_find J response ''error'' = Some err \<longrightarrow> j_is_null J err) \<and>
      j_find J response ''result'' = Some v)"
  unfolding ParseRpcResponse_def
  by (auto simp: rbind_Inr_iff split: sum.splits option.splits)

definition plain_rpc_error :: "exn \<Rightarrow> bool" where
  "plain_rpc_error e \<longleftrightarrow> (\<exists>m. e = RpcException m None)"

text \<open>The errors that the node reports.\<close>

definition node_error :: "'j json_api \<Rightarrow> string \<Rightarrow> int \<Rightarrow> exn \<Rightarrow> bool" where
  "node_error J body status e \<longleftrightarrow> status \<noteq> 401 \<and> status \<noteq> 403 \<and> body \<noteq> [] \<and>
    (\<exists>response err. j_parse J body = Inr response \<and> j_is_object J response \<and>
      j_find J response ''error'' = Some err \<and> \<not> j_is_null J err \<and> e = rpc_error J err)"

lemma rpc_error_RpcException: "\<exists>m c. rpc_error J err = RpcException m c"
  by (auto simp: rpc_error_def)

lemma ex_rpc_error_code:
  "(\<exists>m. RpcException m (Some c) = rpc_error J err) \<longleftrightarrow> j_is_object J err \<and>
    (\<exists>code. j_find J err ''code'' = Some code \<and> j_is_integer J code \<and> c = j_int J code)"
  by (auto simp: rpc_error_def split: option.split)

lemma ParseRpcResponse_Inl:
  "ParseRpcResponse J body status = Inl e \<Longrightarrow> plain_rpc_error e \<or> node_error J body status e"
  unfolding ParseRpcResponse_def plain_rpc_error_def node_error_def
  by (auto simp: rbind_Inl_iff split: sum.splits option.splits if_splits)

lemma node_error_ParseRpcResponse:
  "node_error J body status e \<Longrightarrow> ParseRpcResponse J body status = Inl e"
  unfolding ParseRpcResponse_def node_error_def
  by (auto simp: rbind_Inl_iff)

section \<open>What a call does\<close>

definition is_RpcException :: "exn \<Rightarrow> bool" where
  "is_RpcException e \<longleftrightarrow> (\<exists>m c. e = RpcException m c)"

definition is_RpcCancelled :: "exn \<Rightarrow> bool" where
  "is_RpcCancelled e \<longleftrightarrow> (\<exists>m. e = RpcCancelledException m)"

definition is_JsonException :: "exn \<Rightarrow> bool" where
  "is_JsonException e \<longleftrightarrow> (\<exists>m. e = JsonException m)"

definition rpc_failure :: "exn \<Rightarrow> bool" where
  "rpc_failure e \<longleftrightarrow> is_RpcException e \<or> is_RpcCancelled e \<or> is_JsonException e"

lemma is_exn_simps [simp]:
  "is_RpcException (RpcException m c)" "\<not> is_RpcException (RpcCancelledException m)"
  "\<not> is_RpcException (JsonException m)" "is_RpcCancelled (RpcCancelledException m)"
  "\<not> is_RpcCancelled (RpcException m c)" "\<not> is_RpcCancelled (JsonException m)"
  "is_JsonException (JsonException m)" "rpc_failure (RpcException m c)"
  "rpc_failure (RpcCancelledException m)" "rpc_failure (JsonException m)"
  by (simp_all add: is_RpcException_def is_RpcCancelled_def is_JsonException_def rpc_failure_def)

text \<open>A cancelled call has a flag, and a load of it gave true.\<close>

definition flag_seen :: "'e RpcCallOptions \<Rightarrow> bool" where
  "flag_seen opts \<longleftrightarrow> (\<exists>load e e'. cancelled opts = Some load \<and> load e = (True, e'))"

definition call_failure :: "'e RpcCallOptions \<Rightarrow> exn \<Rightarrow> bool" where
  "call_failure opts e \<longleftrightarrow> rpc_failure e \<and> (is_RpcCancelled e \<longrightarrow> flag_seen opts)"

lemma call_failure_simps [simp]:
  "call_failure opts (RpcException m c)" "call_failure opts (JsonException m)"
  "call_failure opts (RpcCancelledException m) \<longleftrightarrow> flag_seen opts"
  by (simp_all add: call_failure_def)

lemma is_cancelled_True: "is_cancelled opts p = (Inr True, p') \<Longrightarrow> flag_seen opts"
  by (auto simp: is_cancelled_def flag_seen_def act_simps split: option.splits)

lemma is_cancelled_throws [simp]: "throws_only P (is_cancelled opts)"
  by (simp add: is_cancelled_def split: option.split)

lemma cancelled_check_throws:
  assumes "\<And>c. c \<longrightarrow> flag_seen opts \<Longrightarrow> throws_only P (f c)"
  shows "throws_only P (abind (is_cancelled opts) f)"
  unfolding throws_only_def act_simps
proof (intro allI impI)
  fix w e w' assume "is_cancelled opts w = (Inl e, w') \<or>
    (\<exists>x w1. is_cancelled opts w = (Inr x, w1) \<and> f x w1 = (Inl e, w'))"
  then obtain x w1 where x: "is_cancelled opts w = (Inr x, w1)" "f x w1 = (Inl e, w')"
    by (auto simp: is_cancelled_def act_simps split: option.splits)
  then have "x \<longrightarrow> flag_seen opts" using is_cancelled_True by auto
  then show "P e" using assms x(2) throws_onlyD by metis
qed

lemma call_refused_throws: "throws_only (call_failure opts) (call_refused opts)"
  unfolding call_refused_def by (intro throws_only_abind cancelled_check_throws) simp_all

lemma transfer_throws: "throws_only (call_failure opts) (transfer C client opts body)"
proof -
  have set: "throws_only (call_failure opts) (SetOption C opt)" for opt
    unfolding SetOption_def by (intro throws_only_abind) simp_all
  have failed: "throws_only (call_failure opts) (check_transfer C opts result)" for result
    unfolding check_transfer_def
    by (cases "result = CURLE_ABORTED_BY_CALLBACK") (simp_all add: cancelled_check_throws)
  show ?thesis unfolding transfer_def
    by (intro throws_only_abind)
      (auto intro!: throws_only_abind throws_only_aforeach set failed split: prod.split)
qed

lemma BuildRpcRequest_throws: "throws_only (call_failure opts) (alift (BuildRpcRequest J i method params))"
  by (auto simp: BuildRpcRequest_def rbind_Inl_iff)

lemma dump_throws: "throws_only (call_failure opts) (alift (dump J request))"
  by (auto simp: dump_def split: sum.splits)

lemma ParseRpcResponse_throws: "throws_only (call_failure opts) (alift (ParseRpcResponse J body status))"
proof -
  have "call_failure opts e" if e: "ParseRpcResponse J body status = Inl e" for e
    using ParseRpcResponse_Inl [OF e] rpc_error_RpcException
    unfolding plain_rpc_error_def node_error_def by (metis call_failure_simps(1))
  then show ?thesis by simp
qed

lemma perform_request_throws: "throws_only (call_failure opts) (perform_request C J client method params opts)"
  unfolding perform_request_def
  by (intro throws_only_abind BuildRpcRequest_throws dump_throws transfer_throws)
    (auto simp del: throws_only_basic simp: ParseRpcResponse_throws split: prod.split)

lemma Call_throws: "throws_only (call_failure opts) (Call C J method params opts)"
  unfolding throws_only_def Call_def
  by (auto simp: Let_def split: prod.splits sum.splits
      dest: throws_onlyD [OF call_refused_throws] throws_onlyD [OF perform_request_throws])

text \<open>The response body is the data curl hands over, chunk by chunk.\<close>

lemma unat_max_u64: "unat (- 1 :: u64) = 2 ^ 64 - 1"
  by (simp add: unsigned_minus_1_eq_mask mask_eq_exp_minus_1)

lemma WriteResponse_appends:
  assumes "unat sz * unat count = length data" "length data < 2 ^ 64"
  shows "WriteResponse data sz count out = (sz * count, out @ data)"
proof -
  have n: "unat (sz * count) = length data"
    using assms by (simp add: unat_word_ariths)
  have "unat sz \<le> (2 ^ 64 - 1) div unat count" if "unat count \<noteq> 0"
    using assms that by (simp add: less_eq_div_iff_mult_less_eq)
  then have "\<not> (count \<noteq> 0 \<and> sz > - 1 div count)"
    by (auto simp: word_less_nat_alt unat_div unat_max_u64 unat_eq_zero)
  then show ?thesis unfolding WriteResponse_def Let_def by (simp only: if_False n take_all order_refl)
qed

lemma fold_WriteResponse:
  assumes "\<forall>(data, sz, count) \<in> set chunks. unat sz * unat count = length data \<and> length data < 2 ^ 64"
  shows "fold (\<lambda>(data, sz, count) out. snd (WriteResponse data sz count out)) chunks out =
    out @ concat (map fst chunks)"
  using assms by (induction chunks arbitrary: out) (auto simp: WriteResponse_appends)

lemma collect_response_concat:
  assumes "\<forall>(data, sz, count) \<in> set chunks. unat sz * unat count = length data \<and> length data < 2 ^ 64"
  shows "collect_response chunks = concat (map fst chunks)"
  using fold_WriteResponse [OF assms, of "[]"] by (simp add: collect_response_def)

text \<open>A completed exchange: what was sent and what came back.\<close>

definition exchanged :: "'e curl_api \<Rightarrow> RpcClient \<Rightarrow> 'e RpcCallOptions \<Rightarrow> string \<Rightarrow> string \<Rightarrow> int \<Rightarrow> 'e \<Rightarrow> bool" where
  "exchanged C client opts request_body response_body status e \<longleftrightarrow>
    (\<exists>chunks e1 e2. curl_perform C (call_options client opts request_body) e1 = ((chunks, CURLE_OK), e2) \<and>
      curl_response_code C e2 = ((CURLE_OK, status), e) \<and> response_body = collect_response chunks)"

lemma transfer_Inr:
  assumes "transfer C client opts body p = (Inr (text, status), p')"
  shows "exchanged C client opts body text status (outside p')"
  using assms unfolding transfer_def check_transfer_def exchanged_def
  by (clarsimp simp: act_simps split: prod.splits if_splits) blast

lemma perform_request_Inr:
  assumes "perform_request C J client method params opts p = (Inr v, p')"
  shows "\<exists>request request_body response_body status.
    BuildRpcRequest J (m_next_id client) method params = Inr request \<and> j_dump J request = Inr request_body \<and>
    exchanged C client opts request_body response_body status (outside p') \<and>
    ParseRpcResponse J response_body status = Inr v"
proof -
  obtain request request_body response_body status where r:
    "BuildRpcRequest J (m_next_id client) method params = Inr request" "dump J request = Inr request_body"
    "transfer C client opts request_body p = (Inr (response_body, status), p')"
    "ParseRpcResponse J response_body status = Inr v"
    using assms unfolding perform_request_def act_simps alift_def
    by (auto split: prod.splits)
  moreover have "j_dump J request = Inr request_body"
    using r(2) by (auto simp: dump_def split: sum.splits)
  ultimately show ?thesis using transfer_Inr by blast
qed

lemma Call_Inr:
  assumes "Call C J method params opts (client, p) = (Inr v, client', p')"
  shows "client' = client\<lparr>m_next_id := m_next_id client + 1\<rparr> \<and> 0 \<le> timeout_seconds opts \<and>
    (\<exists>p1. perform_request C J client' method params opts p1 = (Inr v, p'))"
  using assms unfolding Call_def call_refused_def Let_def
  by (auto simp: act_simps split: prod.splits sum.splits)

lemma Call_client:
  "Call C J method params opts (client, p) = (r, client', p') \<Longrightarrow>
    client' = client \<or> client' = client\<lparr>m_next_id := m_next_id client + 1\<rparr>"
  unfolding Call_def Let_def by (auto split: prod.splits sum.splits)

section \<open>Credentials are well formed\<close>

lemma find_char_split: "find_char c s = Some i \<Longrightarrow> s = take i s @ c # drop (Suc i) s \<and> c \<notin> set (take i s) \<and> i < length s"
  by (induction s arbitrary: i) (auto split: if_splits)

lemma find_char_append: "c \<notin> set u \<Longrightarrow> find_char c (u @ c # v) = Some (length u)"
  by (induction u) auto

lemma find_char_None: "find_char c s = None \<longleftrightarrow> c \<notin> set s"
  by (induction s) auto

lemma TrimLineEnding_rev_split:
  "\<exists>u. cs = u @ TrimLineEnding_rev cs \<and> set u \<subseteq> {CHR 0x0A, CHR 0x0D}"
proof (induction cs)
  case (Cons c cs)
  then obtain u where "cs = u @ TrimLineEnding_rev cs" "set u \<subseteq> {CHR 0x0A, CHR 0x0D}" by blast
  then have "c # cs = (c # u) @ TrimLineEnding_rev cs" by simp
  with \<open>set u \<subseteq> _\<close> show ?case
    by (cases "c = CHR 0x0A \<or> c = CHR 0x0D") (auto intro!: exI [of _ "c # u"])
qed simp

lemma TrimLineEnding_rev_hd:
  "TrimLineEnding_rev cs \<noteq> [] \<Longrightarrow> hd (TrimLineEnding_rev cs) \<notin> {CHR 0x0A, CHR 0x0D}"
  by (induction cs) auto

lemma TrimLineEnding_split:
  "\<exists>ending. v = TrimLineEnding v @ ending \<and> set ending \<subseteq> {CHR 0x0A, CHR 0x0D}"
proof -
  obtain u where "rev v = u @ TrimLineEnding_rev (rev v)" "set u \<subseteq> {CHR 0x0A, CHR 0x0D}"
    using TrimLineEnding_rev_split by blast
  then have "v = TrimLineEnding v @ rev u"
    by (metis TrimLineEnding_def rev_append rev_rev_ident)
  with \<open>set u \<subseteq> _\<close> show ?thesis by (metis set_rev)
qed

lemma TrimLineEnding_last:
  "TrimLineEnding v \<noteq> [] \<Longrightarrow> last (TrimLineEnding v) \<notin> {CHR 0x0A, CHR 0x0D}"
  using TrimLineEnding_rev_hd [of "rev v"] by (simp add: TrimLineEnding_def last_rev)

text \<open>
  A cookie line: user and password separated by the first colon, both non-empty, on one line
  without its line ending.
\<close>

definition cookie_line :: "string \<Rightarrow> bool" where
  "cookie_line s \<longleftrightarrow> (\<exists>user password. s = user @ CHR '':'' # password \<and> user \<noteq> [] \<and> CHR '':'' \<notin> set user \<and>
    password \<noteq> [] \<and> last password \<notin> {CHR 0x0A, CHR 0x0D}) \<and> CHR 0x0A \<notin> set s"

definition first_line :: "string \<Rightarrow> string" where
  "first_line content = TrimLineEnding (takeWhile (\<lambda>c. c \<noteq> CHR 0x0A) content)"

lemma first_line_no_LF: "CHR 0x0A \<notin> set (first_line content)"
proof -
  have "set (first_line content) \<subseteq> set (takeWhile (\<lambda>c. c \<noteq> CHR 0x0A) content)"
    unfolding first_line_def by (metis TrimLineEnding_split Un_upper1 set_append)
  then show ?thesis by (auto dest: set_takeWhileD)
qed

lemma first_line_cookie:
  "cookie_line (first_line content) \<longleftrightarrow>
    (case find_char CHR '':'' (first_line content) of None \<Rightarrow> False
     | Some separator \<Rightarrow> separator \<noteq> 0 \<and> separator + 1 < length (first_line content))"
proof
  assume "cookie_line (first_line content)"
  then obtain user password where s: "first_line content = user @ CHR '':'' # password" "user \<noteq> []"
    "CHR '':'' \<notin> set user" "password \<noteq> []" unfolding cookie_line_def by blast
  then show "case find_char CHR '':'' (first_line content) of None \<Rightarrow> False
     | Some separator \<Rightarrow> separator \<noteq> 0 \<and> separator + 1 < length (first_line content)"
    by (simp add: find_char_append)
next
  let ?s = "first_line content"
  assume "case find_char CHR '':'' ?s of None \<Rightarrow> False
     | Some separator \<Rightarrow> separator \<noteq> 0 \<and> separator + 1 < length ?s"
  then obtain i where i: "find_char CHR '':'' ?s = Some i" "i \<noteq> 0" "Suc i < length ?s"
    by (auto split: option.splits)
  define u v where uv: "u = take i ?s" "v = drop (Suc i) ?s"
  have s: "?s = u @ CHR '':'' # v" "CHR '':'' \<notin> set u" "u \<noteq> []" "v \<noteq> []"
    using find_char_split [OF i(1)] i(2,3) unfolding uv by auto
  moreover have "last ?s = last v" using s by simp
  moreover have "last ?s \<notin> {CHR 0x0A, CHR 0x0D}"
    using TrimLineEnding_last s(1) unfolding first_line_def by (metis append_is_Nil_conv list.distinct(1))
  ultimately show "cookie_line ?s" using first_line_no_LF unfolding cookie_line_def by metis
qed

lemma FromCookieFile_Inr:
  "FromCookieFile read_file path p = (Inr c, p') \<longleftrightarrow>
    (\<exists>content e. read_file path (outside p) = (Some content, e) \<and> p' = p\<lparr>outside := e\<rparr> \<and>
      basic_auth c = first_line content \<and> cookie_line (first_line content))"
proof -
  have "(case find_char CHR '':'' s of
            None \<Rightarrow> athrow err
          | Some separator \<Rightarrow> if separator = 0 \<or> separator + 1 \<ge> length s then athrow err
              else aok \<lparr>basic_auth = s\<rparr>) q = (Inr c, p') \<longleftrightarrow>
        (case find_char CHR '':'' s of None \<Rightarrow> False
          | Some separator \<Rightarrow> separator \<noteq> 0 \<and> separator + 1 < length s) \<and> basic_auth c = s \<and> p' = q"
    for s err and q :: "'a process"
    by (cases c) (auto split: option.split)
  note check = this [where s = "first_line _", folded first_line_cookie]
  show ?thesis
    unfolding FromCookieFile_def first_line_def [symmetric] Let_def
    by (cases "read_file path (outside p)" rule: prod.exhaust; cases "fst (read_file path (outside p))")
      (auto simp: act_simps check)
qed

lemma FromCookieFile_throws: "throws_only is_RpcException (FromCookieFile read_file path)"
  unfolding FromCookieFile_def by (auto simp: Let_def split: option.split)

lemma FromUserPassword_Inr:
  "FromUserPassword user password = Inr c \<longleftrightarrow>
    user \<noteq> [] \<and> CHR '':'' \<notin> set user \<and> basic_auth c = user @ '':'' @ password"
  unfolding FromUserPassword_def by (cases c) (auto simp: rbind_Inr_iff)

section \<open>The interface of the client\<close>

text \<open>
  What the users of the client rely on: a call fails with the exceptions of the client only, and
  with a cancellation only when the flag of its options was seen set.
\<close>

locale rpc_service =
  fixes call :: "string \<Rightarrow> 'j \<Rightarrow> 'e RpcCallOptions \<Rightarrow> ('s, 'j) act"
  assumes call_failures: "throws_only (call_failure opts) (call method params opts)"
begin

lemma ask_failures:
  assumes "\<And>v e. parse v = Inl e \<Longrightarrow> P e"
  shows "throws_only (\<lambda>e. call_failure opts e \<or> P e) (abind (call method params opts) (\<lambda>v. alift (parse v)))"
  using assms by (intro throws_only_abind throws_only_mono [OF call_failures]) auto

lemma uncancelled_failures:
  "cancelled opts = None \<Longrightarrow> throws_only (\<lambda>e. rpc_failure e \<and> \<not> is_RpcCancelled e) (call method params opts)"
  by (rule throws_only_mono [OF call_failures]) (auto simp: call_failure_def flag_seen_def)

end

interpretation client: rpc_service "Call C J"
  by unfold_locales (rule Call_throws)

section \<open>Properties\<close>

text \<open>A response gives a result exactly when its status is 2xx and its body is a JSON object without
  an error (or with a null one) that has a result, which is returned; the exception carries an error
  code exactly when the node's error is an object with an integer code, and then that code, for every
  status but 401 and 403.\<close>

theorem ParseRpcResponse_classifies:
  "(ParseRpcResponse J body status = Inr v \<longleftrightarrow>
     200 \<le> status \<and> status < 300 \<and> body \<noteq> [] \<and>
     (\<exists>response. j_parse J body = Inr response \<and> j_is_object J response \<and>
       (case j_find J response ''error'' of None \<Rightarrow> True | Some err \<Rightarrow> j_is_null J err) \<and>
       j_find J response ''result'' = Some v)) \<and>
   ((\<exists>m. ParseRpcResponse J body status = Inl (RpcException m (Some c))) \<longleftrightarrow>
     status \<noteq> 401 \<and> status \<noteq> 403 \<and> body \<noteq> [] \<and>
     (\<exists>response err code. j_parse J body = Inr response \<and> j_is_object J response \<and>
       j_find J response ''error'' = Some err \<and> \<not> j_is_null J err \<and> j_is_object J err \<and>
       j_find J err ''code'' = Some code \<and> j_is_integer J code \<and> c = j_int J code))"
proof
  show "ParseRpcResponse J body status = Inr v \<longleftrightarrow>
     200 \<le> status \<and> status < 300 \<and> body \<noteq> [] \<and>
     (\<exists>response. j_parse J body = Inr response \<and> j_is_object J response \<and>
       (case j_find J response ''error'' of None \<Rightarrow> True | Some err \<Rightarrow> j_is_null J err) \<and>
       j_find J response ''result'' = Some v)"
    unfolding ParseRpcResponse_Inr by (auto split: option.splits)
  have "ParseRpcResponse J body status = Inl (RpcException m (Some c)) \<longleftrightarrow>
      node_error J body status (RpcException m (Some c))" for m
    using node_error_ParseRpcResponse ParseRpcResponse_Inl [of J body status "RpcException m (Some c)"]
    by (auto simp: plain_rpc_error_def)
  then show "(\<exists>m. ParseRpcResponse J body status = Inl (RpcException m (Some c))) \<longleftrightarrow>
     status \<noteq> 401 \<and> status \<noteq> 403 \<and> body \<noteq> [] \<and>
     (\<exists>response err code. j_parse J body = Inr response \<and> j_is_object J response \<and>
       j_find J response ''error'' = Some err \<and> \<not> j_is_null J err \<and> j_is_object J err \<and>
       j_find J err ''code'' = Some code \<and> j_is_integer J code \<and> c = j_int J code)"
    using ex_rpc_error_code [of c J] unfolding node_error_def by blast
qed

text \<open>C27: A call that returns has used the next id, has sent exactly the request with that id, method and
  parameters under the options of the call, and returns the result of the response to it. A call that
  throws throws an RPC exception (or one of the JSON library for text it cannot encode), a
  cancellation only after its flag was seen set, and changes nothing of the client but its id.\<close>

theorem Call_answers:
  "case Call C J method params opts (client, p) of
     (Inr v, client', p') \<Rightarrow>
       client' = client\<lparr>m_next_id := m_next_id client + 1\<rparr> \<and> 0 \<le> timeout_seconds opts \<and>
       (\<exists>request request_body response_body status.
         BuildRpcRequest J (m_next_id client + 1) method params = Inr request \<and>
         j_dump J request = Inr request_body \<and>
         exchanged C client' opts request_body response_body status (outside p') \<and>
         ParseRpcResponse J response_body status = Inr v)
   | (Inl e, client', p') \<Rightarrow>
       call_failure opts e \<and> (client' = client \<or> client' = client\<lparr>m_next_id := m_next_id client + 1\<rparr>)"
proof -
  obtain r client' p' where call: "Call C J method params opts (client, p) = (r, client', p')"
    by (metis prod_cases3)
  show ?thesis
  proof (cases r)
    case (Inl e)
    then show ?thesis using call throws_onlyD [OF Call_throws] Call_client by fastforce
  next
    case (Inr v)
    from Call_Inr [OF call [unfolded Inr]] obtain p1 where
      c: "client' = client\<lparr>m_next_id := m_next_id client + 1\<rparr>" "0 \<le> timeout_seconds opts"
      "perform_request C J client' method params opts p1 = (Inr v, p')" by auto
    from perform_request_Inr [OF c(3)] c(1,2) call Inr show ?thesis by simp
  qed
qed

end
