(* ===== verification/Longpoll.thy ===== *)
theory Longpoll
  imports Gbt Rpc
begin

text \<open>
  \<open>src/longpoll.h\<close> and \<open>src/longpoll.cpp\<close>: a thread that waits for the node to offer a new template
  and tells the miner through flags. The stores of the thread are kept as a history, so that a
  theorem can speak of everything that other threads may see; the cancel flag is a load that
  another thread may set at any time.
\<close>

datatype LongpollStatus = RUNNING | TEMPLATE_CHANGED | CANCELLED | RPC_ERROR

record LongpollWatcher =
  lw_rpc_url :: string
  lw_credentials :: RpcCredentials
  lw_longpoll_id :: string
  lw_expected_previous_block_hash :: UInt256
  lw_hard_cancel :: bool
  lw_refresh_requested :: bool
  lw_tip_changed :: bool
  lw_status :: LongpollStatus
  lw_error :: string

definition BuildLongpollTemplateRequest :: "'j json_api \<Rightarrow> string \<Rightarrow> 'j res" where
  "BuildLongpollTemplateRequest J longpoll_id =
    rbind (throw_if (longpoll_id = []) (InvalidArgument ''longpoll id must not be empty'')) (\<lambda>_.
    ok (j_mk_object J
      [(''rules'', j_mk_array J [j_mk_string J ''segwit'']),
       (''longpollid'', j_mk_string J longpoll_id)]))"

definition LongpollTemplateChangesTip :: "UInt256 \<Rightarrow> UInt256 \<Rightarrow> bool" where
  "LongpollTemplateChangesTip expected replacement \<longleftrightarrow> expected \<noteq> replacement"

definition LongpollTemplateInvalidatesOldWork :: "UInt256 \<Rightarrow> UInt256 \<Rightarrow> bool \<Rightarrow> bool" where
  "LongpollTemplateInvalidatesOldWork expected replacement submit_old \<longleftrightarrow>
    LongpollTemplateChangesTip expected replacement \<or> \<not> submit_old"

text \<open>The constructor; the thread then starts with \<open>Run\<close> on a history of this one state.\<close>

definition LongpollWatcher_new :: "string \<Rightarrow> RpcCredentials \<Rightarrow> string \<Rightarrow> UInt256 \<Rightarrow> LongpollWatcher res" where
  "LongpollWatcher_new url credentials longpoll_id expected =
    rbind (throw_if (longpoll_id = []) (InvalidArgument ''longpoll id must not be empty'')) (\<lambda>_.
    ok \<lparr>lw_rpc_url = url, lw_credentials = credentials, lw_longpoll_id = longpoll_id,
        lw_expected_previous_block_hash = expected, lw_hard_cancel = False, lw_refresh_requested = False,
        lw_tip_changed = False, lw_status = RUNNING, lw_error = []\<rparr>)"

section \<open>The thread\<close>

type_synonym 'e watch = "LongpollWatcher list \<times> 'e process"

definition on_process :: "('e process, 'a) act \<Rightarrow> ('e watch, 'a) act" where
  "on_process m = (\<lambda>(h, p). let (r, p') = m p in (r, h, p'))"

definition store :: "(LongpollWatcher \<Rightarrow> LongpollWatcher) \<Rightarrow> ('e watch, unit) act" where
  "store f = (\<lambda>(h, p). (Inr (), f (hd h) # h, p))"

definition fetch_template :: "'e curl_api \<Rightarrow> 'j json_api \<Rightarrow> 'e atomic_flag \<Rightarrow> LongpollWatcher \<Rightarrow>
    ('e process, BlockTemplate) act" where
  "fetch_template C J cancel_requested w =
    abind (RpcClient_new C (lw_rpc_url w) (lw_credentials w)) (\<lambda>rpc.
    abind (alift (BuildLongpollTemplateRequest J (lw_longpoll_id w))) (\<lambda>request.
    abind (\<lambda>p. let (r, _, p') = Call C J ''getblocktemplate'' (j_mk_array J [request])
        \<lparr>timeout_seconds = 0, cancelled = Some cancel_requested\<rparr> (rpc, p) in (r, p')) (\<lambda>response.
    alift (ParseBlockTemplate J response))))"

definition publish :: "'e atomic_flag \<Rightarrow> UInt256 \<Rightarrow> BlockTemplate \<Rightarrow> ('e watch, unit) act" where
  "publish cancel_requested expected t =
    abind (store (\<lambda>w. w\<lparr>lw_tip_changed := LongpollTemplateChangesTip expected (bt_previous_block_hash t)\<rparr>)) (\<lambda>_.
    abind (store (\<lambda>w. w\<lparr>lw_hard_cancel := LongpollTemplateInvalidatesOldWork expected (bt_previous_block_hash t)
        (case bt_submit_old t of None \<Rightarrow> True | Some b \<Rightarrow> b)\<rparr>)) (\<lambda>_.
    abind (on_process (eff cancel_requested)) (\<lambda>c.
    if c then store (\<lambda>w. w\<lparr>lw_status := CANCELLED\<rparr>)
    else abind (store (\<lambda>w. w\<lparr>lw_status := TEMPLATE_CHANGED\<rparr>)) (\<lambda>_.
      store (\<lambda>w. w\<lparr>lw_refresh_requested := True\<rparr>)))))"

definition report_error :: "string \<Rightarrow> ('e watch, unit) act" where
  "report_error message =
    abind (store (\<lambda>w. w\<lparr>lw_error := message\<rparr>)) (\<lambda>_.
    abind (store (\<lambda>w. w\<lparr>lw_status := RPC_ERROR\<rparr>)) (\<lambda>_.
    store (\<lambda>w. w\<lparr>lw_refresh_requested := True\<rparr>)))"

definition handle :: "'e atomic_flag \<Rightarrow> exn \<Rightarrow> ('e watch, unit) act" where
  "handle cancel_requested e =
    (case e of
       RpcCancelledException _ \<Rightarrow>
         abind (on_process (eff cancel_requested)) (\<lambda>c.
         if c then store (\<lambda>w. w\<lparr>lw_status := CANCELLED\<rparr>)
         else report_error ''longpoll RPC cancelled unexpectedly'')
     | _ \<Rightarrow> report_error (what_of e))"

definition Run :: "'e curl_api \<Rightarrow> 'j json_api \<Rightarrow> 'e atomic_flag \<Rightarrow> ('e watch, unit) act" where
  "Run C J cancel_requested = (\<lambda>(h, p).
    case abind (on_process (fetch_template C J cancel_requested (hd h)))
        (publish cancel_requested (lw_expected_previous_block_hash (hd h))) (h, p) of
      (Inr _, st) \<Rightarrow> (Inr (), st)
    | (Inl e, st) \<Rightarrow> handle cancel_requested e st)"

text \<open>\<open>Finish\<close> requests the cancellation, joins the thread and reads the status it left.\<close>

definition Finish :: "LongpollWatcher list \<Rightarrow> LongpollStatus" where
  "Finish h = lw_status (hd h)"

section \<open>What the watcher reports\<close>

text \<open>The miner has asked to cancel: a load of the flag can give true.\<close>

definition cancel_asked :: "'e atomic_flag \<Rightarrow> bool" where
  "cancel_asked cancel \<longleftrightarrow> (\<exists>e e'. cancel e = (True, e'))"

lemma cancel_asked: "cancel e = (True, e') \<Longrightarrow> cancel_asked cancel"
  by (auto simp: cancel_asked_def)

definition invalidates :: "LongpollWatcher \<Rightarrow> BlockTemplate \<Rightarrow> bool" where
  "invalidates w t \<longleftrightarrow> bt_previous_block_hash t \<noteq> lw_expected_previous_block_hash w \<or> bt_submit_old t = Some False"

text \<open>Every state another thread can see.\<close>

definition honest_state :: "BlockTemplate res \<Rightarrow> LongpollWatcher \<Rightarrow> LongpollWatcher \<Rightarrow> bool" where
  "honest_state r w v \<longleftrightarrow>
    (lw_hard_cancel v \<longrightarrow> (\<exists>t. r = Inr t \<and> invalidates w t)) \<and>
    (lw_tip_changed v \<longrightarrow> (\<exists>t. r = Inr t \<and> bt_previous_block_hash t \<noteq> lw_expected_previous_block_hash w)) \<and>
    (lw_refresh_requested v \<longrightarrow> lw_status v \<in> {TEMPLATE_CHANGED, RPC_ERROR})"

definition final_state :: "'e atomic_flag \<Rightarrow> BlockTemplate res \<Rightarrow> LongpollWatcher \<Rightarrow> LongpollWatcher \<Rightarrow> bool" where
  "final_state cancel r w v \<longleftrightarrow>
    (case lw_status v of
       RUNNING \<Rightarrow> False
     | CANCELLED \<Rightarrow> cancel_asked cancel \<and> \<not> lw_refresh_requested v
     | TEMPLATE_CHANGED \<Rightarrow> lw_refresh_requested v \<and> (\<exists>t. r = Inr t \<and>
         lw_tip_changed v = (bt_previous_block_hash t \<noteq> lw_expected_previous_block_hash w) \<and>
         lw_hard_cancel v = invalidates w t)
     | RPC_ERROR \<Rightarrow> lw_refresh_requested v \<and> \<not> lw_hard_cancel v \<and> \<not> lw_tip_changed v \<and>
         (\<exists>e. r = Inl e \<and> (lw_error v = what_of e \<or> is_RpcCancelled e)))"

lemma on_process_eq: "on_process m (h, p) = (r, h', p') \<longleftrightarrow> m p = (r, p') \<and> h' = h"
  by (auto simp: on_process_def split: prod.splits)

lemma store_eq: "store f (h, p) = (r, h', p') \<longleftrightarrow> r = Inr () \<and> h' = f (hd h) # h \<and> p' = p"
  by (auto simp: store_def)

text \<open>A watcher that has stored nothing yet, as the constructor leaves it.\<close>

definition fresh :: "LongpollWatcher \<Rightarrow> bool" where
  "fresh w \<longleftrightarrow> \<not> lw_hard_cancel w \<and> \<not> lw_refresh_requested w \<and> \<not> lw_tip_changed w \<and> lw_status w = RUNNING"

lemma LongpollWatcher_new_fresh:
  "LongpollWatcher_new url c i expected = Inr w \<Longrightarrow>
    fresh w \<and> lw_longpoll_id w = i \<and> i \<noteq> [] \<and> lw_expected_previous_block_hash w = expected"
  by (auto simp: LongpollWatcher_new_def fresh_def rbind_Inr_iff)

lemma publish_history:
  assumes "publish cancel (lw_expected_previous_block_hash w) t ([w], p) = (r, h, p')" "fresh w"
  shows "r = Inr () \<and> h \<noteq> [] \<and> list_all (honest_state (Inr t) w) h \<and> final_state cancel (Inr t) w (hd h)"
  using assms unfolding publish_def
  by (cases r)
    (auto simp: act_simps on_process_eq store_eq fresh_def honest_state_def final_state_def
      invalidates_def LongpollTemplateChangesTip_def LongpollTemplateInvalidatesOldWork_def cancel_asked
      split: if_splits option.splits)

lemma report_error_history:
  assumes "report_error m ([w], p) = (r, h, p')" "fresh w" "m = what_of e \<or> is_RpcCancelled e"
  shows "r = Inr () \<and> h \<noteq> [] \<and> list_all (honest_state (Inl e) w) h \<and> final_state cancel (Inl e) w (hd h)"
  using assms unfolding report_error_def
  by (cases r) (auto simp: act_simps store_eq fresh_def honest_state_def final_state_def)

lemma handle_history:
  assumes "handle cancel e ([w], p) = (r, h, p')" "fresh w"
  shows "r = Inr () \<and> h \<noteq> [] \<and> list_all (honest_state (Inl e) w) h \<and> final_state cancel (Inl e) w (hd h)"
proof (cases "is_RpcCancelled e")
  case True
  then obtain m c p1 where e: "e = RpcCancelledException m" "cancel (outside p) = (c, p1)"
    by (metis is_RpcCancelled_def surj_pair)
  show ?thesis
  proof (cases c)
    case True
    with assms e show ?thesis
      by (cases r) (auto simp: handle_def act_simps on_process_eq store_eq fresh_def honest_state_def final_state_def
          cancel_asked)
  next
    case False
    with assms e have "report_error ''longpoll RPC cancelled unexpectedly'' ([w], p\<lparr>outside := p1\<rparr>) = (r, h, p')"
      by (simp add: handle_def abind_def on_process_def eff_def split: prod.splits)
    then show ?thesis using report_error_history assms(2) True by blast
  qed
next
  case False
  then have "handle cancel e = report_error (what_of e)" by (cases e) (auto simp: handle_def is_RpcCancelled_def)
  with assms report_error_history [OF _ assms(2)] show ?thesis by metis
qed

theorem Run_history:
  assumes "Run C J cancel ([w], p) = (r, h, p')" "fresh w"
  shows "r = Inr () \<and> h \<noteq> [] \<and> list_all (honest_state (fst (fetch_template C J cancel w p)) w) h \<and>
    final_state cancel (fst (fetch_template C J cancel w p)) w (hd h)"
proof -
  obtain answer p1 where a: "fetch_template C J cancel w p = (answer, p1)" by fastforce
  show ?thesis
  proof (cases answer)
    case (Inl e)
    with assms(1) a have "handle cancel e ([w], p1) = (r, h, p')"
      by (simp add: Run_def abind_def on_process_def)
    then show ?thesis using handle_history assms(2) a Inl by simp
  next
    case (Inr t)
    obtain q g p2 where q: "publish cancel (lw_expected_previous_block_hash w) t ([w], p1) = (q, g, p2)"
      by (metis prod_cases3)
    note pub = publish_history [OF q assms(2)]
    with q a Inr assms(1) have "r = Inr ()" "h = g" by (auto simp: Run_def abind_def on_process_def)
    with pub a Inr show ?thesis by simp
  qed
qed

section \<open>Properties\<close>

text \<open>C13: Whatever the node answers, whatever curl does and whenever the miner cancels, the watcher thread
  ends with a status: the new template was published with flags that tell whether it changes the tip
  and whether it invalidates the old work, or the miner cancelled, or an error is reported; no state
  on the way tells the miner to drop work without a template that invalidates it, and the refresh
  flag is seen only after the status is decided.\<close>

theorem LongpollWatcher_reports:
  assumes "LongpollWatcher_new url credentials longpoll_id expected = Inr w"
  shows "case Run C J cancel ([w], p) of (r, h, p') \<Rightarrow>
    r = Inr () \<and> Finish h \<noteq> RUNNING \<and> list_all (honest_state (fst (fetch_template C J cancel w p)) w) h \<and>
    final_state cancel (fst (fetch_template C J cancel w p)) w (hd h)"
proof -
  obtain r h p' where run: "Run C J cancel ([w], p) = (r, h, p')" by (metis prod_cases3)
  have "fresh w" using LongpollWatcher_new_fresh [OF assms] by blast
  from Run_history [OF run this] run show ?thesis
    by (auto simp: Finish_def final_state_def)
qed

definition dead_curl :: "bool curl_api" where
  "dead_curl = \<lparr>curl_global_init = (\<lambda>e. (CURLE_OTHER 2, e)), curl_init = (\<lambda>e. (False, e)),
    curl_append = (\<lambda>e. (False, e)), curl_setopt = (\<lambda>_ e. (CURLE_OK, e)),
    curl_perform = (\<lambda>_ e. (([], CURLE_OTHER 7), e)), curl_response_code = (\<lambda>e. ((CURLE_OK, 0), e)),
    curl_strerror = (\<lambda>_. ''failed'')\<rparr>"

theorem LongpollWatcher_reports_witness:
  "case LongpollWatcher_new ''http://127.0.0.1:27776'' \<lparr>basic_auth = ''u:p''\<rparr> ''tip1'' UInt256_zero of
     Inl _ \<Rightarrow> False
   | Inr w \<Rightarrow> Finish (fst (snd (Run dead_curl sample_json (\<lambda>e. (e, e)) ([w], \<lparr>curl_global = False, outside = False\<rparr>)))) \<noteq> RUNNING"
proof -
  obtain w where w: "LongpollWatcher_new ''http://127.0.0.1:27776'' \<lparr>basic_auth = ''u:p''\<rparr> ''tip1'' UInt256_zero = Inr w"
    by (simp add: LongpollWatcher_new_def)
  show ?thesis
    using LongpollWatcher_reports [OF w, of dead_curl sample_json "\<lambda>e. (e, e)" "\<lparr>curl_global = False, outside = False\<rparr>"]
    by (simp add: w split: prod.splits)
qed

end
