(* ===== verification/Network.thy ===== *)
theory Network
  imports Gbt
begin

text \<open>
  \<open>src/network.h\<close> and \<open>src/network.cpp\<close>: the known networks, the check that a node serves the
  expected network and the proof-of-work limit of each network.
\<close>

record NetworkIdentity =
  ni_chain :: string
  ni_default_rpc_port :: u16
  ni_data_dir :: string
  ni_genesis_hash :: string
  ni_pow_limit :: string

definition NETWORKS :: "NetworkIdentity list" where
  "NETWORKS =
    [\<lparr>ni_chain = ''main'', ni_default_rpc_port = 27776, ni_data_dir = '''',
      ni_genesis_hash = ''cd797c78731d68a82b664b3e359a2e69508ea873fe5747b686488589cc7d6f15'',
      ni_pow_limit = ''7fffffffffffffffffffffffffffffffffffffffffffffffffffffffffffffff''\<rparr>,
     \<lparr>ni_chain = ''test'', ni_default_rpc_port = 27775, ni_data_dir = ''testnet'',
      ni_genesis_hash = ''b3fc707c9a89dc45d1cf6a837284b22ad2b6fd41b99af601079db9dcbeff6920'',
      ni_pow_limit = ''003fffffffffffffffffffffffffffffffffffffffffffffffffffffffffffff''\<rparr>,
     \<lparr>ni_chain = ''signet'', ni_default_rpc_port = 27774, ni_data_dir = ''signet'',
      ni_genesis_hash = ''eebe2b23469b0d91056cc9240387ba7ee601ce138160da3c508142e039e1f36b'',
      ni_pow_limit = ''7fffffffffffffffffffffffffffffffffffffffffffffffffffffffffffffff''\<rparr>,
     \<lparr>ni_chain = ''regtest'', ni_default_rpc_port = 27773, ni_data_dir = ''regtest'',
      ni_genesis_hash = ''8e2308efb3a16b126e69444329cc0ed81bea0596e99db1032ccd750e7028f685'',
      ni_pow_limit = ''7fffffffffffffffffffffffffffffffffffffffffffffffffffffffffffffff''\<rparr>]"

definition FindNetworkIdentity :: "string \<Rightarrow> NetworkIdentity option" where
  "FindNetworkIdentity chain = List.find (\<lambda>network. ni_chain network = chain) NETWORKS"

definition SupportsDirectPowMining :: "NetworkIdentity \<Rightarrow> bool" where
  "SupportsDirectPowMining network \<longleftrightarrow>
    ni_chain network = ''main'' \<or> ni_chain network = ''test'' \<or> ni_chain network = ''regtest''"

definition quoted :: "string \<Rightarrow> string" where
  "quoted s = CHR 0x27 # s @ [CHR 0x27]"

definition ValidateNetworkIdentity :: "NetworkIdentity \<Rightarrow> BlockchainInfo \<Rightarrow> UInt256 \<Rightarrow> unit res" where
  "ValidateNetworkIdentity expected blockchain live_genesis =
    rbind (throw_if (bi_chain blockchain \<noteq> ni_chain expected)
      (NetworkException (''RPC node reports chain '' @ quoted (bi_chain blockchain) @
        '' but MercaMiner expected '' @ quoted (ni_chain expected)))) (\<lambda>_.
    rbind (of_option (NetworkException ''Internal MercaMiner genesis constant is invalid'')
      (FromHexBE (ni_genesis_hash expected))) (\<lambda>expected_genesis.
    throw_if (live_genesis \<noteq> expected_genesis)
      (NetworkException (''RPC node genesis hash does not match the expected Mercatura '' @
        ni_chain expected @ '' genesis''))))"

definition ValidateProofOfWorkTarget :: "NetworkIdentity \<Rightarrow> UInt256 \<Rightarrow> unit res" where
  "ValidateProofOfWorkTarget network target =
    rbind (of_option (NetworkException ''Internal MercaMiner powLimit constant is invalid'')
      (FromHexBE (ni_pow_limit network))) (\<lambda>pow_limit.
    throw_if (CompareNumeric target pow_limit > 0)
      (NetworkException (''proof-of-work target exceeds Mercatura '' @ ni_chain network @ '' powLimit'')))"

section \<open>The constants\<close>

lemma hex_pair_digits:
  assumes "n < 16" "m < 16"
  shows "hex_high (hex_pair (int n) (int m)) = HEX ! n" "hex_low (hex_pair (int n) (int m)) = HEX ! m"
proof -
  define b :: byte where "b = of_nat (16 * n + m)"
  have u: "unat b = 16 * n + m"
    unfolding b_def by (rule unat_of_nat_small) (use assms in simp)
  have "unat (drop_bit 4 b) = n"
    using assms by (simp add: unat_drop_bit_eq u) (simp add: drop_bit_eq_div)
  moreover have "unat (b AND 0x0f) = m"
  proof -
    have "b AND 0x0f = take_bit 4 b" by (simp add: take_bit_eq_mask mask_eq_exp_minus_1)
    then have "unat (b AND 0x0f) = take_bit 4 (unat b)" by (simp only: unsigned_take_bit_eq)
    then show ?thesis using assms by (simp add: u take_bit_eq_mod)
  qed
  ultimately have "hex_pair (int n) (int m) = b" "hex_high b = HEX ! n" "hex_low b = HEX ! m"
    using hex_pair_nibbles [of b] by (simp_all add: hex_high_def hex_low_def uint_nat)
  then show "hex_high (hex_pair (int n) (int m)) = HEX ! n" "hex_low (hex_pair (int n) (int m)) = HEX ! m"
    by simp_all
qed

text \<open>A text of lower-case digits decodes and is printed back unchanged.\<close>

lemma hex_decode_lower_digits:
  "set s \<subseteq> set HEX \<Longrightarrow> even (length s) \<Longrightarrow> \<exists>bs. hex_decode s = Some bs \<and> hex_encode bs = s"
proof (induction s rule: hex_decode.induct)
  case (3 c d cs)
  have len: "length HEX = 16" by (simp add: HEX_def)
  have "c \<in> set HEX" "d \<in> set HEX" using "3.prems" by simp_all
  then obtain n m where nm: "c = HEX ! n" "d = HEX ! m" "n < 16" "m < 16"
    unfolding in_set_conv_nth len by blast
  obtain bs where "hex_decode cs = Some bs" "hex_encode bs = cs"
    using "3.IH" "3.prems" nm by (auto simp: HexDigit_HEX)
  with nm show ?case by (simp add: HexDigit_HEX hex_pair_digits)
qed simp_all

definition hex_number :: "string \<Rightarrow> nat" where
  "hex_number s = (case hex_decode s of None \<Rightarrow> 0 | Some bs \<Rightarrow> le_nat (rev bs))"

definition lower_digit :: "char \<Rightarrow> bool" where
  "lower_digit c \<longleftrightarrow> CHR ''0'' \<le> c \<and> c \<le> CHR ''9'' \<or> CHR ''a'' \<le> c \<and> c \<le> CHR ''f''"

lemma lower_digit_HEX:
  assumes "lower_digit c"
  shows "c \<in> set HEX"
proof -
  define k :: nat where "k = of_char c"
  have "48 \<le> k \<and> k \<le> 57 \<or> 97 \<le> k \<and> k \<le> 102"
    using assms by (auto simp: lower_digit_def less_eq_char_def k_def)
  then have "k \<in> set ([48..<58] @ [97..<103])" by (simp only: set_append set_upt Un_iff atLeastLessThan_iff) linarith
  moreover have "list_all (\<lambda>k. char_of k \<in> set HEX) ([48..<58] @ [97..<103] :: nat list)" by code_simp
  ultimately have "char_of k \<in> set HEX" unfolding list_all_iff by blast
  then show ?thesis by (simp add: k_def)
qed

definition canonical_hex :: "string \<Rightarrow> bool" where
  "canonical_hex s \<longleftrightarrow> length s = 64 \<and> list_all lower_digit s"

lemma canonical_hex_FromHexBE:
  assumes "canonical_hex s"
  obtains u where "FromHexBE s = Some u" "ToHexBE u = s" "value_of u = hex_number s"
proof -
  have s: "length s = 64" "set s \<subseteq> set HEX"
    using assms lower_digit_HEX by (auto simp: canonical_hex_def list_all_iff)
  then obtain bs where bs: "hex_decode s = Some bs" "hex_encode bs = s"
    using hex_decode_lower_digits [of s] by auto
  then have "length bs = 32" using s(1) by (auto dest: hex_decode_length)
  with bs s(1) that [of "UInt256 (rev bs)"] show thesis
    by (simp add: FromHexBE_decode ToHexBE_encode value_of_def hex_number_def)
qed

lemma four_networks:
  assumes "x \<in> set [a, b, c, d]" "x = a \<Longrightarrow> P" "x = b \<Longrightarrow> P" "x = c \<Longrightarrow> P" "x = d \<Longrightarrow> P"
  shows P
  using assms by auto

lemma genesis_constants:
  "canonical_hex ''cd797c78731d68a82b664b3e359a2e69508ea873fe5747b686488589cc7d6f15''"
  "canonical_hex ''b3fc707c9a89dc45d1cf6a837284b22ad2b6fd41b99af601079db9dcbeff6920''"
  "canonical_hex ''eebe2b23469b0d91056cc9240387ba7ee601ce138160da3c508142e039e1f36b''"
  "canonical_hex ''8e2308efb3a16b126e69444329cc0ed81bea0596e99db1032ccd750e7028f685''"
  by (simp_all add: canonical_hex_def lower_digit_def less_eq_char_def)

lemma le_nat_ones: "le_nat (replicate n 0xff @ bs) + 1 = 2 ^ (8 * n) * (le_nat bs + 1)"
proof (induction n)
  case (Suc n)
  have "unat (0xff :: byte) = 255" by simp
  then have "le_nat (replicate (Suc n) 0xff @ bs) + 1 = 256 * (le_nat (replicate n 0xff @ bs) + 1)"
    by (simp only: replicate_Suc append_Cons le_nat.simps) simp
  also have "\<dots> = 256 * (2 ^ (8 * n) * (le_nat bs + 1))" by (simp only: Suc.IH)
  also have "\<dots> = 2 ^ (8 * Suc n) * (le_nat bs + 1)" by (simp add: power_add mult.assoc)
  finally show ?case .
qed simp

lemma hex_number_ones:
  assumes "hex_decode s = Some (bs @ replicate n 0xff)"
  shows "hex_number s = 2 ^ (8 * n) * (le_nat (rev bs) + 1) - 1"
  using le_nat_ones [of n "rev bs"] assms by (simp add: hex_number_def)

lemma pow_limit_constants:
  "canonical_hex ''003fffffffffffffffffffffffffffffffffffffffffffffffffffffffffffff''"
  "canonical_hex ''7fffffffffffffffffffffffffffffffffffffffffffffffffffffffffffffff''"
  by (simp_all add: canonical_hex_def lower_digit_def less_eq_char_def)

lemma pow_limit_numbers:
  "hex_number ''003fffffffffffffffffffffffffffffffffffffffffffffffffffffffffffff'' = 2 ^ 246 - 1"
  "hex_number ''7fffffffffffffffffffffffffffffffffffffffffffffffffffffffffffffff'' = 2 ^ 255 - 1"
proof -
  have "hex_decode ''003fffffffffffffffffffffffffffffffffffffffffffffffffffffffffffff'' = Some ([0x00, 0x3f] @ replicate 30 0xff)"
    by code_simp
  from hex_number_ones [OF this]
  show "hex_number ''003fffffffffffffffffffffffffffffffffffffffffffffffffffffffffffff'' = 2 ^ 246 - 1" by simp
  have "hex_decode ''7fffffffffffffffffffffffffffffffffffffffffffffffffffffffffffffff'' = Some ([0x7f] @ replicate 31 0xff)"
    by code_simp
  from hex_number_ones [OF this]
  show "hex_number ''7fffffffffffffffffffffffffffffffffffffffffffffffffffffffffffffff'' = 2 ^ 255 - 1" by simp
qed

lemma NETWORKS_canonical:
  "n \<in> set NETWORKS \<Longrightarrow> canonical_hex (ni_genesis_hash n) \<and> canonical_hex (ni_pow_limit n)"
  unfolding NETWORKS_def
  by (elim four_networks) (simp_all only: NetworkIdentity.select_convs genesis_constants pow_limit_constants)

lemma NETWORKS_limits:
  "n \<in> set NETWORKS \<Longrightarrow>
    hex_number (ni_pow_limit n) = (if ni_chain n = ''test'' then 2 ^ 246 - 1 else 2 ^ 255 - 1)"
  unfolding NETWORKS_def
  by (elim four_networks) (simp_all only: NetworkIdentity.select_convs pow_limit_numbers, simp_all)

lemma FindNetworkIdentity_Some:
  assumes "FindNetworkIdentity chain = Some n"
  shows "n \<in> set NETWORKS \<and> ni_chain n = chain"
  using assms unfolding FindNetworkIdentity_def by (auto simp: find_Some_iff)

lemma ValidateNetworkIdentity_Inr:
  assumes "n \<in> set NETWORKS"
  shows "ValidateNetworkIdentity n info genesis = Inr () \<longleftrightarrow>
    bi_chain info = ni_chain n \<and> ToHexBE genesis = ni_genesis_hash n"
proof -
  obtain u where u: "FromHexBE (ni_genesis_hash n) = Some u" "ToHexBE u = ni_genesis_hash n"
    using canonical_hex_FromHexBE NETWORKS_canonical [OF assms] by metis
  moreover have "genesis = u \<longleftrightarrow> ToHexBE genesis = ToHexBE u"
    by (metis FromHexBE_ToHexBE option.inject)
  ultimately show ?thesis unfolding ValidateNetworkIdentity_def by (auto simp: rbind_Inr_iff)
qed

lemma ValidateProofOfWorkTarget_Inr:
  assumes "n \<in> set NETWORKS"
  shows "ValidateProofOfWorkTarget n target = Inr () \<longleftrightarrow> value_of target \<le> hex_number (ni_pow_limit n)"
proof -
  obtain u where "FromHexBE (ni_pow_limit n) = Some u" "value_of u = hex_number (ni_pow_limit n)"
    using canonical_hex_FromHexBE NETWORKS_canonical [OF assms] by metis
  then show ?thesis
    unfolding ValidateProofOfWorkTarget_def by (auto simp: rbind_Inr_iff CompareNumeric_value)
qed

text \<open>No check fails because of the constants of the table.\<close>

lemma network_errors:
  assumes "n \<in> set NETWORKS"
  shows "ValidateNetworkIdentity n info genesis = Inl e \<Longrightarrow>
      e = NetworkException (''RPC node reports chain '' @ quoted (bi_chain info) @
        '' but MercaMiner expected '' @ quoted (ni_chain n)) \<or>
      e = NetworkException (''RPC node genesis hash does not match the expected Mercatura '' @ ni_chain n @ '' genesis'')"
    and "ValidateProofOfWorkTarget n target = Inl e \<Longrightarrow>
      e = NetworkException (''proof-of-work target exceeds Mercatura '' @ ni_chain n @ '' powLimit'')"
proof -
  obtain u v where "FromHexBE (ni_genesis_hash n) = Some u" "FromHexBE (ni_pow_limit n) = Some v"
    using canonical_hex_FromHexBE NETWORKS_canonical [OF assms] by metis
  then show "ValidateNetworkIdentity n info genesis = Inl e \<Longrightarrow>
      e = NetworkException (''RPC node reports chain '' @ quoted (bi_chain info) @
        '' but MercaMiner expected '' @ quoted (ni_chain n)) \<or>
      e = NetworkException (''RPC node genesis hash does not match the expected Mercatura '' @ ni_chain n @ '' genesis'')"
    "ValidateProofOfWorkTarget n target = Inl e \<Longrightarrow>
      e = NetworkException (''proof-of-work target exceeds Mercatura '' @ ni_chain n @ '' powLimit'')"
    unfolding ValidateNetworkIdentity_def ValidateProofOfWorkTarget_def
    by (auto simp: rbind_Inl_iff)
qed

section \<open>Properties\<close>

text \<open>C39: For each network the miner knows, a node is accepted exactly when it reports the network's
  name and its genesis hash is the built-in one, and a target is accepted exactly when the number it
  denotes is at most the limit of the network, \<open>2 ^ 246 - 1\<close> on the test network and
  \<open>2 ^ 255 - 1\<close> on the others; the internal-constant errors never occur.\<close>

theorem known_networks_validate:
  assumes "FindNetworkIdentity chain = Some n"
  shows "(ValidateNetworkIdentity n info genesis = Inr () \<longleftrightarrow>
      bi_chain info = chain \<and> ToHexBE genesis = ni_genesis_hash n) \<and>
    (ValidateProofOfWorkTarget n target = Inr () \<longleftrightarrow>
      value_of target \<le> (if chain = ''test'' then 2 ^ 246 - 1 else 2 ^ 255 - 1)) \<and>
    ValidateNetworkIdentity n info genesis \<noteq> Inl (NetworkException ''Internal MercaMiner genesis constant is invalid'') \<and>
    ValidateProofOfWorkTarget n target \<noteq> Inl (NetworkException ''Internal MercaMiner powLimit constant is invalid'')"
  using FindNetworkIdentity_Some [OF assms] NETWORKS_limits ValidateNetworkIdentity_Inr
    ValidateProofOfWorkTarget_Inr network_errors
  by (intro conjI) (fastforce dest: network_errors)+

theorem known_networks_validate_witness:
  "ValidateProofOfWorkTarget (hd NETWORKS) UInt256_zero = Inr ()"
proof -
  have "FindNetworkIdentity ''main'' = Some (hd NETWORKS)" by (simp add: FindNetworkIdentity_def NETWORKS_def)
  from known_networks_validate [OF this, of undefined undefined UInt256_zero] show ?thesis by simp
qed

end
