(* ===== verification/RpcConnection.thy ===== *)
theory RpcConnection
  imports Network Rpc
begin

text \<open>
  \<open>src/rpc_connection.h\<close> and \<open>src/rpc_connection.cpp\<close>: where a local node of a network listens and
  keeps its cookie, and the reload of a client whose cookie has changed.
\<close>

record RpcConnectionSettings =
  rpc_url :: string
  cookie_file :: string

text \<open>\<open>operator/=\<close> of \<open>std::filesystem::path\<close> on POSIX: an absolute right-hand side replaces the path.\<close>

definition path_append :: "string \<Rightarrow> string \<Rightarrow> string" where
  "path_append p q =
    (if q \<noteq> [] \<and> hd q = CHR ''/'' then q
     else (if p \<noteq> [] \<and> last p \<noteq> CHR ''/'' then p @ ''/'' else p) @ q)"

definition LocalRpcConnectionForHome :: "NetworkIdentity \<Rightarrow> string \<Rightarrow> RpcConnectionSettings res" where
  "LocalRpcConnectionForHome network home_directory =
    rbind (throw_if (home_directory = [])
      (RpcConnectionException ''HOME directory is empty; specify RPC URL and cookie file explicitly'')) (\<lambda>_.
    let cookie_path = path_append home_directory ''.mercatura'';
        cookie_path = (if ni_data_dir network \<noteq> [] then path_append cookie_path (ni_data_dir network) else cookie_path);
        cookie_path = path_append cookie_path ''.cookie''
    in ok \<lparr>rpc_url = ''http://127.0.0.1:'' @ to_string (unat (ni_default_rpc_port network)),
           cookie_file = cookie_path\<rparr>)"

definition DefaultLocalRpcConnection :: "('e \<Rightarrow> string option \<times> 'e) \<Rightarrow> NetworkIdentity \<Rightarrow>
    ('e process, RpcConnectionSettings) act" where
  "DefaultLocalRpcConnection getenv_HOME network =
    abind (eff getenv_HOME) (\<lambda>home.
    case home of
      None \<Rightarrow> athrow (RpcConnectionException ''HOME is not set; specify RPC URL and cookie file explicitly'')
    | Some home \<Rightarrow>
        if home = [] then athrow (RpcConnectionException ''HOME is not set; specify RPC URL and cookie file explicitly'')
        else alift (LocalRpcConnectionForHome network home))"

text \<open>
  The reload acts on the credentials and the client of the caller; both are assigned after the last
  operation that can throw.
\<close>

definition refreshed_client :: "'e curl_api \<Rightarrow> 'e files \<Rightarrow> RpcConnectionSettings \<Rightarrow> RpcCredentials \<Rightarrow>
    ('e process, (RpcCredentials \<times> RpcClient) option) act" where
  "refreshed_client C read_file connection credentials =
    abind (FromCookieFile read_file (cookie_file connection)) (\<lambda>refreshed_credentials.
    if basic_auth refreshed_credentials = basic_auth credentials then aok None
    else abind (RpcClient_new C (rpc_url connection) refreshed_credentials) (\<lambda>refreshed_rpc.
      aok (Some (refreshed_credentials, refreshed_rpc))))"

definition ReloadRpcClientFromCookie :: "'e curl_api \<Rightarrow> 'e files \<Rightarrow> RpcConnectionSettings \<Rightarrow>
    (RpcCredentials \<times> RpcClient \<times> 'e process, bool) act" where
  "ReloadRpcClientFromCookie C read_file connection = (\<lambda>(credentials, rpc, p).
    case refreshed_client C read_file connection credentials p of
      (Inl e, p) \<Rightarrow> (Inl e, credentials, rpc, p)
    | (Inr None, p) \<Rightarrow> (Inr False, credentials, rpc, p)
    | (Inr (Some (credentials, rpc)), p) \<Rightarrow> (Inr True, credentials, rpc, p))"

section \<open>The local connection\<close>

lemma LocalRpcConnectionForHome_Inr:
  assumes "n \<in> set NETWORKS"
  shows "LocalRpcConnectionForHome n home = Inr c \<longleftrightarrow> home \<noteq> [] \<and>
    rpc_url c = ''http://127.0.0.1:'' @ to_string (unat (ni_default_rpc_port n)) \<and>
    cookie_file c = (if last home = CHR ''/'' then home else home @ ''/'') @ ''.mercatura/'' @
      (if ni_data_dir n = [] then [] else ni_data_dir n @ ''/'') @ ''.cookie''"
  using assms unfolding NETWORKS_def
  by (elim four_networks; cases c) (auto simp: LocalRpcConnectionForHome_def path_append_def rbind_Inr_iff)

lemma network_ports:
  "map (\<lambda>n. to_string (unat (ni_default_rpc_port n))) NETWORKS = [''27776'', ''27775'', ''27774'', ''27773'']"
  by (simp add: NETWORKS_def to_string.simps) code_simp

text \<open>Nodes of different networks are reached at different URLs with different cookies.\<close>

lemma local_connections_distinct:
  assumes "LocalRpcConnectionForHome n home = Inr c" "LocalRpcConnectionForHome m home = Inr d"
    and "n \<in> set NETWORKS" "m \<in> set NETWORKS" "n \<noteq> m"
  shows "rpc_url c \<noteq> rpc_url d \<and> cookie_file c \<noteq> cookie_file d"
proof -
  let ?port = "\<lambda>n. to_string (unat (ni_default_rpc_port n))"
  let ?dir = "\<lambda>n. (if ni_data_dir n = [] then [] else ni_data_dir n @ ''/'') @ ''.cookie''"
  have "distinct (map ?port NETWORKS)" unfolding network_ports by simp
  then have "?port n \<noteq> ?port m" using assms(3-5) by (auto simp: distinct_map inj_on_def)
  moreover have "distinct (map ?dir NETWORKS)" by (simp add: NETWORKS_def)
  then have "?dir n \<noteq> ?dir m" using assms(3-5) by (auto simp only: distinct_map inj_on_def)
  ultimately show ?thesis using assms(1,2)
    unfolding LocalRpcConnectionForHome_Inr [OF assms(3)] LocalRpcConnectionForHome_Inr [OF assms(4)]
    by (simp only: append_same_eq same_append_eq append_assoc simp_thms not_False_eq_True)
qed

section \<open>Reloading\<close>

lemma EnsureCurlInitialized_throws: "throws_only is_RpcException (EnsureCurlInitialized C)"
  unfolding throws_only_def EnsureCurlInitialized_def by (auto simp: act_simps split: if_splits)

lemma RpcClient_new_throws: "throws_only is_RpcException (RpcClient_new C url c)"
  unfolding RpcClient_new_def by (intro throws_only_abind) (simp_all add: EnsureCurlInitialized_throws)

lemma RpcClient_new_Inr:
  "RpcClient_new C url c p = (Inr rpc, p') \<Longrightarrow>
    url \<noteq> [] \<and> rpc = \<lparr>m_url = url, m_credentials = c, m_next_id = 0\<rparr>"
  unfolding RpcClient_new_def by (auto simp: act_simps)

lemma refreshed_client_throws: "throws_only is_RpcException (refreshed_client C rf connection c)"
  unfolding refreshed_client_def
  by (intro throws_only_abind FromCookieFile_throws) (auto intro!: throws_only_abind RpcClient_new_throws)

lemma refreshed_client_Inr:
  assumes "refreshed_client C rf connection c p = (Inr (Some (c', rpc')), p')"
  shows "cookie_line (basic_auth c') \<and> basic_auth c' \<noteq> basic_auth c \<and> rpc_url connection \<noteq> [] \<and>
    rpc' = \<lparr>m_url = rpc_url connection, m_credentials = c', m_next_id = 0\<rparr>"
  using assms unfolding refreshed_client_def
  by (auto simp: act_simps FromCookieFile_Inr dest: RpcClient_new_Inr split: if_splits)

lemma ReloadRpcClientFromCookie_throws: "throws_only is_RpcException (ReloadRpcClientFromCookie C rf connection)"
  unfolding throws_only_def ReloadRpcClientFromCookie_def
  by (auto split: prod.splits sum.splits option.splits dest: throws_onlyD [OF refreshed_client_throws])

section \<open>Properties\<close>

text \<open>C37: Reloading a client either fails with an RPC exception and leaves credentials and client as
  they were, or reports no change and leaves them, or installs the user and password of a well-formed
  cookie line that differs from the old one, with a fresh client of the connection's URL that uses
  exactly these credentials.\<close>

theorem ReloadRpcClientFromCookie_all_or_nothing:
  "case ReloadRpcClientFromCookie C read_file connection (credentials, rpc, p) of
     (Inl e, credentials', rpc', p') \<Rightarrow> is_RpcException e \<and> credentials' = credentials \<and> rpc' = rpc
   | (Inr False, credentials', rpc', p') \<Rightarrow> credentials' = credentials \<and> rpc' = rpc
   | (Inr True, credentials', rpc', p') \<Rightarrow>
       cookie_line (basic_auth credentials') \<and> basic_auth credentials' \<noteq> basic_auth credentials \<and>
       rpc_url connection \<noteq> [] \<and>
       rpc' = \<lparr>m_url = rpc_url connection, m_credentials = credentials', m_next_id = 0\<rparr>"
  by (auto simp: ReloadRpcClientFromCookie_def split: prod.split sum.split option.split bool.split
      dest: throws_onlyD [OF refreshed_client_throws] refreshed_client_Inr)

end
