(* ===== verification/PayoutAddress.thy ===== *)
theory PayoutAddress
  imports Rpc
begin

text \<open>
  \<open>src/payout_address.h\<close> and \<open>src/payout_address.cpp\<close>: the node's \<open>validateaddress\<close> answer is
  checked field by field before its script is used as the payout script.
\<close>

definition payout_HexDigit :: "char \<Rightarrow> byte res" where
  "payout_HexDigit c =
    digit_or_throw (PayoutAddressException ''validateaddress returned invalid hexadecimal data'') c"

definition field_error :: "string \<Rightarrow> string \<Rightarrow> exn" where
  "field_error field what =
    PayoutAddressException (''validateaddress field '' @ [CHR 0x27] @ field @ [CHR 0x27] @ what)"

fun decode_pairs :: "string \<Rightarrow> bytes res" where
  "decode_pairs (a # b # hex) =
    rbind (payout_HexDigit a) (\<lambda>high.
    rbind (payout_HexDigit b) (\<lambda>low.
    rbind (decode_pairs hex) (\<lambda>out. ok ((push_bit 4 high OR low) # out))))"
| "decode_pairs _ = ok []"

definition ParseExactHex :: "'j json_api \<Rightarrow> 'j \<Rightarrow> nat \<Rightarrow> string \<Rightarrow> bytes res" where
  "ParseExactHex J v expected_bytes field =
    rbind (throw_if (\<not> j_is_string J v) (field_error field '' is not a string'')) (\<lambda>_.
    let hex = j_string J v
    in rbind (throw_if (length hex \<noteq> expected_bytes * 2) (field_error field '' has an unexpected length'')) (\<lambda>_.
       decode_pairs hex))"

definition invalid_address :: "'j json_api \<Rightarrow> 'j \<Rightarrow> exn" where
  "invalid_address J v = PayoutAddressException (''payout address is invalid'' @
    (case j_find J v ''error'' of
       Some err \<Rightarrow> if j_is_string J err \<and> j_string J err \<noteq> [] then '': '' @ j_string J err else []
     | None \<Rightarrow> []))"

definition ParsePayoutAddressResponse :: "'j json_api \<Rightarrow> 'j \<Rightarrow> bytes res" where
  "ParsePayoutAddressResponse J v =
    rbind (throw_if (\<not> j_is_object J v)
      (PayoutAddressException ''validateaddress returned a non-object result'')) (\<lambda>_.
    rbind (case j_find J v ''isvalid'' of
             Some valid \<Rightarrow> if j_is_boolean J valid then ok (j_bool J valid)
               else throw (PayoutAddressException ''validateaddress result is missing boolean isvalid'')
           | None \<Rightarrow> throw (PayoutAddressException ''validateaddress result is missing boolean isvalid'')) (\<lambda>valid.
    rbind (throw_if (\<not> valid) (invalid_address J v)) (\<lambda>_.
    rbind (throw_if (case j_find J v ''iswitness'' of Some witness \<Rightarrow> \<not> j_is_boolean J witness \<or> \<not> j_bool J witness | None \<Rightarrow> True)
      (PayoutAddressException ''payout address is not a witness address'')) (\<lambda>_.
    rbind (throw_if (case j_find J v ''witness_version'' of
               Some version \<Rightarrow> \<not> j_is_integer J version \<and> \<not> j_is_unsigned J version \<or> j_i64 J version \<noteq> 2
             | None \<Rightarrow> True)
      (PayoutAddressException ''payout address is not Mercatura PQ witness v2'')) (\<lambda>_.
    rbind (of_option (PayoutAddressException ''validateaddress result is missing witness_program'')
      (j_find J v ''witness_program'')) (\<lambda>program_it.
    rbind (ParseExactHex J program_it 32 ''witness_program'') (\<lambda>program.
    rbind (of_option (PayoutAddressException ''validateaddress result is missing scriptPubKey'')
      (j_find J v ''scriptPubKey'')) (\<lambda>script_it.
    rbind (ParseExactHex J script_it 34 ''scriptPubKey'') (\<lambda>script.
    rbind (throw_if (script ! 0 \<noteq> 0x52 \<or> script ! 1 \<noteq> 0x20)
      (PayoutAddressException ''Mercatura PQ payout script is not canonical witness v2'')) (\<lambda>_.
    rbind (throw_if (program \<noteq> drop 2 script)
      (PayoutAddressException ''validateaddress witness program does not match scriptPubKey'')) (\<lambda>_.
    ok script)))))))))))"

definition ResolvePayoutAddress :: "'e curl_api \<Rightarrow> 'j json_api \<Rightarrow> string \<Rightarrow> 'e RpcCallOptions \<Rightarrow>
    (RpcClient \<times> 'e process, bytes) act" where
  "ResolvePayoutAddress C J address opts =
    abind (athrow_if (address = []) (PayoutAddressException ''payout address must not be empty'')) (\<lambda>_.
    abind (Call C J ''validateaddress'' (j_mk_array J [j_mk_string J address]) opts) (\<lambda>result.
    alift (ParsePayoutAddressResponse J result)))"

definition ResolvePayoutAddress_default :: "'e curl_api \<Rightarrow> 'j json_api \<Rightarrow> string \<Rightarrow>
    (RpcClient \<times> 'e process, bytes) act" where
  "ResolvePayoutAddress_default C J address = ResolvePayoutAddress C J address default_options"

section \<open>Hexadecimal fields\<close>

lemma decode_pairs_Inr: "even (length hex) \<Longrightarrow> decode_pairs hex = Inr bs \<longleftrightarrow> hex_decode hex = Some bs"
  by (induction hex arbitrary: bs rule: hex_decode.induct)
    (auto simp: payout_HexDigit_def digit_or_throw_iff rbind_Inr_iff hex_pair_eq)

definition payout_error :: "exn \<Rightarrow> bool" where
  "payout_error e \<longleftrightarrow> (\<exists>m. e = PayoutAddressException m)"

lemma payout_error_simps [simp]:
  "payout_error (PayoutAddressException m)" "payout_error (field_error f m)"
  "payout_error (invalid_address J v)"
  by (simp_all add: payout_error_def field_error_def invalid_address_def)

lemma decode_pairs_Inl: "decode_pairs hex = Inl e \<Longrightarrow> payout_error e"
  by (induction hex rule: decode_pairs.induct)
    (auto simp: rbind_Inl_iff payout_HexDigit_def dest!: digit_or_throw_Inl)

lemma ParseExactHex_Inr:
  "ParseExactHex J v n field = Inr bs \<longleftrightarrow>
    j_is_string J v \<and> length bs = n \<and> hex_decode (j_string J v) = Some bs"
  using decode_pairs_Inr [of "j_string J v" bs] hex_decode_length [of "j_string J v" bs]
  by (auto simp: ParseExactHex_def Let_def rbind_Inr_iff)

lemma ParseExactHex_Inl: "ParseExactHex J v n field = Inl e \<Longrightarrow> payout_error e"
  by (auto simp: ParseExactHex_def Let_def rbind_Inl_iff dest: decode_pairs_Inl)

section \<open>The answer of the node\<close>

text \<open>The script that pays a witness program of version 2.\<close>

definition witness_v2_script :: "bytes \<Rightarrow> bytes" where
  "witness_v2_script program = [0x52, 0x20] @ program"

text \<open>An answer that vouches for a script.\<close>

definition vouches :: "'j json_api \<Rightarrow> 'j \<Rightarrow> bytes \<Rightarrow> bool" where
  "vouches J v program \<longleftrightarrow> j_is_object J v \<and> length program = 32 \<and>
    (\<exists>b. j_find J v ''isvalid'' = Some b \<and> j_is_boolean J b \<and> j_bool J b) \<and>
    (\<exists>b. j_find J v ''iswitness'' = Some b \<and> j_is_boolean J b \<and> j_bool J b) \<and>
    (\<exists>n. j_find J v ''witness_version'' = Some n \<and> (j_is_integer J n \<or> j_is_unsigned J n) \<and> j_i64 J n = 2) \<and>
    (\<exists>s. j_find J v ''witness_program'' = Some s \<and> j_is_string J s \<and> hex_decode (j_string J s) = Some program) \<and>
    (\<exists>s. j_find J v ''scriptPubKey'' = Some s \<and> j_is_string J s \<and>
      hex_decode (j_string J s) = Some (witness_v2_script program))"

lemma split_script:
  "length script = 34 \<Longrightarrow> script ! 0 = 0x52 \<Longrightarrow> script ! Suc 0 = 0x20 \<Longrightarrow>
    witness_v2_script (drop 2 script) = script"
  by (cases script; cases "tl script") (auto simp: witness_v2_script_def)

lemma ParsePayoutAddressResponse_Inr:
  "ParsePayoutAddressResponse J v = Inr script \<longleftrightarrow>
    (\<exists>program. vouches J v program \<and> script = witness_v2_script program)"
proof
  assume "ParsePayoutAddressResponse J v = Inr script"
  then show "\<exists>program. vouches J v program \<and> script = witness_v2_script program"
    unfolding ParsePayoutAddressResponse_def
    by (auto simp: rbind_Inr_iff ParseExactHex_Inr vouches_def split_script split: option.splits if_splits)
next
  assume "\<exists>program. vouches J v program \<and> script = witness_v2_script program"
  then obtain program where p: "vouches J v program" "script = witness_v2_script program" by blast
  have l: "length (witness_v2_script program) = 34" using p(1) by (simp add: witness_v2_script_def vouches_def)
  have s: "witness_v2_script program ! 0 = 0x52 \<and> witness_v2_script program ! 1 = 0x20" "drop 2 (witness_v2_script program) = program"
    by (simp_all add: witness_v2_script_def)
  show "ParsePayoutAddressResponse J v = Inr script"
    using p l s unfolding ParsePayoutAddressResponse_def vouches_def
    by (auto simp: rbind_Inr_iff ParseExactHex_Inr)
qed

lemma ParsePayoutAddressResponse_Inl:
  "ParsePayoutAddressResponse J v = Inl e \<Longrightarrow> payout_error e"
  unfolding ParsePayoutAddressResponse_def
  by (auto simp: rbind_Inl_iff dest: ParseExactHex_Inl split: option.splits if_splits)

lemma ResolvePayoutAddress_throws:
  "throws_only (\<lambda>e. call_failure opts e \<or> payout_error e) (ResolvePayoutAddress C J address opts)"
  unfolding ResolvePayoutAddress_def
  by (intro throws_only_abind client.ask_failures) (auto dest: ParsePayoutAddressResponse_Inl)

section \<open>Properties\<close>

text \<open>C38: A payout address resolves to a script exactly when it is not empty and the node's answer to
  the one \<open>validateaddress\<close> call is an object that calls it a valid version-2 witness address, with a
  32-byte program and the 34-byte script \<open>OP_2 <program>\<close> of that same program; that script is the
  result. Everything else is a payout address exception or a failure of the call.\<close>

theorem ResolvePayoutAddress_script:
  "(ResolvePayoutAddress C J address opts st = (Inr script, st') \<longleftrightarrow>
     address \<noteq> [] \<and> (\<exists>v program.
       Call C J ''validateaddress'' (j_mk_array J [j_mk_string J address]) opts st = (Inr v, st') \<and>
       vouches J v program \<and> script = [0x52, 0x20] @ program \<and> length script = 34)) \<and>
   throws_only (\<lambda>e. call_failure opts e \<or> payout_error e) (ResolvePayoutAddress C J address opts)"
proof
  have "length (witness_v2_script program) = 34" if "vouches J v program" for v program
    using that by (simp add: vouches_def witness_v2_script_def)
  then show "ResolvePayoutAddress C J address opts st = (Inr script, st') \<longleftrightarrow>
     address \<noteq> [] \<and> (\<exists>v program.
       Call C J ''validateaddress'' (j_mk_array J [j_mk_string J address]) opts st = (Inr v, st') \<and>
       vouches J v program \<and> script = [0x52, 0x20] @ program \<and> length script = 34)"
    unfolding ResolvePayoutAddress_def witness_v2_script_def [symmetric]
    by (cases st') (auto simp: act_simps ParsePayoutAddressResponse_Inr)
qed (rule ResolvePayoutAddress_throws)

end
