(* ===== verification/Submission.thy ===== *)
theory Submission
  imports Longpoll RpcConnection PayoutAddress BlockBuilder
begin

text \<open>
  The first half of \<open>src/mine_loop.cpp\<close>: the queries of the mining loop to its node, the start that
  waits for the node, and the submission that is repeated until the node has answered. A loop
  that goes on as long as the node cannot be reached is \<open>None\<close> when it never ends.
\<close>

section \<open>The world of the program\<close>

record 'e world_api =
  w_curl :: "'e curl_api"
  w_read_file :: "'e files"
  w_getenv_HOME :: "'e \<Rightarrow> string option \<times> 'e"
  w_exists :: "string \<Rightarrow> 'e \<Rightarrow> bool option \<times> 'e"
  w_hardware_concurrency :: "'e \<Rightarrow> u32 \<times> 'e"
  w_install_handlers :: "'e \<Rightarrow> bool \<times> 'e"
  w_load_signal :: "'e \<Rightarrow> int \<times> 'e"
  w_store_signal :: "int \<Rightarrow> 'e \<Rightarrow> 'e"
  w_sleep :: "int \<Rightarrow> 'e \<Rightarrow> 'e"
  w_cout :: "string \<Rightarrow> 'e \<Rightarrow> 'e"
  w_cerr :: "string \<Rightarrow> 'e \<Rightarrow> 'e"

text \<open>
  The state the main thread works on: credentials, client and process.
\<close>

type_synonym 'e node_state = "RpcCredentials \<times> RpcClient \<times> 'e process"

definition on_client :: "(RpcClient \<times> 'e process, 'a) act \<Rightarrow> ('e node_state, 'a) act" where
  "on_client m = on_rest m"

definition on_world :: "('e \<Rightarrow> 'a \<times> 'e) \<Rightarrow> ('e node_state, 'a) act" where
  "on_world f = on_rest (on_rest (eff f))"

definition cerr :: "'e world_api \<Rightarrow> string \<Rightarrow> 'e \<Rightarrow> unit \<times> 'e" where
  "cerr W q e = ((), w_cerr W q e)"

definition cout :: "'e world_api \<Rightarrow> string \<Rightarrow> 'e \<Rightarrow> unit \<times> 'e" where
  "cout W q e = ((), w_cout W q e)"

definition newline :: string where
  "newline = [CHR 0x0A]"

section \<open>Waiting\<close>

definition poll_flag :: "'e atomic_flag option \<Rightarrow> 'e \<Rightarrow> bool \<times> 'e" where
  "poll_flag fl e = (case fl of None \<Rightarrow> (False, e) | Some load \<Rightarrow> load e)"

text \<open>Durations are milliseconds.\<close>

function sleep_loop :: "'e world_api \<Rightarrow> 'e atomic_flag option \<Rightarrow> int \<Rightarrow> 'e \<Rightarrow> bool \<times> 'e" where
  "sleep_loop W fl remaining e =
    (if remaining > 0 then
       let (c, e) = poll_flag fl e
       in if c then (False, e)
          else let delay = (if remaining < 10 then remaining else 10)
            in sleep_loop W fl (remaining - delay) (w_sleep W delay e)
     else (True, e))"
  by pat_completeness auto
termination
  by (relation "measure (\<lambda>(W, fl, remaining, e). nat remaining)") auto

declare sleep_loop.simps [simp del]

definition InterruptibleSleep :: "'e world_api \<Rightarrow> int \<Rightarrow> 'e atomic_flag option \<Rightarrow> 'e \<Rightarrow> bool \<times> 'e" where
  "InterruptibleSleep W duration fl e = sleep_loop W fl duration e"

section \<open>Queries\<close>

definition ShutdownRpcOptions :: "'e atomic_flag option \<Rightarrow> 'e RpcCallOptions" where
  "ShutdownRpcOptions fl = default_options\<lparr>cancelled := fl\<rparr>"

text \<open>A reload that fails with an RPC exception keeps the credentials.\<close>

definition TryReloadRpcCookie :: "'e world_api \<Rightarrow> RpcConnectionSettings \<Rightarrow> ('e node_state, unit) act" where
  "TryReloadRpcCookie W connection q =
    (case ReloadRpcClientFromCookie (w_curl W) (w_read_file W) connection q of
       (Inr True, q) \<Rightarrow> on_world (cerr W (''RPC cookie credentials changed; reloaded credentials'' @ newline)) q
     | (Inr False, q) \<Rightarrow> (Inr (), q)
     | (Inl (RpcException m c), q) \<Rightarrow>
         on_world (cerr W (''Unable to reload RPC cookie credentials: '' @ m @
           ''; retaining previous credentials'' @ newline)) q
     | (Inl (RpcCancelledException m), q) \<Rightarrow>
         on_world (cerr W (''Unable to reload RPC cookie credentials: '' @ m @
           ''; retaining previous credentials'' @ newline)) q
     | (Inl e, q) \<Rightarrow> (Inl e, q))"

definition Hex :: "bytes \<Rightarrow> string" where
  "Hex bs = concat (map (\<lambda>b. [HEX ! unat (drop_bit 4 b), HEX ! unat (b AND 0x0f)]) bs)"

definition ParseRpcHash :: "'j json_api \<Rightarrow> 'j \<Rightarrow> string \<Rightarrow> UInt256 res" where
  "ParseRpcHash J v description =
    rbind (throw_if (\<not> j_is_string J v) (RuntimeError (description @ '' RPC result is not a string''))) (\<lambda>_.
    of_option (RuntimeError (description @ '' RPC result is not a 256-bit hash'')) (FromHexBE (j_string J v)))"

definition ParseRpcHeight :: "'j json_api \<Rightarrow> 'j \<Rightarrow> string \<Rightarrow> u64 res" where
  "ParseRpcHeight J v description =
    rbind (throw_if (\<not> j_is_integer J v \<and> \<not> j_is_unsigned J v)
      (RuntimeError (description @ '' RPC result is not an integer''))) (\<lambda>_.
    if j_is_unsigned J v then ok (j_u64 J v)
    else rbind (throw_if (sint (j_i64 J v) < 0) (RuntimeError (description @ '' RPC result is negative''))) (\<lambda>_.
      ok (j_i64 J v)))"

definition TemplateRequest :: "'j json_api \<Rightarrow> 'j" where
  "TemplateRequest J = j_mk_object J [(''rules'', j_mk_array J [j_mk_string J ''segwit''])]"

record CurrentWork =
  cw_blockchain :: BlockchainInfo
  cw_block_template :: BlockTemplate

definition FetchCurrentWork :: "'e curl_api \<Rightarrow> 'j json_api \<Rightarrow> NetworkIdentity \<Rightarrow> 'e atomic_flag option \<Rightarrow>
    (RpcClient \<times> 'e process, CurrentWork) act" where
  "FetchCurrentWork C J network fl =
    abind (Call C J ''getblockchaininfo'' (j_mk_array J []) (ShutdownRpcOptions fl)) (\<lambda>v.
    abind (alift (ParseBlockchainInfo J v)) (\<lambda>blockchain.
    abind (Call C J ''getblocktemplate'' (j_mk_array J [TemplateRequest J]) (ShutdownRpcOptions fl)) (\<lambda>v.
    abind (alift (ParseBlockTemplate J v)) (\<lambda>block_template.
    abind (alift (ValidateProofOfWorkTarget network (bt_target block_template))) (\<lambda>_.
    aok \<lparr>cw_blockchain = blockchain, cw_block_template = block_template\<rparr>)))))"

definition TemplateMatchesTip :: "CurrentWork \<Rightarrow> bool" where
  "TemplateMatchesTip work =
    (if bi_blocks (cw_blockchain work) = 0xffffffffffffffff then False
     else bt_previous_block_hash (cw_block_template work) = bi_best_block_hash (cw_blockchain work) \<and>
       bt_height (cw_block_template work) = bi_blocks (cw_blockchain work) + 1)"

section \<open>Starting\<close>

record StartupRpcState =
  su_credentials :: RpcCredentials
  su_rpc :: RpcClient
  su_payout_script :: bytes

definition startup_queries :: "'e curl_api \<Rightarrow> 'j json_api \<Rightarrow> NetworkIdentity \<Rightarrow> string \<Rightarrow> 'e atomic_flag option \<Rightarrow>
    (RpcClient \<times> 'e process, bytes) act" where
  "startup_queries C J network payout_address fl =
    abind (Call C J ''getblockchaininfo'' (j_mk_array J []) (ShutdownRpcOptions fl)) (\<lambda>v.
    abind (alift (ParseBlockchainInfo J v)) (\<lambda>initial_blockchain.
    abind (Call C J ''getblockhash'' (j_mk_array J [j_mk_int J 0]) (ShutdownRpcOptions fl)) (\<lambda>v.
    abind (alift (ParseRpcHash J v ''getblockhash 0'')) (\<lambda>live_genesis.
    abind (alift (ValidateNetworkIdentity network initial_blockchain live_genesis)) (\<lambda>_.
    ResolvePayoutAddress C J payout_address (ShutdownRpcOptions fl))))))"

definition startup_attempt :: "'e world_api \<Rightarrow> 'j json_api \<Rightarrow> NetworkIdentity \<Rightarrow> RpcConnectionSettings \<Rightarrow> string \<Rightarrow>
    'e atomic_flag option \<Rightarrow> ('e process, StartupRpcState) act" where
  "startup_attempt W J network connection payout_address fl =
    abind (FromCookieFile (w_read_file W) (cookie_file connection)) (\<lambda>credentials.
    abind (RpcClient_new (w_curl W) (rpc_url connection) credentials) (\<lambda>rpc p.
      let (r, rpc, p) = startup_queries (w_curl W) J network payout_address fl (rpc, p)
      in (case r of Inl e \<Rightarrow> Inl e
          | Inr payout_script \<Rightarrow> Inr \<lparr>su_credentials = credentials, su_rpc = rpc, su_payout_script = payout_script\<rparr>, p)))"

text \<open>
  One round of the loop: the next state of the process, or the result. \<open>Some (Inr None, p)\<close> is a start
  that was cancelled, \<open>None\<close> one that goes on for ever.
\<close>

definition startup_round :: "'e world_api \<Rightarrow> 'j json_api \<Rightarrow> NetworkIdentity \<Rightarrow> RpcConnectionSettings \<Rightarrow> string \<Rightarrow>
    'e atomic_flag option \<Rightarrow> 'e process \<Rightarrow> 'e process + StartupRpcState option res \<times> 'e process" where
  "startup_round W J network connection payout_address fl p =
    (case eff (poll_flag fl) p of
       (Inr False, p) \<Rightarrow>
         (case startup_attempt W J network connection payout_address fl p of
            (Inr st, p) \<Rightarrow> Inr (Inr (Some st), p)
          | (Inl e, p) \<Rightarrow>
              if is_RpcCancelled e then
                (case eff (poll_flag fl) p of
                   (Inr True, p) \<Rightarrow> Inr (Inr None, p)
                 | (_, p) \<Rightarrow> Inr (Inl e, p))
              else if is_RpcException e then
                (case abind (eff (cerr W (''RPC startup connection failed: '' @ what_of e @ newline @
                        ''Retrying startup in 1 second'' @ newline))) (\<lambda>_. eff (InterruptibleSleep W 1000 fl)) p of
                   (Inr True, p) \<Rightarrow> Inl p
                 | (_, p) \<Rightarrow> Inr (Inr None, p))
              else Inr (Inl e, p))
     | (_, p) \<Rightarrow> Inr (Inr None, p))"

definition WaitForStartupRpc :: "'e world_api \<Rightarrow> 'j json_api \<Rightarrow> NetworkIdentity \<Rightarrow>
    RpcConnectionSettings \<Rightarrow> string \<Rightarrow> 'e atomic_flag option \<Rightarrow> 'e process \<Rightarrow>
    (StartupRpcState option res \<times> 'e process) option" where
  "WaitForStartupRpc W J network connection payout_address fl =
    repeat_until (startup_round W J network connection payout_address fl)"

section \<open>Submitting\<close>

datatype ResolvedSubmitOutcome = ACCEPTED | REJECTED_BY_NODE | NOT_CURRENT_TIP | CANCELLED_SUBMIT

definition SubmitCandidate :: "'e curl_api \<Rightarrow> 'j json_api \<Rightarrow> BlockCandidate \<Rightarrow> 'e atomic_flag option \<Rightarrow>
    (RpcClient \<times> 'e process, SubmitBlockResult \<times> string) act" where
  "SubmitCandidate C J candidate fl =
    abind (Call C J ''submitblock'' (j_mk_array J [j_mk_string J (Hex (bc_serialized_block candidate))])
      (ShutdownRpcOptions fl)) (\<lambda>v.
    alift (ClassifySubmitBlockResult J v))"

definition ConfirmAcceptedTip :: "'e curl_api \<Rightarrow> 'j json_api \<Rightarrow> u64 \<Rightarrow> UInt256 \<Rightarrow> 'e atomic_flag option \<Rightarrow>
    (RpcClient \<times> 'e process, bool) act" where
  "ConfirmAcceptedTip C J expected_height expected_hash fl =
    abind (Call C J ''getblockcount'' (j_mk_array J []) (ShutdownRpcOptions fl)) (\<lambda>v.
    abind (alift (ParseRpcHeight J v ''getblockcount'')) (\<lambda>height.
    abind (Call C J ''getbestblockhash'' (j_mk_array J []) (ShutdownRpcOptions fl)) (\<lambda>v.
    abind (alift (ParseRpcHash J v ''getbestblockhash'')) (\<lambda>best.
    aok (height = expected_height \<and> best = expected_hash)))))"

definition submit_attempt :: "'e curl_api \<Rightarrow> 'j json_api \<Rightarrow> BlockCandidate \<Rightarrow> u64 \<Rightarrow> UInt256 \<Rightarrow> 'e atomic_flag option \<Rightarrow>
    (RpcClient \<times> 'e process, ResolvedSubmitOutcome \<times> string) act" where
  "submit_attempt C J candidate expected_height expected_hash fl =
    abind (SubmitCandidate C J candidate fl) (\<lambda>(outcome, rejection).
    if outcome = REJECTED then aok (REJECTED_BY_NODE, rejection)
    else abind (ConfirmAcceptedTip C J expected_height expected_hash fl) (\<lambda>confirmed.
      aok (if confirmed then ACCEPTED else NOT_CURRENT_TIP, rejection)))"

definition submit_round :: "'e world_api \<Rightarrow> 'j json_api \<Rightarrow> RpcConnectionSettings \<Rightarrow>
    BlockCandidate \<Rightarrow> u64 \<Rightarrow> UInt256 \<Rightarrow> 'e atomic_flag option \<Rightarrow> 'e node_state \<Rightarrow>
    'e node_state + (ResolvedSubmitOutcome \<times> string) res \<times> 'e node_state" where
  "submit_round W J connection candidate expected_height expected_hash fl q =
    (case on_world (poll_flag fl) q of
       (Inr False, q) \<Rightarrow>
         (case on_client (submit_attempt (w_curl W) J candidate expected_height expected_hash fl) q of
            (Inr r, q) \<Rightarrow> Inr (Inr r, q)
          | (Inl e, q) \<Rightarrow>
              if is_RpcCancelled e then
                (case on_world (poll_flag fl) q of
                   (Inr True, q) \<Rightarrow> Inr (Inr (CANCELLED_SUBMIT, []), q)
                 | (_, q) \<Rightarrow> Inr (Inl e, q))
              else if is_RpcException e then
                (case abind (on_world (cerr W (''RPC error while submitting or confirming solved candidate: '' @
                          what_of e @ newline))) (\<lambda>_.
                      abind (TryReloadRpcCookie W connection) (\<lambda>_.
                      abind (on_world (cerr W (''Retrying the same solved candidate in 1 second'' @ newline))) (\<lambda>_.
                      on_world (InterruptibleSleep W 1000 fl)))) q of
                   (Inr True, q) \<Rightarrow> Inl q
                 | (Inr False, q) \<Rightarrow> Inr (Inr (CANCELLED_SUBMIT, []), q)
                 | (Inl e, q) \<Rightarrow> Inr (Inl e, q))
              else Inr (Inl e, q))
     | (_, q) \<Rightarrow> Inr (Inr (CANCELLED_SUBMIT, []), q))"

definition SubmitCandidateReliably :: "'e world_api \<Rightarrow> 'j json_api \<Rightarrow> RpcConnectionSettings \<Rightarrow>
    BlockCandidate \<Rightarrow> u64 \<Rightarrow> UInt256 \<Rightarrow> 'e atomic_flag option \<Rightarrow> 'e node_state \<Rightarrow>
    ((ResolvedSubmitOutcome \<times> string) res \<times> 'e node_state) option" where
  "SubmitCandidateReliably W J connection candidate expected_height expected_hash fl =
    repeat_until (submit_round W J connection candidate expected_height expected_hash fl)"

section \<open>What a submission reports\<close>

lemma on_world_eq: "on_world f (c, r, p) = (x, c', r', p') \<longleftrightarrow>
    (\<exists>a e. f (outside p) = (a, e) \<and> x = Inr a \<and> c' = c \<and> r' = r \<and> p' = p\<lparr>outside := e\<rparr>)"
  by (cases x) (auto simp: on_world_def act_simps)

text \<open>The shutdown flag was seen set.\<close>

definition seen_set :: "'e atomic_flag option \<Rightarrow> bool" where
  "seen_set fl \<longleftrightarrow> (\<exists>load e e'. fl = Some load \<and> load e = (True, e'))"

lemma flag_seen_options [simp]: "flag_seen (ShutdownRpcOptions fl) \<longleftrightarrow> seen_set fl"
  by (simp add: flag_seen_def seen_set_def ShutdownRpcOptions_def)

lemma poll_flag_True: "poll_flag fl e = (True, e') \<Longrightarrow> seen_set fl"
  by (auto simp: poll_flag_def seen_set_def split: option.splits)

lemma sleep_loop_False: "sleep_loop W fl remaining e = (False, e') \<Longrightarrow> seen_set fl"
proof (induction W fl remaining e rule: sleep_loop.induct)
  case (1 W fl remaining e)
  obtain c e1 where p: "poll_flag fl e = (c, e1)" by fastforce
  show ?case
  proof (cases "remaining > 0 \<and> \<not> c")
    case True
    with 1 p show ?thesis by (subst (asm) (2) sleep_loop.simps) (auto simp: Let_def)
  next
    case False
    with "1.prems" p have "c" by (subst (asm) sleep_loop.simps) (auto split: if_splits)
    with p show ?thesis by (auto dest: poll_flag_True)
  qed
qed

lemma on_world_poll: "on_world (poll_flag fl) q = (Inr True, q') \<Longrightarrow> seen_set fl"
  by (cases q; cases q') (auto simp: on_world_eq dest: poll_flag_True)

lemma on_world_sleep: "on_world (InterruptibleSleep W d fl) q = (Inr False, q') \<Longrightarrow> seen_set fl"
  by (cases q; cases q') (auto simp: on_world_eq InterruptibleSleep_def dest: sleep_loop_False)

lemma on_world_Inl [simp]: "on_world f q \<noteq> (Inl e, q')"
  by (cases q; cases q') (auto simp: on_world_eq)

text \<open>Reloading the credentials between two attempts throws nothing.\<close>

lemma TryReload_no_throw: "TryReloadRpcCookie W connection q \<noteq> (Inl e, q')"
proof
  assume reload: "TryReloadRpcCookie W connection q = (Inl e, q')"
  obtain c r p where q: "q = (c, r, p)" by (metis prod_cases3)
  obtain x c1 r1 p1 where x: "ReloadRpcClientFromCookie (w_curl W) (w_read_file W) connection (c, r, p) = (x, c1, r1, p1)"
    by (metis prod_cases4)
  have "is_RpcException e'" if "x = Inl e'" for e'
    using ReloadRpcClientFromCookie_throws x that unfolding throws_only_def by blast
  then show False using reload x q
    by (auto simp: TryReloadRpcCookie_def is_RpcException_def split: sum.splits bool.splits)
qed

text \<open>An answer that the node gave to a call under the shutdown flag.\<close>

definition answered :: "'e curl_api \<Rightarrow> 'j json_api \<Rightarrow> 'e atomic_flag option \<Rightarrow> string \<Rightarrow> 'j list \<Rightarrow> 'j \<Rightarrow> bool" where
  "answered C J fl method params v \<longleftrightarrow>
    (\<exists>st st'. Call C J method (j_mk_array J params) (ShutdownRpcOptions fl) st = (Inr v, st'))"

lemma answeredI:
  "Call C J method (j_mk_array J params) (ShutdownRpcOptions fl) st = (Inr v, st') \<Longrightarrow>
    answered C J fl method params v"
  unfolding answered_def by blast

definition submit_answer :: "'e curl_api \<Rightarrow> 'j json_api \<Rightarrow> 'e atomic_flag option \<Rightarrow> BlockCandidate \<Rightarrow> 'j \<Rightarrow> bool" where
  "submit_answer C J fl candidate v \<longleftrightarrow>
    answered C J fl ''submitblock'' [j_mk_string J (hex_encode (bc_serialized_block candidate))] v"

definition taken :: "'j json_api \<Rightarrow> 'j \<Rightarrow> bool" where
  "taken J v \<longleftrightarrow> j_is_null J v \<or> j_is_string J v \<and> j_string J v \<in> {''duplicate'', ''inconclusive''}"

definition tip_is :: "'e curl_api \<Rightarrow> 'j json_api \<Rightarrow> 'e atomic_flag option \<Rightarrow> u64 \<Rightarrow> UInt256 \<Rightarrow> bool" where
  "tip_is C J fl height best \<longleftrightarrow> (\<exists>v w.
    answered C J fl ''getblockcount'' [] v \<and> ParseRpcHeight J v ''getblockcount'' = Inr height \<and>
    answered C J fl ''getbestblockhash'' [] w \<and> ParseRpcHash J w ''getbestblockhash'' = Inr best)"

definition submit_report :: "'e curl_api \<Rightarrow> 'j json_api \<Rightarrow> 'e atomic_flag option \<Rightarrow> BlockCandidate \<Rightarrow> u64 \<Rightarrow> UInt256 \<Rightarrow>
    (ResolvedSubmitOutcome \<times> string) res \<Rightarrow> bool" where
  "submit_report C J fl candidate height hash r \<longleftrightarrow> (case r of
     Inr (ACCEPTED, _) \<Rightarrow> (\<exists>v. submit_answer C J fl candidate v \<and> taken J v) \<and> tip_is C J fl height hash
   | Inr (REJECTED_BY_NODE, why) \<Rightarrow> (\<exists>v. submit_answer C J fl candidate v \<and> \<not> taken J v \<and>
       j_is_string J v \<and> why = j_string J v)
   | Inr (NOT_CURRENT_TIP, _) \<Rightarrow> (\<exists>v. submit_answer C J fl candidate v \<and> taken J v) \<and>
       (\<exists>height' hash'. tip_is C J fl height' hash' \<and> (height', hash') \<noteq> (height, hash))
   | Inr (CANCELLED_SUBMIT, _) \<Rightarrow> seen_set fl
   | Inl e \<Rightarrow> \<not> is_RpcException e \<and> (is_RpcCancelled e \<longrightarrow> seen_set fl))"

lemma Hex_encode: "Hex bs = hex_encode bs"
  unfolding Hex_def by (induction bs) (simp_all add: hex_high_def hex_low_def)

lemma Classify_cases:
  "ClassifySubmitBlockResult J v = Inr (o', why) \<Longrightarrow>
    (o' = REJECTED \<longrightarrow> \<not> taken J v \<and> j_is_string J v \<and> why = j_string J v) \<and>
    (o' = NEEDS_TIP_CONFIRMATION \<longrightarrow> taken J v)"
  by (auto simp: ClassifySubmitBlockResult_def taken_def rbind_Inr_iff Let_def split: if_splits)

lemma SubmitCandidate_Inr:
  assumes "SubmitCandidate C J candidate fl st = (Inr (o', why), st')"
  shows "\<exists>v. submit_answer C J fl candidate v \<and> ClassifySubmitBlockResult J v = Inr (o', why)"
  using assms unfolding SubmitCandidate_def submit_answer_def answered_def Hex_encode act_simps
  by blast

lemma ConfirmAcceptedTip_Inr:
  assumes "ConfirmAcceptedTip C J height hash fl st = (Inr b, st')"
  shows "\<exists>height' hash'. tip_is C J fl height' hash' \<and> b = (height' = height \<and> hash' = hash)"
  using assms unfolding ConfirmAcceptedTip_def tip_is_def answered_def act_simps by blast

lemma submit_attempt_Inr:
  assumes "submit_attempt C J candidate height hash fl st = (Inr r, st')"
  shows "submit_report C J fl candidate height hash (Inr r)"
proof -
  obtain o' why st1 where s: "SubmitCandidate C J candidate fl st = (Inr (o', why), st1)"
    using assms unfolding submit_attempt_def act_simps by auto
  then obtain v where v: "submit_answer C J fl candidate v" "ClassifySubmitBlockResult J v = Inr (o', why)"
    using SubmitCandidate_Inr by blast
  show ?thesis
  proof (cases o')
    case REJECTED
    with assms s have "r = (REJECTED_BY_NODE, why)" unfolding submit_attempt_def by (auto simp: act_simps)
    with v Classify_cases [OF v(2)] REJECTED show ?thesis by (auto simp: submit_report_def)
  next
    case NEEDS_TIP_CONFIRMATION
    with assms s obtain b st2 where b: "ConfirmAcceptedTip C J height hash fl st1 = (Inr b, st2)"
      "r = (if b then ACCEPTED else NOT_CURRENT_TIP, why)"
      unfolding submit_attempt_def by (auto simp: act_simps)
    with v Classify_cases [OF v(2)] NEEDS_TIP_CONFIRMATION ConfirmAcceptedTip_Inr [OF b(1)] show ?thesis
      by (cases b) (auto simp: submit_report_def)
  qed
qed

text \<open>What a round can throw besides the exceptions of the client.\<close>

definition runtime_error :: "exn \<Rightarrow> bool" where
  "runtime_error e \<longleftrightarrow> (\<exists>m. e = RuntimeError m)"

lemma submit_attempt_throws:
  "throws_only (\<lambda>e. call_failure (ShutdownRpcOptions fl) e \<or> runtime_error e)
    (submit_attempt C J candidate height hash fl)"
proof -
  have h: "runtime_error e" if "ParseRpcHeight J v d = Inl e" for v d e
    using that by (auto simp: ParseRpcHeight_def runtime_error_def rbind_Inl_iff split: if_splits)
  have b: "runtime_error e" if "ParseRpcHash J v d = Inl e" for v d e
    using that by (auto simp: ParseRpcHash_def runtime_error_def rbind_Inl_iff)
  have c: "runtime_error e" if "ClassifySubmitBlockResult J v = Inl e" for v e
    using that by (auto simp: ClassifySubmitBlockResult_def runtime_error_def rbind_Inl_iff Let_def split: if_splits)
  have call: "throws_only (\<lambda>e. call_failure (ShutdownRpcOptions fl) e \<or> runtime_error e)
      (Call C J m p (ShutdownRpcOptions fl))" for m p
    by (rule throws_only_mono [OF Call_throws]) simp
  show ?thesis
    unfolding submit_attempt_def SubmitCandidate_def ConfirmAcceptedTip_def
    by (intro throws_only_abind call; (simp split: prod.split)?)
      (auto intro!: throws_only_abind call dest: h b c)
qed

lemma submit_report_error:
  assumes "call_failure (ShutdownRpcOptions fl) e \<or> runtime_error e" "\<not> is_RpcException e"
  shows "submit_report C J fl candidate height hash (Inl e)"
  using assms by (auto simp: submit_report_def call_failure_def runtime_error_def is_RpcCancelled_def)

lemma on_client_run: "on_client m q = (r, q') \<Longrightarrow> \<exists>st st'. m st = (r, st')"
  by (cases q; cases q') (auto simp: on_client_def on_rest_eq)

lemma on_client_throws: "throws_only P m \<Longrightarrow> throws_only P (on_client m)"
  by (simp add: on_client_def)

lemma on_client_submit_attempt:
  assumes "on_client (submit_attempt C J candidate height hash fl) q = (Inr x, q')"
  shows "submit_report C J fl candidate height hash (Inr x)"
  using on_client_run [OF assms] by (elim exE) (rule submit_attempt_Inr)

lemma submit_round_Inr:
  assumes "submit_round W J connection candidate height hash fl q = Inr (r, q')"
  shows "submit_report (w_curl W) J fl candidate height hash r"
proof -
  obtain c q1 where c: "on_world (poll_flag fl) q = (Inr c, q1)" by (metis on_world_Inl surj_pair sumE)
  obtain a q2 where a: "on_client (submit_attempt (w_curl W) J candidate height hash fl) q1 = (a, q2)" by (metis surj_pair)
  show ?thesis
  proof (cases c)
    case True
    then have "r = Inr (CANCELLED_SUBMIT, [])" using assms c by (simp add: submit_round_def)
    moreover have "on_world (poll_flag fl) q = (Inr True, q1)" using c True by simp
    then have "seen_set fl" by (rule on_world_poll)
    ultimately show ?thesis by (simp add: submit_report_def)
  next
    case False
    then have c: "on_world (poll_flag fl) q = (Inr False, q1)" using c by simp
    show ?thesis
    proof (cases a)
      case (Inr x)
      have "submit_report (w_curl W) J fl candidate height hash (Inr x)"
        using a [unfolded Inr] by (rule on_client_submit_attempt)
      with assms c a Inr show ?thesis by (simp add: submit_round_def)
    next
      case (Inl e)
      have e: "call_failure (ShutdownRpcOptions fl) e \<or> runtime_error e"
        using on_client_throws [OF submit_attempt_throws] a [unfolded Inl] by (rule throws_onlyD)
      obtain d q3 where d: "on_world (poll_flag fl) q2 = (Inr d, q3)" by (metis on_world_Inl surj_pair sumE)
      note round = assms [unfolded submit_round_def c prod.case sum.case bool.case a [unfolded Inl]]
      consider "is_RpcCancelled e" | "\<not> is_RpcCancelled e" "is_RpcException e"
        | "\<not> is_RpcCancelled e" "\<not> is_RpcException e" by blast
      then show ?thesis
      proof cases
        case 1
        then have "\<not> is_RpcException e" by (auto simp: is_RpcCancelled_def)
        with e have "submit_report (w_curl W) J fl candidate height hash (Inl e)" by (rule submit_report_error)
        with round 1 d on_world_poll show ?thesis
          by (cases d) (auto simp: submit_report_def)
      next
        case 2
        with round show ?thesis
          by (auto simp: submit_report_def TryReload_no_throw act_simps dest: on_world_sleep
              split: prod.splits sum.splits bool.splits)
      next
        case 3
        with round submit_report_error [OF e] show ?thesis by simp
      qed
    qed
  qed
qed

text \<open>An attempt that the loop repeats: the shutdown flag was clear and the RPC failed.\<close>

definition failed_submit :: "'e world_api \<Rightarrow> 'j json_api \<Rightarrow> BlockCandidate \<Rightarrow> u64 \<Rightarrow> UInt256 \<Rightarrow>
    'e atomic_flag option \<Rightarrow> 'e node_state \<Rightarrow> bool" where
  "failed_submit W J candidate height hash fl q \<longleftrightarrow> (\<exists>q1 q2 e. on_world (poll_flag fl) q = (Inr False, q1) \<and>
    on_client (submit_attempt (w_curl W) J candidate height hash fl) q1 = (Inl e, q2) \<and> is_RpcException e)"

lemma submit_round_Inl:
  "submit_round W J connection candidate height hash fl q = Inl q' \<Longrightarrow> failed_submit W J candidate height hash fl q"
  unfolding submit_round_def failed_submit_def
  by (auto split: prod.splits sum.splits bool.splits if_splits)

interpretation submission: retry "submit_round W J connection candidate height hash fl"
    "failed_submit W J candidate height hash fl" "\<lambda>r. submit_report (w_curl W) J fl candidate height hash (fst r)"
  by unfold_locales (auto dest: submit_round_Inl submit_round_Inr)

lemma SubmitCandidateReliably_report:
  assumes "SubmitCandidateReliably W J connection candidate height hash fl q = Some (r, q')"
  shows "submit_report (w_curl W) J fl candidate height hash r"
  using submission.retry_result [OF assms [unfolded SubmitCandidateReliably_def]] by simp

section \<open>What the queries return\<close>

lemma FetchCurrentWork_Inr:
  assumes "FetchCurrentWork C J network fl st = (Inr work, st')"
  shows "\<exists>v w. answered C J fl ''getblockchaininfo'' [] v \<and>
    ParseBlockchainInfo J v = Inr (cw_blockchain work) \<and>
    answered C J fl ''getblocktemplate'' [TemplateRequest J] w \<and>
    ParseBlockTemplate J w = Inr (cw_block_template work) \<and>
    ValidateProofOfWorkTarget network (bt_target (cw_block_template work)) = Inr ()"
  using assms unfolding FetchCurrentWork_def by (auto simp: act_simps dest!: answeredI) blast

text \<open>What a started miner has checked.\<close>

definition started :: "'e curl_api \<Rightarrow> 'j json_api \<Rightarrow> NetworkIdentity \<Rightarrow> RpcConnectionSettings \<Rightarrow> string \<Rightarrow>
    'e atomic_flag option \<Rightarrow> StartupRpcState \<Rightarrow> bool" where
  "started C J network connection address fl st \<longleftrightarrow>
    cookie_line (basic_auth (su_credentials st)) \<and>
    m_url (su_rpc st) = rpc_url connection \<and> m_credentials (su_rpc st) = su_credentials st \<and>
    (\<exists>v info w genesis. answered C J fl ''getblockchaininfo'' [] v \<and> ParseBlockchainInfo J v = Inr info \<and>
      answered C J fl ''getblockhash'' [j_mk_int J 0] w \<and> ParseRpcHash J w ''getblockhash 0'' = Inr genesis \<and>
      ValidateNetworkIdentity network info genesis = Inr ()) \<and>
    (\<exists>v program. answered C J fl ''validateaddress'' [j_mk_string J address] v \<and> vouches J v program \<and>
      su_payout_script st = [0x52, 0x20] @ program)"

text \<open>A call keeps the URL and the credentials of the client.\<close>

definition keeps_client :: "(RpcClient \<times> 'e process, 'a) act \<Rightarrow> bool" where
  "keeps_client m \<longleftrightarrow> (\<forall>rpc p r rpc' p'. m (rpc, p) = (r, rpc', p') \<longrightarrow>
    m_url rpc' = m_url rpc \<and> m_credentials rpc' = m_credentials rpc)"

lemma keeps_client_Call [simp]: "keeps_client (Call C J method params opts)"
  unfolding keeps_client_def using Call_client by fastforce

lemma keeps_client_basic [simp]: "keeps_client (alift r)" "keeps_client (aok x)" "keeps_client (athrow_if c e)"
  by (auto simp: keeps_client_def aok_def alift_def athrow_if_def athrow_def)

lemma keeps_client_abind:
  "keeps_client m \<Longrightarrow> (\<And>x. keeps_client (f x)) \<Longrightarrow> keeps_client (abind m f)"
  unfolding keeps_client_def abind_def by (auto split: prod.splits sum.splits) metis+

lemma keeps_client_Resolve [simp]: "keeps_client (ResolvePayoutAddress C J address opts)"
  unfolding ResolvePayoutAddress_def by (intro keeps_client_abind) simp_all

lemma startup_queries_Inr:
  assumes "startup_queries C J network address fl st = (Inr script, st')"
  shows "\<exists>v info w genesis u program. answered C J fl ''getblockchaininfo'' [] v \<and> ParseBlockchainInfo J v = Inr info \<and>
      answered C J fl ''getblockhash'' [j_mk_int J 0] w \<and> ParseRpcHash J w ''getblockhash 0'' = Inr genesis \<and>
      ValidateNetworkIdentity network info genesis = Inr () \<and>
      answered C J fl ''validateaddress'' [j_mk_string J address] u \<and> vouches J u program \<and>
      script = [0x52, 0x20] @ program"
proof -
  obtain v st1 info w st2 genesis st3 where q:
    "Call C J ''getblockchaininfo'' (j_mk_array J []) (ShutdownRpcOptions fl) st = (Inr v, st1)"
    "ParseBlockchainInfo J v = Inr info"
    "Call C J ''getblockhash'' (j_mk_array J [j_mk_int J 0]) (ShutdownRpcOptions fl) st1 = (Inr w, st2)"
    "ParseRpcHash J w ''getblockhash 0'' = Inr genesis" "ValidateNetworkIdentity network info genesis = Inr ()"
    "ResolvePayoutAddress C J address (ShutdownRpcOptions fl) st3 = (Inr script, st')"
    using assms unfolding startup_queries_def act_simps by (elim exE conjE) auto
  from q(6) obtain u program where a: "Call C J ''validateaddress'' (j_mk_array J [j_mk_string J address])
      (ShutdownRpcOptions fl) st3 = (Inr u, st')" and p: "vouches J u program" "script = [0x52, 0x20] @ program"
    unfolding ResolvePayoutAddress_def act_simps
    by (elim exE conjE) (auto simp: ParsePayoutAddressResponse_Inr witness_v2_script_def)
  show ?thesis
    by (intro exI conjI) (rule answeredI [OF q(1)] q(2) answeredI [OF q(3)] q(4,5) answeredI [OF a] p)+
qed

lemma startup_attempt_Inr:
  assumes "startup_attempt W J network connection address fl p = (Inr st, p')"
  shows "started (w_curl W) J network connection address fl st"
proof -
  obtain credentials p1 rpc p2 where
    s: "FromCookieFile (w_read_file W) (cookie_file connection) p = (Inr credentials, p1)"
      "RpcClient_new (w_curl W) (rpc_url connection) credentials p1 = (Inr rpc, p2)"
    and l: "(let (r, rpc, p) = startup_queries (w_curl W) J network address fl (rpc, p2)
      in (case r of Inl e \<Rightarrow> Inl e
          | Inr script \<Rightarrow> Inr \<lparr>su_credentials = credentials, su_rpc = rpc, su_payout_script = script\<rparr>, p)) = (Inr st, p')"
    using assms unfolding startup_attempt_def abind_Inr by blast
  obtain r rpc' p3 where "startup_queries (w_curl W) J network address fl (rpc, p2) = (r, rpc', p3)"
    by (metis prod_cases3)
  with l obtain script where q: "startup_queries (w_curl W) J network address fl (rpc, p2) = (Inr script, rpc', p3)"
    and st: "st = \<lparr>su_credentials = credentials, su_rpc = rpc', su_payout_script = script\<rparr>"
    by (cases r) auto
  have "keeps_client (startup_queries (w_curl W) J network address fl)"
    unfolding startup_queries_def by (intro keeps_client_abind) simp_all
  then have "m_url rpc' = m_url rpc" "m_credentials rpc' = m_credentials rpc"
    using q unfolding keeps_client_def by blast+
  moreover have "cookie_line (basic_auth credentials)" using s(1) by (auto simp: FromCookieFile_Inr)
  moreover note RpcClient_new_Inr [OF s(2)] startup_queries_Inr [OF q]
  ultimately show ?thesis unfolding started_def st by (elim exE conjE) (simp; blast)
qed

definition failed_startup :: "'e world_api \<Rightarrow> 'j json_api \<Rightarrow> NetworkIdentity \<Rightarrow> RpcConnectionSettings \<Rightarrow> string \<Rightarrow>
    'e atomic_flag option \<Rightarrow> 'e process \<Rightarrow> bool" where
  "failed_startup W J network connection address fl p \<longleftrightarrow> (\<exists>p1 p2 e. eff (poll_flag fl) p = (Inr False, p1) \<and>
    startup_attempt W J network connection address fl p1 = (Inl e, p2) \<and> is_RpcException e)"

lemma startup_round_Inl:
  "startup_round W J network connection address fl p = Inl p' \<Longrightarrow> failed_startup W J network connection address fl p"
  unfolding startup_round_def failed_startup_def
  by (auto split: prod.splits sum.splits bool.splits if_splits)

definition startup_report :: "'e curl_api \<Rightarrow> 'j json_api \<Rightarrow> NetworkIdentity \<Rightarrow> RpcConnectionSettings \<Rightarrow> string \<Rightarrow>
    'e atomic_flag option \<Rightarrow> StartupRpcState option res \<Rightarrow> bool" where
  "startup_report C J network connection address fl r \<longleftrightarrow> (case r of
     Inr (Some st) \<Rightarrow> started C J network connection address fl st
   | Inr None \<Rightarrow> seen_set fl
   | Inl e \<Rightarrow> \<not> is_RpcException e)"

lemma eff_poll: "eff (poll_flag fl) p = (Inr True, p') \<Longrightarrow> seen_set fl"
  by (auto simp: eff_Inr dest: poll_flag_True)

lemma eff_sleep: "eff (InterruptibleSleep W d fl) p = (Inr False, p') \<Longrightarrow> seen_set fl"
  by (auto simp: eff_Inr InterruptibleSleep_def dest: sleep_loop_False)

lemma startup_round_Inr:
  assumes "startup_round W J network connection address fl p = Inr (r, p')"
  shows "startup_report (w_curl W) J network connection address fl r"
proof -
  obtain c p1 where c: "eff (poll_flag fl) p = (Inr c, p1)" by (metis eff_Inl surj_pair sumE)
  obtain a p2 where a: "startup_attempt W J network connection address fl p1 = (a, p2)" by (metis surj_pair)
  consider "c" | st where "\<not> c" "a = Inr st" | e where "\<not> c" "a = Inl e" by (cases a) auto
  then show ?thesis
  proof cases
    case 1
    with assms c have "r = Inr None" by (simp add: startup_round_def)
    with 1 c show ?thesis by (auto simp: startup_report_def dest: eff_poll)
  next
    case 2
    with assms a c have "r = Inr (Some st)" by (simp add: startup_round_def)
    with 2 a show ?thesis by (simp add: startup_report_def startup_attempt_Inr)
  next
    case 3
    with c have c: "eff (poll_flag fl) p = (Inr False, p1)" by simp
    note round = assms [unfolded startup_round_def c prod.case sum.case bool.case a 3]
    show ?thesis
    proof (cases "is_RpcCancelled e")
      case True
      then have "\<not> is_RpcException e" by (auto simp: is_RpcCancelled_def)
      with True round show ?thesis
        by (auto simp: startup_report_def dest: eff_poll split: prod.splits sum.splits bool.splits)
    next
      case False
      with round show ?thesis
        by (auto simp: startup_report_def abind_Inr abind_Inl dest: eff_sleep
            split: prod.splits sum.splits bool.splits if_splits)
    qed
  qed
qed

interpretation startup: retry "startup_round W J network connection address fl"
    "failed_startup W J network connection address fl" "\<lambda>r. startup_report (w_curl W) J network connection address fl (fst r)"
  by unfold_locales (auto dest: startup_round_Inl startup_round_Inr)

lemma WaitForStartupRpc_report:
  assumes "WaitForStartupRpc W J network connection address fl p = Some (r, p')"
  shows "startup_report (w_curl W) J network connection address fl r"
  using startup.retry_result [OF assms [unfolded WaitForStartupRpc_def]] by simp

section \<open>Properties\<close>


text \<open>C17: The start waits for the node as long as the RPC fails and the shutdown flag is clear. It hands out
  a client only with the credentials of the cookie file it read and the configured URL, after the
  node named the chain and the genesis block of the network and vouched for the payout address, and
  with the script of that address.\<close>

theorem WaitForStartupRpc_ready:
  "case WaitForStartupRpc W J network connection address fl p of
     None \<Rightarrow> \<exists>ps. ps 0 = p \<and> (\<forall>n. failed_startup W J network connection address fl (ps n))
   | Some (r, p') \<Rightarrow> startup_report (w_curl W) J network connection address fl r"
  unfolding WaitForStartupRpc_def case_prod_unfold by (rule startup.retry_outcome)

lemma fetch_call:
  "throws_only (\<lambda>e. is_RpcCancelled e \<longrightarrow> seen_set fl) (Call C J m p (ShutdownRpcOptions fl))"
  by (rule throws_only_mono [OF Call_throws]) (simp add: call_failure_def)

lemma parser_cancels:
  "ParseBlockTemplate J v = Inl e \<Longrightarrow> \<not> is_RpcCancelled e"
  "ParseBlockchainInfo J v = Inl e \<Longrightarrow> \<not> is_RpcCancelled e"
  using parser_errors [of J v] unfolding template_error_def is_RpcCancelled_def by blast+

lemma target_cancels: "ValidateProofOfWorkTarget network target = Inl e \<Longrightarrow> \<not> is_RpcCancelled e"
  by (auto simp: ValidateProofOfWorkTarget_def rbind_Inl_iff is_RpcCancelled_def)

lemma TemplateMatchesTip_iff:
  "TemplateMatchesTip work \<longleftrightarrow>
    bt_previous_block_hash (cw_block_template work) = bi_best_block_hash (cw_blockchain work) \<and>
    unat (bt_height (cw_block_template work)) = unat (bi_blocks (cw_blockchain work)) + 1"
proof (cases "bi_blocks (cw_blockchain work) = 0xffffffffffffffff")
  case True
  then show ?thesis using unsigned_less [of "bt_height (cw_block_template work)", where ?'a = nat]
    by (simp add: TemplateMatchesTip_def)
next
  case False
  then have "unat (bi_blocks (cw_blockchain work) + 1) = unat (bi_blocks (cw_blockchain work)) + 1"
    by (simp add: unat_add_one)
  then show ?thesis using False by (simp add: TemplateMatchesTip_def flip: word_unat_eq_iff)
      (metis word_unat_eq_iff)
qed

text \<open>The work a miner fetches is a template the parser accepted, with a target within the proof-of-work
  limit of the network; it counts as current only when it builds on the best block that the node
  named and is one above its height.\<close>

theorem FetchCurrentWork_valid:
  "case FetchCurrentWork C J network fl st of
     (Inr work, st') \<Rightarrow>
       (\<exists>w. ParseBlockTemplate J w = Inr (cw_block_template work)) \<and>
       ValidateProofOfWorkTarget network (bt_target (cw_block_template work)) = Inr () \<and>
       TemplateMatchesTip work =
         (bt_previous_block_hash (cw_block_template work) = bi_best_block_hash (cw_blockchain work) \<and>
          unat (bt_height (cw_block_template work)) = unat (bi_blocks (cw_blockchain work)) + 1)
   | (Inl e, st') \<Rightarrow> is_RpcCancelled e \<longrightarrow> seen_set fl"
proof -
  obtain r st' where f: "FetchCurrentWork C J network fl st = (r, st')" by (metis surj_pair)
  show ?thesis
  proof (cases r)
    case (Inl e)
    have "throws_only (\<lambda>e. is_RpcCancelled e \<longrightarrow> seen_set fl) (FetchCurrentWork C J network fl)"
      unfolding FetchCurrentWork_def
      by (intro throws_only_abind fetch_call) (auto dest: parser_cancels target_cancels)
    from throws_onlyD [OF this] f Inl show ?thesis by simp
  next
    case (Inr work)
    with f FetchCurrentWork_Inr [of C J network fl st work st'] obtain w where
      "ParseBlockTemplate J w = Inr (cw_block_template work)"
      "ValidateProofOfWorkTarget network (bt_target (cw_block_template work)) = Inr ()" by blast
    with f Inr TemplateMatchesTip_iff show ?thesis by auto
  qed
qed

end
