(* ===== verification/MineLoop.thy ===== *)
theory MineLoop
  imports HashCounter RuntimeReporter MiningJob Submission
begin

text \<open>
  The loop of \<open>main\<close> in \<open>src/mine_loop.cpp\<close>: fetch a template, hand out candidates, mine each with the
  threads of the miner while the watcher waits for a new template, submit what is solved, count what
  the node says. The loop is a step relation over the places where the program can be; what the
  other threads do enters as the histories of the watcher, the outcomes of \<open>Mine\<close> under any
  interleaving, and changes of the world outside between any two steps. Labels say what was mined and
  submitted.
\<close>

record 'e session =
  se_network :: NetworkIdentity
  se_connection :: RpcConnectionSettings
  se_payout_script :: bytes
  se_block_limit :: u64
  se_workers :: nat
  se_shutdown :: "'e atomic_flag"

text \<open>The state: the counters, and credentials, client and process.\<close>

type_synonym 'e mining = "MiningRuntimeStats \<times> 'e node_state"

definition bump :: "(MiningRuntimeStats \<Rightarrow> MiningRuntimeStats) \<Rightarrow> ('e mining, unit) act" where
  "bump f = (\<lambda>(stats, q). (Inr (), f stats, q))"

definition say :: "'e world_api \<Rightarrow> string \<Rightarrow> ('e mining, unit) act" where
  "say W message = on_rest (on_world (cout W (message @ newline)))"

definition warn :: "'e world_api \<Rightarrow> string \<Rightarrow> ('e mining, unit) act" where
  "warn W message = on_rest (on_world (cerr W (message @ newline)))"

definition shutdown_requested :: "'e session \<Rightarrow> ('e mining, bool) act" where
  "shutdown_requested ses = on_rest (on_world (poll_flag (Some (se_shutdown ses))))"

definition number :: "u64 \<Rightarrow> string" where
  "number n = to_string (unat n)"

section \<open>The outer loop\<close>

datatype control =
    Outer
  | Inner CurrentWork MiningJob "LongpollWatcher list" bool
  | Left_loop
  | Threw exn

text \<open>The conditions of the two loops; \<open>refresh\<close> is \<open>refresh_template\<close>.\<close>

definition outer_condition :: "'e session \<Rightarrow> ('e mining, bool) act" where
  "outer_condition ses =
    abind (shutdown_requested ses) (\<lambda>stop.
    if stop then aok False
    else (\<lambda>(stats, q). (Inr (se_block_limit ses = 0 \<or> accepted_blocks stats < se_block_limit ses), stats, q)))"

definition inner_condition :: "'e session \<Rightarrow> MiningJob \<Rightarrow> bool \<Rightarrow> ('e mining, bool) act" where
  "inner_condition ses job refresh =
    (if \<not> HasMoreCandidates job then aok False
     else if refresh then aok False
     else abind (shutdown_requested ses) (\<lambda>stop. aok (\<not> stop)))"

text \<open>From the fetch to the watcher; \<open>None\<close> when the template is not for the current tip.\<close>

definition prepare :: "'e world_api \<Rightarrow> 'j json_api \<Rightarrow> 'e session \<Rightarrow>
    ('e mining, (CurrentWork \<times> MiningJob \<times> LongpollWatcher) option) act" where
  "prepare W J ses =
    abind (on_rest (on_client (FetchCurrentWork (w_curl W) J (se_network ses) (Some (se_shutdown ses))))) (\<lambda>work.
    let t = cw_block_template work in
    if \<not> TemplateMatchesTip work then
      abind (say W ''Template changed during fetch; refreshing'') (\<lambda>_. aok None)
    else
      abind (bump (\<lambda>stats. stats\<lparr>current_height := bt_height t\<rparr>)) (\<lambda>_.
      abind (alift (MiningJob_new t (se_payout_script ses) (bt_height t))) (\<lambda>job.
      abind (\<lambda>(stats, credentials, rest). (Inr credentials, stats, credentials, rest)) (\<lambda>credentials.
      abind (alift (LongpollWatcher_new (rpc_url (se_connection ses)) credentials (bt_longpoll_id t)
        (bt_previous_block_hash t))) (\<lambda>watcher.
      aok (Some (work, job, watcher)))))))"

text \<open>The handlers of the loop, and where an exception in a handler leads.\<close>

definition recover :: "'e world_api \<Rightarrow> 'e session \<Rightarrow> exn \<Rightarrow> ('e mining, control) act" where
  "recover W ses e =
    (if is_RpcCancelled e then
       abind (shutdown_requested ses) (\<lambda>stop. aok (if stop then Left_loop else Threw e))
     else if is_RpcException e then
       abind (shutdown_requested ses) (\<lambda>stop.
       if stop then aok Left_loop
       else
         abind (warn W (''RPC error: '' @ what_of e)) (\<lambda>_.
         abind (on_rest (TryReloadRpcCookie W (se_connection ses))) (\<lambda>_.
         abind (warn W ''Retrying in 1 second'') (\<lambda>_.
         abind (on_rest (on_world (InterruptibleSleep W 1000 (Some (se_shutdown ses))))) (\<lambda>slept.
         aok (if slept then Outer else Left_loop))))))
     else aok (Threw e))"

definition caught :: "control res \<Rightarrow> control" where
  "caught r = (case r of Inr c \<Rightarrow> c | Inl e \<Rightarrow> Threw e)"

section \<open>After a candidate was mined\<close>

datatype verdict = Next_candidate bool | Submit

text \<open>What the program says when it drops a template, by the state the watcher left.\<close>

definition report_refresh :: "'e world_api \<Rightarrow> string \<Rightarrow> LongpollWatcher \<Rightarrow> ('e mining, unit) act" where
  "report_refresh W new_tip final =
    (if lw_status final = RPC_ERROR then warn W (''Longpoll failed: '' @ lw_error final @ ''; refreshing template'')
     else if lw_hard_cancel final then
       abind (bump (\<lambda>stats. stats\<lparr>stale_work := stale_work stats + 1\<rparr>)) (\<lambda>_. say W new_tip)
     else say W ''Longpoll reported a same-tip template update; refreshing template'')"

text \<open>
  \<open>seen\<close> is the watcher as it was when its refresh flag was read before \<open>Finish\<close>, \<open>final\<close> as \<open>Finish\<close>
  left it. Every \<open>continue\<close> or \<open>break\<close> that follows \<open>refresh_template = true\<close> leaves the inner loop.
\<close>

definition judge :: "'e world_api \<Rightarrow> 'e session \<Rightarrow> ParallelMineResult \<Rightarrow> LongpollWatcher \<Rightarrow> LongpollWatcher \<Rightarrow>
    ('e mining, verdict) act" where
  "judge W ses result seen final = (case pr_status result of
      Scanner.CANCELLED \<Rightarrow>
        abind (shutdown_requested ses) (\<lambda>stop.
        if stop then
          abind (say W ''Shutdown requested; stopping mining workers'') (\<lambda>_. aok (Next_candidate True))
        else
          abind (report_refresh W ''Longpoll reported a new chain tip; discarding stale work'' final) (\<lambda>_.
          aok (Next_candidate True)))
    | EXHAUSTED \<Rightarrow>
        if lw_refresh_requested seen then
          abind (report_refresh W ''Longpoll reported a new chain tip; refreshing template'' final) (\<lambda>_.
          aok (Next_candidate True))
        else
          abind (say W (''Nonce range exhausted after '' @ number (pr_hashes_checked result) @
            '' hashes; advancing extranonce'')) (\<lambda>_.
          aok (Next_candidate False))
    | FOUND \<Rightarrow>
        abind (shutdown_requested ses) (\<lambda>stop.
        if stop then
          abind (say W ''Shutdown requested before submission; discarding solved candidate'') (\<lambda>_.
          aok (Next_candidate True))
        else if \<not> lw_refresh_requested final then aok Submit
        else if lw_status final = RPC_ERROR then
          abind (warn W (''Longpoll failed: '' @ lw_error final @ ''; submitting solved candidate anyway'')) (\<lambda>_.
          aok Submit)
        else if lw_hard_cancel final then
          abind (bump (\<lambda>stats. stats\<lparr>stale_work := stale_work stats + 1\<rparr>)) (\<lambda>_.
          abind (say W ''Chain tip changed while solution was being found; discarding solved candidate'') (\<lambda>_.
          aok (Next_candidate True)))
        else
          abind (say W ''Template changed on the same tip while solution was being found; submitting solved candidate'') (\<lambda>_.
          aok Submit)))"

definition accepted_report :: "u64 \<Rightarrow> ParallelMineResult \<Rightarrow> u64 \<Rightarrow> UInt256 \<Rightarrow> MiningRuntimeStats \<Rightarrow> u64 \<Rightarrow> string" where
  "accepted_report height result extranonce expected_block_hash stats accepted =
    ''Block accepted'' @ newline @
    ''  height: '' @ number height @ newline @
    ''  nonce: '' @ to_string (unat (pr_nonce result)) @ newline @
    ''  extranonce: '' @ number extranonce @ newline @
    ''  MercaHash: '' @ ToHexBE (pr_hash result) @ newline @
    ''  block hash: '' @ ToHexBE expected_block_hash @ newline @
    ''  active workers: '' @ to_string (pr_active_workers result) @ newline @
    ''  aggregate block hashes checked: '' @ number (pr_hashes_checked result) @ newline @
    ''  session hashes checked: '' @ number (completed_hashes stats) @ newline @
    ''  accepted this session: '' @ number accepted"

definition settle :: "'e world_api \<Rightarrow> u64 \<Rightarrow> ParallelMineResult \<Rightarrow> u64 \<Rightarrow> UInt256 \<Rightarrow> ResolvedSubmitOutcome \<Rightarrow> string \<Rightarrow>
    ('e mining, unit) act" where
  "settle W height result extranonce expected_block_hash outcome rejection = (case outcome of
      CANCELLED_SUBMIT \<Rightarrow> say W ''Shutdown requested during submission''
    | REJECTED_BY_NODE \<Rightarrow>
        abind (bump (\<lambda>stats. stats\<lparr>rejected_blocks := rejected_blocks stats + 1\<rparr>)) (\<lambda>_.
        say W (''submitblock rejected candidate: '' @ rejection @ ''; refreshing template''))
    | NOT_CURRENT_TIP \<Rightarrow>
        abind (bump (\<lambda>stats. stats\<lparr>stale_work := stale_work stats + 1\<rparr>)) (\<lambda>_.
        say W ''Submitted candidate is not the current best tip; refreshing template'')
    | ACCEPTED \<Rightarrow>
        abind (bump (\<lambda>stats. stats\<lparr>accepted_blocks := accepted_blocks stats + 1\<rparr>)) (\<lambda>_.
        (\<lambda>(stats, q). say W (accepted_report height result extranonce expected_block_hash stats (accepted_blocks stats)) (stats, q))))"

text \<open>After the inner loop.\<close>

definition check_extranonce_space :: "'e session \<Rightarrow> MiningJob \<Rightarrow> bool \<Rightarrow> ('e mining, unit) act" where
  "check_extranonce_space ses job refresh =
    (if \<not> HasMoreCandidates job \<and> \<not> refresh then
       abind (shutdown_requested ses) (\<lambda>stop.
       athrow_if (\<not> stop) (RuntimeError ''64-bit extranonce space exhausted''))
     else aok ())"

section \<open>The steps\<close>

datatype event =
    Took_work CurrentWork
  | Mined CurrentWork MiningCandidate ParallelMineResult BlockCandidate
  | Submitted CurrentWork MiningCandidate ParallelMineResult BlockCandidate LongpollWatcher UInt256 ResolvedSubmitOutcome

text \<open>
  One call of \<open>Mine\<close> in the loop. The scratchpads hold what earlier calls left; the flags of the watcher
  are those of some state of its history, and other threads may store to the flags at any time.
\<close>

inductive mines :: "'e session \<Rightarrow> CurrentWork \<Rightarrow> LongpollWatcher list \<Rightarrow> MiningCandidate \<Rightarrow> u64 \<Rightarrow>
    (ParallelMineResult \<times> BlockCandidate) res \<Rightarrow> u64 \<Rightarrow> bool" where
  "miner_ok pads \<Longrightarrow> length pads = se_workers ses \<Longrightarrow> v1 \<in> set h \<Longrightarrow> v2 \<in> set h \<Longrightarrow>
    Mine_counting pads (mc_candidate mc) (bt_target (cw_block_template work)) (bt_nonce_min (cw_block_template work))
      (bt_nonce_max (cw_block_template work)) (Some (lw_hard_cancel v1)) (Some stop) live
      (Some (lw_refresh_requested v2)) out live' \<Longrightarrow>
    mines ses work h mc live out live'"

definition mining_message :: "u64 \<Rightarrow> u64 \<Rightarrow> string" where
  "mining_message height extranonce = ''Mining height '' @ number height @ '' extranonce '' @ number extranonce"

inductive loop_step :: "'e world_api \<Rightarrow> 'j json_api \<Rightarrow> 'e session \<Rightarrow> control \<times> 'e mining \<Rightarrow> event list \<Rightarrow>
    control \<times> 'e mining \<Rightarrow> bool"
  for W J ses where
  environment:
    "loop_step W J ses (c, stats, credentials, rpc, p) [] (c, stats, credentials, rpc, p\<lparr>outside := e\<rparr>)"
| stop:
    "outer_condition ses st = (Inr False, st') \<Longrightarrow>
    loop_step W J ses (Outer, st) [] (Left_loop, st')"
| fetch_failed:
    "outer_condition ses st = (Inr True, st1) \<Longrightarrow> prepare W J ses st1 = (Inl e, st2) \<Longrightarrow>
    recover W ses e st2 = (r, st3) \<Longrightarrow>
    loop_step W J ses (Outer, st) [] (caught r, st3)"
| template_changed:
    "outer_condition ses st = (Inr True, st1) \<Longrightarrow> prepare W J ses st1 = (Inr None, st2) \<Longrightarrow>
    loop_step W J ses (Outer, st) [] (Outer, st2)"
| fetched:
    "outer_condition ses st = (Inr True, st1) \<Longrightarrow> prepare W J ses st1 = (Inr (Some (work, job, watcher)), st2) \<Longrightarrow>
    Run (w_curl W) J cancel ([watcher], p0) = (Inr (), h, p1) \<Longrightarrow>
    loop_step W J ses (Outer, st) [Took_work work] (Inner work job h False, st2)"
| inner_left:
    "inner_condition ses job refresh st = (Inr False, st1) \<Longrightarrow>
    check_extranonce_space ses job refresh st1 = (Inr (), st2) \<Longrightarrow>
    loop_step W J ses (Inner work job h refresh, st) [] (Outer, st2)"
| overrun:
    "inner_condition ses job refresh st = (Inr False, st1) \<Longrightarrow>
    check_extranonce_space ses job refresh st1 = (Inl e, st2) \<Longrightarrow> recover W ses e st2 = (r, st3) \<Longrightarrow>
    loop_step W J ses (Inner work job h refresh, st) [] (caught r, st3)"
| no_candidate:
    "inner_condition ses job refresh st = (Inr True, st1) \<Longrightarrow> NextCandidate job = Inl e \<Longrightarrow>
    recover W ses e st1 = (r, st2) \<Longrightarrow>
    loop_step W J ses (Inner work job h refresh, st) [] (caught r, st2)"
| mine_failed:
    "inner_condition ses job refresh st = (Inr True, st1) \<Longrightarrow> NextCandidate job = Inr (mc, job') \<Longrightarrow>
    say W (mining_message (bt_height (cw_block_template work)) (mc_extranonce mc)) st1 = (Inr (), stats, q) \<Longrightarrow>
    mines ses work h mc (completed_hashes stats) (Inl e) live \<Longrightarrow>
    recover W ses e (stats\<lparr>completed_hashes := live\<rparr>, q) = (r, st2) \<Longrightarrow>
    loop_step W J ses (Inner work job h refresh, st) [] (caught r, st2)"
| mined:
    "inner_condition ses job refresh st = (Inr True, st1) \<Longrightarrow> NextCandidate job = Inr (mc, job') \<Longrightarrow>
    say W (mining_message (bt_height (cw_block_template work)) (mc_extranonce mc)) st1 = (Inr (), stats, q) \<Longrightarrow>
    mines ses work h mc (completed_hashes stats) (Inr (result, candidate)) live \<Longrightarrow> seen \<in> set h \<Longrightarrow>
    judge W ses result seen (hd h) (stats\<lparr>completed_hashes := live\<rparr>, q) = (Inr (Next_candidate refresh'), st2) \<Longrightarrow>
    loop_step W J ses (Inner work job h refresh, st) [Mined work mc result candidate] (Inner work job' h refresh', st2)"
| submitted:
    "inner_condition ses job refresh st = (Inr True, st1) \<Longrightarrow> NextCandidate job = Inr (mc, job') \<Longrightarrow>
    say W (mining_message (bt_height (cw_block_template work)) (mc_extranonce mc)) st1 = (Inr (), stats, q) \<Longrightarrow>
    mines ses work h mc (completed_hashes stats) (Inr (result, candidate)) live \<Longrightarrow> seen \<in> set h \<Longrightarrow>
    judge W ses result seen (hd h) (stats\<lparr>completed_hashes := live\<rparr>, q) = (Inr Submit, stats2, q2) \<Longrightarrow>
    expected_block_hash = DoubleSha256 (Serialize (bc_header candidate)) \<Longrightarrow>
    SubmitCandidateReliably W J (se_connection ses) candidate (bt_height (cw_block_template work))
      expected_block_hash (Some (se_shutdown ses)) q2 = Some (Inr (outcome, rejection), q3) \<Longrightarrow>
    settle W (bt_height (cw_block_template work)) result (mc_extranonce mc) expected_block_hash outcome rejection
      (stats2, q3) = (Inr (), st4) \<Longrightarrow>
    loop_step W J ses (Inner work job h refresh, st)
      [Mined work mc result candidate, Submitted work mc result candidate (hd h) expected_block_hash outcome]
      (Inner work job' h True, st4)"
| submit_failed:
    "inner_condition ses job refresh st = (Inr True, st1) \<Longrightarrow> NextCandidate job = Inr (mc, job') \<Longrightarrow>
    say W (mining_message (bt_height (cw_block_template work)) (mc_extranonce mc)) st1 = (Inr (), stats, q) \<Longrightarrow>
    mines ses work h mc (completed_hashes stats) (Inr (result, candidate)) live \<Longrightarrow> seen \<in> set h \<Longrightarrow>
    judge W ses result seen (hd h) (stats\<lparr>completed_hashes := live\<rparr>, q) = (Inr Submit, stats2, q2) \<Longrightarrow>
    SubmitCandidateReliably W J (se_connection ses) candidate (bt_height (cw_block_template work))
      (DoubleSha256 (Serialize (bc_header candidate))) (Some (se_shutdown ses)) q2 = Some (Inl e, q3) \<Longrightarrow>
    recover W ses e (stats2, q3) = (r, st4) \<Longrightarrow>
    loop_step W J ses (Inner work job h refresh, st) [Mined work mc result candidate] (caught r, st4)"

inductive loop_run :: "'e world_api \<Rightarrow> 'j json_api \<Rightarrow> 'e session \<Rightarrow> control \<times> 'e mining \<Rightarrow> event list \<Rightarrow>
    control \<times> 'e mining \<Rightarrow> bool"
  for W J ses where
  start: "loop_run W J ses st [] st"
| step: "loop_run W J ses st events st1 \<Longrightarrow> loop_step W J ses st1 events' st2 \<Longrightarrow>
    loop_run W J ses st (events @ events') st2"

inductive_cases loop_stepE: "loop_step W J ses st events st'"
inductive_cases minesE: "mines ses work h mc live out live'"

section \<open>What the loop knows\<close>

definition good_work :: "'j json_api \<Rightarrow> 'e session \<Rightarrow> CurrentWork \<Rightarrow> bool" where
  "good_work J ses work \<longleftrightarrow>
    (\<exists>v. ParseBlockTemplate J v = Inr (cw_block_template work)) \<and> TemplateMatchesTip work \<and>
    ValidateProofOfWorkTarget (se_network ses) (bt_target (cw_block_template work)) = Inr () \<and>
    bt_nonce_min (cw_block_template work) \<le> bt_nonce_max (cw_block_template work)"

text \<open>A history of a watcher that was started for the template, and a template that the node offers to it.\<close>

definition watches :: "'e world_api \<Rightarrow> 'j json_api \<Rightarrow> CurrentWork \<Rightarrow> LongpollWatcher list \<Rightarrow> bool" where
  "watches W J work h \<longleftrightarrow> (\<exists>w cancel p0 p1. fresh w \<and>
    lw_expected_previous_block_hash w = bt_previous_block_hash (cw_block_template work) \<and>
    lw_longpoll_id w = bt_longpoll_id (cw_block_template work) \<and>
    Run (w_curl W) J cancel ([w], p0) = (Inr (), h, p1))"

definition offered :: "'e world_api \<Rightarrow> 'j json_api \<Rightarrow> CurrentWork \<Rightarrow> BlockTemplate \<Rightarrow> bool" where
  "offered W J work t \<longleftrightarrow> (\<exists>w cancel p. lw_longpoll_id w = bt_longpoll_id (cw_block_template work) \<and>
    fst (fetch_template (w_curl W) J cancel w p) = Inr t)"

fun place_ok :: "'e world_api \<Rightarrow> 'j json_api \<Rightarrow> 'e session \<Rightarrow> control \<Rightarrow> bool" where
  "place_ok W J ses (Inner work job h refresh) \<longleftrightarrow> good_work J ses work \<and> watches W J work h \<and>
    m_block_template job = cw_block_template work \<and> m_payout_script job = se_payout_script ses"
| "place_ok W J ses (Threw e) \<longleftrightarrow> \<not> is_RpcException e"
| "place_ok W J ses c \<longleftrightarrow> True"

text \<open>A solved candidate of the template.\<close>

definition solved_block :: "'e session \<Rightarrow> CurrentWork \<Rightarrow> MiningCandidate \<Rightarrow> ParallelMineResult \<Rightarrow> BlockCandidate \<Rightarrow> bool" where
  "solved_block ses work mc result candidate \<longleftrightarrow>
    (let t = cw_block_template work; n = pr_nonce result in
     BuildBlockCandidate t (se_payout_script ses) (EncodeExtranonce64 (mc_extranonce mc)) = Inr (mc_candidate mc) \<and>
     candidate = ApplySolvedNonce (mc_candidate mc) n \<and> bt_nonce_min t \<le> n \<and> n \<le> bt_nonce_max t \<and>
     value_of (UInt256 (mercahash_spec (take 80 (bc_serialized_block candidate)) V1_PARAMS)) \<le> value_of (bt_target t))"

fun event_ok :: "'e world_api \<Rightarrow> 'j json_api \<Rightarrow> 'e session \<Rightarrow> event \<Rightarrow> bool" where
  "event_ok W J ses (Took_work work) \<longleftrightarrow> good_work J ses work"
| "event_ok W J ses (Mined work mc result candidate) \<longleftrightarrow>
    good_work J ses work \<and>
    BuildBlockCandidate (cw_block_template work) (se_payout_script ses) (EncodeExtranonce64 (mc_extranonce mc)) =
      Inr (mc_candidate mc) \<and>
    mine_outcome (mc_candidate mc) (bt_target (cw_block_template work)) (unat (bt_nonce_min (cw_block_template work)))
      (unat (bt_nonce_max (cw_block_template work))) result candidate"
| "event_ok W J ses (Submitted work mc result candidate final hash outcome) \<longleftrightarrow>
    good_work J ses work \<and> solved_block ses work mc result candidate \<and>
    hash = DoubleSha256 (take 80 (bc_serialized_block candidate)) \<and>
    (lw_status final = TEMPLATE_CHANGED \<longrightarrow> (\<exists>new. offered W J work new \<and>
      bt_previous_block_hash new = bt_previous_block_hash (cw_block_template work) \<and> bt_submit_old new \<noteq> Some False)) \<and>
    (\<exists>why. submit_report (w_curl W) J (Some (se_shutdown ses)) candidate (bt_height (cw_block_template work)) hash
      (Inr (outcome, why)))"

subsection \<open>The actions\<close>

lemma on_rest_world_Inl [simp]: "on_rest (on_world f) st \<noteq> (Inl e, st')"
  by (cases st; cases st') (simp add: on_rest_eq)

lemma say_Inl [simp]: "say W m st \<noteq> (Inl e, st')" "warn W m st \<noteq> (Inl e, st')"
  by (simp_all add: say_def warn_def)

lemma bump_eq: "bump f (stats, q) = (r, stats', q') \<longleftrightarrow> r = Inr () \<and> stats' = f stats \<and> q' = q"
  by (auto simp: bump_def)

lemma bump_Inl [simp]: "bump f st \<noteq> (Inl e, st')"
  by (cases st) (simp add: bump_def)

lemma shutdown_Inl [simp]: "shutdown_requested ses st \<noteq> (Inl e, st')"
  by (simp add: shutdown_requested_def)

lemma shutdown_seen: "shutdown_requested ses st = (Inr True, st') \<Longrightarrow> seen_set (Some (se_shutdown ses))"
  by (cases st; cases st') (auto simp: shutdown_requested_def on_rest_eq dest: on_world_poll)

lemma on_rest_TryReload_Inl [simp]: "on_rest (TryReloadRpcCookie W connection) st \<noteq> (Inl e, st')"
  by (cases st; cases st') (simp add: on_rest_eq TryReload_no_throw)

lemma recover_ok:
  assumes "recover W ses e st = (r, st')"
  shows "place_ok W J ses (caught r)"
proof -
  have c: "is_RpcCancelled e \<Longrightarrow> \<not> is_RpcException e" by (auto simp: is_RpcCancelled_def)
  show ?thesis
  proof (cases r)
    case (Inl e')
    with assms show ?thesis by (auto simp: recover_def act_simps split: if_splits)
  next
    case (Inr c')
    with assms c have "c' = Outer \<or> c' = Left_loop \<or> c' = Threw e \<and> \<not> is_RpcException e"
      by (auto simp: recover_def act_simps split: if_splits)
    with Inr show ?thesis by (auto simp: caught_def)
  qed
qed

lemma on_rest_run: "on_rest m st = (r, st') \<Longrightarrow> \<exists>t t'. m t = (r, t')"
  by (cases st; cases st') (auto simp: on_rest_eq)

lemma FetchCurrentWork_good:
  assumes "FetchCurrentWork C J (se_network ses) fl st = (Inr work, st')" "TemplateMatchesTip work"
  shows "good_work J ses work"
proof -
  obtain w where w: "ParseBlockTemplate J w = Inr (cw_block_template work)"
    "ValidateProofOfWorkTarget (se_network ses) (bt_target (cw_block_template work)) = Inr ()"
    using FetchCurrentWork_Inr [OF assms(1)] by blast
  have "bt_nonce_min (cw_block_template work) \<le> bt_nonce_max (cw_block_template work)"
    by (rule ParseBlockTemplate_nonces [OF w(1)])
  with w assms(2) show ?thesis unfolding good_work_def by blast
qed

lemma prepare_Some:
  assumes "prepare W J ses st = (Inr (Some (work, job, w)), st')"
  shows "good_work J ses work \<and> fresh w \<and>
    lw_expected_previous_block_hash w = bt_previous_block_hash (cw_block_template work) \<and>
    lw_longpoll_id w = bt_longpoll_id (cw_block_template work) \<and>
    MiningJob_new (cw_block_template work) (se_payout_script ses) (bt_height (cw_block_template work)) = Inr job"
proof -
  obtain st1 credentials where
    f: "on_rest (on_client (FetchCurrentWork (w_curl W) J (se_network ses) (Some (se_shutdown ses)))) st = (Inr work, st1)"
    and m: "TemplateMatchesTip work"
      "MiningJob_new (cw_block_template work) (se_payout_script ses) (bt_height (cw_block_template work)) = Inr job"
      "LongpollWatcher_new (rpc_url (se_connection ses)) credentials (bt_longpoll_id (cw_block_template work))
        (bt_previous_block_hash (cw_block_template work)) = Inr w"
    using assms unfolding prepare_def Let_def
    by (auto simp: abind_Inr split: if_splits)
  obtain t t' where "FetchCurrentWork (w_curl W) J (se_network ses) (Some (se_shutdown ses)) t = (Inr work, t')"
    using on_rest_run [OF f] on_client_run by blast
  from FetchCurrentWork_good [OF this m(1)] LongpollWatcher_new_fresh [OF m(3)] m(2) show ?thesis by blast
qed

lemma job_of_new:
  "MiningJob_new t payout n = Inr job \<Longrightarrow>
    m_block_template job = t \<and> m_payout_script job = payout \<and> m_next_extranonce job = n \<and> \<not> m_extranonce_exhausted job"
  by (auto simp: MiningJob_new_def rbind_Inr_iff)

lemma mines_outcome:
  assumes "mines ses work h mc live out live'" "good_work J ses work"
    and "BuildBlockCandidate t payout extranonce = Inr (mc_candidate mc)"
  shows "\<exists>result candidate. out = Inr (result, candidate) \<and> live' = live + pr_hashes_checked result \<and>
    mine_outcome (mc_candidate mc) (bt_target (cw_block_template work)) (unat (bt_nonce_min (cw_block_template work)))
      (unat (bt_nonce_max (cw_block_template work))) result candidate"
proof -
  obtain pads stop and v1 v2 :: LongpollWatcher where pads: "miner_ok pads" and m: "Mine_counting pads (mc_candidate mc) (bt_target (cw_block_template work))
      (bt_nonce_min (cw_block_template work)) (bt_nonce_max (cw_block_template work)) (Some (lw_hard_cancel v1)) (Some stop) live
      (Some (lw_refresh_requested v2)) out live'"
    using assms(1) by (blast elim: minesE)
  have le: "bt_nonce_min (cw_block_template work) \<le> bt_nonce_max (cw_block_template work)"
    using assms(2) by (simp add: good_work_def)
  obtain result candidate where out: "out = Inr (result, candidate)" and o: "mine_outcome (mc_candidate mc) (bt_target (cw_block_template work))
      (unat (bt_nonce_min (cw_block_template work))) (unat (bt_nonce_max (cw_block_template work))) result candidate"
    using Mine_outcomes [OF pads BuildBlockCandidate_ok [OF assms(3)] le Mine_counting_Mine [OF m]] by blast
  with Mine_counting_live [OF pads le] m show ?thesis by blast
qed

lemma judge_Submit:
  assumes "judge W ses result seen final st = (Inr Submit, st')"
  shows "pr_status result = FOUND \<and> (lw_refresh_requested final \<longrightarrow> lw_status final = RPC_ERROR \<or> \<not> lw_hard_cancel final)"
  using assms unfolding judge_def
  by (auto simp: abind_Inr split: ScanStatus.splits if_splits)

lemma Submit_still_valid:
  assumes "watches W J work h" "lw_status (hd h) = TEMPLATE_CHANGED"
    and "lw_refresh_requested (hd h) \<longrightarrow> lw_status (hd h) = RPC_ERROR \<or> \<not> lw_hard_cancel (hd h)"
  shows "\<exists>new. offered W J work new \<and>
    bt_previous_block_hash new = bt_previous_block_hash (cw_block_template work) \<and> bt_submit_old new \<noteq> Some False"
proof -
  obtain w cancel p0 p1 where w: "fresh w" "lw_longpoll_id w = bt_longpoll_id (cw_block_template work)"
    "lw_expected_previous_block_hash w = bt_previous_block_hash (cw_block_template work)"
    "Run (w_curl W) J cancel ([w], p0) = (Inr (), h, p1)"
    using assms(1) unfolding watches_def by blast
  from Run_history [OF w(4,1)] assms(2) obtain t where
    "fst (fetch_template (w_curl W) J cancel w p0) = Inr t" "lw_refresh_requested (hd h)" "lw_hard_cancel (hd h) = invalidates w t"
    unfolding final_state_def by auto
  with assms(2,3) w show ?thesis unfolding offered_def invalidates_def by auto
qed

lemma solved_outcome:
  assumes "mine_outcome c target b e result candidate" "pr_status result = FOUND" "candidate_ok c"
  shows "candidate = ApplySolvedNonce c (pr_nonce result) \<and> b \<le> unat (pr_nonce result) \<and> unat (pr_nonce result) \<le> e \<and>
    value_of (UInt256 (mercahash_spec (take 80 (bc_serialized_block candidate)) V1_PARAMS)) \<le> value_of target"
  using assms nonce_hash_block [OF assms(3), of "pr_nonce result"] by (auto simp: mine_outcome_def solves_def Let_def)

lemma candidate_mined:
  assumes "place_ok W J ses (Inner work job h refresh)" "NextCandidate job = Inr (mc, job')"
    and "mines ses work h mc live out live'"
  shows "\<exists>result candidate. out = Inr (result, candidate) \<and> event_ok W J ses (Mined work mc result candidate) \<and>
    live' = live + pr_hashes_checked result \<and> place_ok W J ses (Inner work job' h refresh')"
proof -
  have place: "good_work J ses work" "watches W J work h" "m_block_template job = cw_block_template work"
    "m_payout_script job = se_payout_script ses" using assms(1) by simp_all
  note n = NextCandidate_Inr [OF assms(2), unfolded place]
  from mines_outcome [OF assms(3) place(1) n(3)] n place show ?thesis
    by (auto simp: EncodeExtranonce64_eq)
qed

lemma submission_ok:
  assumes "event_ok W J ses (Mined work mc result candidate)" "watches W J work h"
    and "judge W ses result seen (hd h) st = (Inr Submit, st2)"
    and "SubmitCandidateReliably W J connection candidate (bt_height (cw_block_template work))
      (DoubleSha256 (Serialize (bc_header candidate))) (Some (se_shutdown ses)) q = Some (Inr (outcome, why), q')"
  shows "event_ok W J ses (Submitted work mc result candidate (hd h) (DoubleSha256 (Serialize (bc_header candidate))) outcome)"
proof -
  let ?t = "cw_block_template work"
  note j = judge_Submit [OF assms(3)]
  have m: "good_work J ses work"
    "BuildBlockCandidate ?t (se_payout_script ses) (EncodeExtranonce64 (mc_extranonce mc)) = Inr (mc_candidate mc)"
    "mine_outcome (mc_candidate mc) (bt_target ?t) (unat (bt_nonce_min ?t)) (unat (bt_nonce_max ?t)) result candidate"
    using assms(1) by simp_all
  have c: "candidate_ok (mc_candidate mc)" by (rule BuildBlockCandidate_ok [OF m(2)])
  note s = solved_outcome [OF m(3) conjunct1 [OF j] c]
  then have "take 80 (bc_serialized_block candidate) = Serialize (bc_header candidate)"
    using ApplySolvedNonce_block(4) [OF c] by (simp add: candidate_ok_def)
  moreover have "solved_block ses work mc result candidate"
    using s m(2) unfolding solved_block_def Let_def word_le_nat_alt by blast
  moreover note SubmitCandidateReliably_report [OF assms(4)] m(1) Submit_still_valid [OF assms(2) _ conjunct2 [OF j]]
  ultimately show ?thesis by auto
qed

lemma step_ok:
  assumes "loop_step W J ses (c, st) events (c', st')" "place_ok W J ses c"
  shows "place_ok W J ses c' \<and> list_all (event_ok W J ses) events"
  using assms(1)
proof cases
  case (fetched st1 work job watcher cancel p0 h p1)
  note p = prepare_Some [OF fetched(5)]
  then have "watches W J work h" unfolding watches_def using fetched(6) by blast
  with p fetched job_of_new [of "cw_block_template work"] show ?thesis by auto
next
  case (mined job refresh st1 mc job' work stats q h result candidate live seen refresh')
  with candidate_mined [OF assms(2) [unfolded mined(1)] mined(5,7), of refresh'] show ?thesis by auto
next
  case (submitted job refresh st1 mc job' work stats q h result candidate live seen stats2 q2 hash outcome rejection q3)
  have "watches W J work h" using assms(2) submitted(1) by simp
  moreover from candidate_mined [OF assms(2) [unfolded submitted(1)] submitted(5,7), of True]
  have "event_ok W J ses (Mined work mc result candidate)" "place_ok W J ses (Inner work job' h True)" by auto
  moreover note submission_ok [OF _ _ submitted(9)] submitted(11)
  ultimately show ?thesis unfolding submitted(2,3,10) by fastforce
next
  case (submit_failed job refresh st1 mc job' work stats q h result candidate live seen stats2 q2 e q3 r)
  from candidate_mined [OF assms(2) [unfolded submit_failed(1)] submit_failed(5,7), of True]
  have "event_ok W J ses (Mined work mc result candidate)" by auto
  moreover have "place_ok W J ses (caught r)" using submit_failed(11) by (rule recover_ok)
  ultimately show ?thesis unfolding submit_failed(2,3) by simp
qed (use assms(2) in \<open>auto dest: recover_ok\<close>)

subsection \<open>The counters\<close>

text \<open>Actions that leave the counters of hashes and of accepted and rejected blocks alone.\<close>

definition same_counts :: "MiningRuntimeStats \<Rightarrow> MiningRuntimeStats \<Rightarrow> bool" where
  "same_counts a b \<longleftrightarrow> completed_hashes a = completed_hashes b \<and> accepted_blocks a = accepted_blocks b \<and>
    rejected_blocks a = rejected_blocks b"

definition keeps_counts :: "('e mining, 'a) act \<Rightarrow> bool" where
  "keeps_counts m \<longleftrightarrow> (\<forall>st. same_counts (fst st) (fst (snd (m st))))"

lemma same_counts_refl [simp]: "same_counts a a"
  by (simp add: same_counts_def)

lemma same_counts_trans: "same_counts a b \<Longrightarrow> same_counts b c \<Longrightarrow> same_counts a c"
  by (simp add: same_counts_def)

lemma keeps_countsD: "keeps_counts m \<Longrightarrow> m st = (r, st') \<Longrightarrow> same_counts (fst st) (fst st')"
  unfolding keeps_counts_def by (metis snd_conv)

lemma keeps_counts_basic [simp]:
  "keeps_counts (aok x)" "keeps_counts (alift r)" "keeps_counts (athrow_if c e)" "keeps_counts (on_rest m)"
  "keeps_counts (\<lambda>(stats, q). (Inr (f stats q), stats, q))"
  by (auto simp: keeps_counts_def aok_def alift_def athrow_if_def athrow_def on_rest_def split: prod.splits)

lemma keeps_counts_abind:
  assumes "keeps_counts m" "\<And>x. keeps_counts (f x)"
  shows "keeps_counts (abind m f)"
proof (unfold keeps_counts_def, rule allI)
  fix st
  obtain r st1 where m: "m st = (r, st1)" by (metis surj_pair)
  have m1: "same_counts (fst st) (fst st1)" by (rule keeps_countsD [OF assms(1) m])
  show "same_counts (fst st) (fst (snd (abind m f st)))"
  proof (cases r)
    case (Inr b)
    then have "abind m f st = f b st1" using m by simp
    then show ?thesis using same_counts_trans [OF m1 assms(2) [of b, unfolded keeps_counts_def, rule_format, of st1]]
      by simp
  qed (use m m1 in simp)
qed

lemma keeps_counts_bump:
  "(\<And>a. same_counts a (f a)) \<Longrightarrow> keeps_counts (bump f)"
  by (simp add: keeps_counts_def bump_def split: prod.split)

lemma keeps_counts_more [simp]:
  "keeps_counts (say W m)" "keeps_counts (warn W m)" "keeps_counts (shutdown_requested ses)"
  "keeps_counts (bump (\<lambda>stats. stats\<lparr>stale_work := stale_work stats + 1\<rparr>))"
  "keeps_counts (bump (\<lambda>stats. stats\<lparr>current_height := h\<rparr>))"
  by (simp_all add: say_def warn_def shutdown_requested_def keeps_counts_bump same_counts_def)

lemma keeps_counts_outer: "keeps_counts (outer_condition ses)"
  unfolding outer_condition_def by (intro keeps_counts_abind) auto

lemma keeps_counts_inner: "keeps_counts (inner_condition ses job refresh)"
  unfolding inner_condition_def by (auto intro!: keeps_counts_abind)

lemma keeps_counts_check: "keeps_counts (check_extranonce_space ses job refresh)"
  unfolding check_extranonce_space_def by (auto intro!: keeps_counts_abind)

lemma keeps_counts_read: "keeps_counts (\<lambda>(stats, credentials, rest). (Inr credentials, stats, credentials, rest))"
  by (auto simp: keeps_counts_def)

lemma keeps_counts_prepare: "keeps_counts (prepare W J ses)"
  unfolding prepare_def Let_def by (auto intro!: keeps_counts_abind keeps_counts_read)

lemma keeps_counts_recover: "keeps_counts (recover W ses e)"
  unfolding recover_def by (auto intro!: keeps_counts_abind)

lemma keeps_counts_refresh: "keeps_counts (report_refresh W m final)"
  unfolding report_refresh_def by (auto intro!: keeps_counts_abind)

lemma keeps_counts_judge: "keeps_counts (judge W ses result seen final)"
  unfolding judge_def by (auto intro!: keeps_counts_abind keeps_counts_refresh split: ScanStatus.split)

lemmas keeps_counts_actions = keeps_counts_outer keeps_counts_inner keeps_counts_check keeps_counts_prepare
  keeps_counts_recover keeps_counts_judge

lemma settle_counts:
  assumes "settle W height result extranonce hash outcome why st = (r, st')"
  shows "completed_hashes (fst st') = completed_hashes (fst st) \<and>
    accepted_blocks (fst st') = accepted_blocks (fst st) + of_bool (outcome = ACCEPTED) \<and>
    rejected_blocks (fst st') = rejected_blocks (fst st) + of_bool (outcome = REJECTED_BY_NODE)"
proof -
  obtain s0 q where st: "st = (s0, q)" by (metis surj_pair)
  have said: "same_counts s1 (fst st')" if "say W m (s1, q1) = (r, st')" for m s1 q1
    using keeps_countsD [OF keeps_counts_more(1) that] by simp
  show ?thesis using assms unfolding settle_def st
    by (cases outcome) (auto simp: abind_def bump_def same_counts_def dest!: said)
qed

definition outcome_count :: "ResolvedSubmitOutcome \<Rightarrow> event list \<Rightarrow> nat" where
  "outcome_count outcome events =
    length (filter (\<lambda>e. case e of Submitted _ _ _ _ _ _ out \<Rightarrow> out = outcome | _ \<Rightarrow> False) events)"

definition hashes_mined :: "event list \<Rightarrow> u64" where
  "hashes_mined events = sum_list (map (\<lambda>e. case e of Mined _ _ result _ \<Rightarrow> pr_hashes_checked result | _ \<Rightarrow> 0) events)"

lemma count_simps [simp]:
  "outcome_count out [] = 0" "outcome_count out (xs @ ys) = outcome_count out xs + outcome_count out ys"
  "hashes_mined [] = 0" "hashes_mined (xs @ ys) = hashes_mined xs + hashes_mined ys"
  "outcome_count out (Took_work w # xs) = outcome_count out xs" "hashes_mined (Took_work w # xs) = hashes_mined xs"
  "outcome_count out (Mined w mc r c # xs) = outcome_count out xs"
  "hashes_mined (Mined w mc r c # xs) = pr_hashes_checked r + hashes_mined xs"
  "outcome_count out (Submitted w mc r c f h o' # xs) = of_bool (o' = out) + outcome_count out xs"
  "hashes_mined (Submitted w mc r c f h o' # xs) = hashes_mined xs"
  by (simp_all add: outcome_count_def hashes_mined_def)

definition counted_by :: "event list \<Rightarrow> MiningRuntimeStats \<Rightarrow> MiningRuntimeStats \<Rightarrow> bool" where
  "counted_by events a b \<longleftrightarrow>
    completed_hashes b = completed_hashes a + hashes_mined events \<and>
    accepted_blocks b = accepted_blocks a + of_nat (outcome_count ACCEPTED events) \<and>
    rejected_blocks b = rejected_blocks a + of_nat (outcome_count REJECTED_BY_NODE events)"

lemma counted_by_same: "same_counts a b \<Longrightarrow> counted_by [] a b"
  by (simp add: counted_by_def same_counts_def)

lemma say_counts: "say W m st = (r, st') \<Longrightarrow> same_counts (fst st) (fst st')"
  by (rule keeps_countsD [OF keeps_counts_more(1)])

lemmas action_counts = keeps_counts_actions [THEN keeps_countsD] say_counts

lemma counted_by_trans:
  "counted_by es a b \<Longrightarrow> counted_by fs b c \<Longrightarrow> counted_by (es @ fs) a c"
  by (simp add: counted_by_def)

text \<open>From the head of the inner loop to the verdict on a mined candidate.\<close>

lemma mined_counts:
  assumes "inner_condition ses job refresh st = (Inr True, st1)"
    and "say W m st1 = (Inr (), stats, q)" "live = completed_hashes stats + pr_hashes_checked result"
    and "judge W ses result seen final (stats\<lparr>completed_hashes := live\<rparr>, q) = (v, st2)"
  shows "counted_by [Mined work mc result candidate] (fst st) (fst st2)"
  using action_counts(2) [OF assms(1)] say_counts [OF assms(2)] action_counts(6) [OF assms(4)] assms(3)
  by (simp add: counted_by_def same_counts_def)

lemma step_counts:
  assumes "loop_step W J ses (c, st) events (c', st')" "place_ok W J ses c"
  shows "counted_by events (fst st) (fst st')"
  using assms(1)
proof cases
  case (mined job refresh st1 mc job' work stats q h result candidate live seen refresh')
  with candidate_mined [OF assms(2) [unfolded mined(1)] mined(5,7), of refresh'] mined_counts [OF mined(4,6) _ mined(9)]
  show ?thesis unfolding mined(2) by auto
next
  case (submitted job refresh st1 mc job' work stats q h result candidate live seen stats2 q2 hash outcome rejection q3)
  from candidate_mined [OF assms(2) [unfolded submitted(1)] submitted(5,7), of True]
  have "live = completed_hashes stats + pr_hashes_checked result" by auto
  from mined_counts [OF submitted(4,6) this submitted(9)]
  have "counted_by [Mined work mc result candidate] (fst st) stats2" by simp
  moreover have "counted_by [Submitted work mc result candidate (hd h) hash outcome] stats2 (fst st')"
    using settle_counts [OF submitted(12)] by (simp add: counted_by_def)
  ultimately show ?thesis unfolding submitted(2) using counted_by_trans by fastforce
next
  case (submit_failed job refresh st1 mc job' work stats q h result candidate live seen stats2 q2 e q3 r)
  from candidate_mined [OF assms(2) [unfolded submit_failed(1)] submit_failed(5,7), of True]
  have "live = completed_hashes stats + pr_hashes_checked result" by auto
  from mined_counts [OF submit_failed(4,6) this submit_failed(9)]
  have "counted_by [Mined work mc result candidate] (fst st) stats2" by simp
  moreover have "counted_by [] stats2 (fst st')"
    using counted_by_same [OF action_counts(5) [OF submit_failed(11)]] by simp
  ultimately show ?thesis unfolding submit_failed(2) using counted_by_trans by fastforce
next
  case (fetched st1 work job watcher cancel p0 h p1)
  with same_counts_trans [OF action_counts(1) [OF fetched(4)] action_counts(4) [OF fetched(5)]]
  show ?thesis by (simp add: counted_by_def same_counts_def)
next
  case (mine_failed job refresh st1 mc job' work stats q h e live r)
  with candidate_mined [OF assms(2) [unfolded mine_failed(1)] mine_failed(5,7)] show ?thesis by blast
next
  case stop
  show ?thesis unfolding stop(2) by (rule counted_by_same [OF action_counts(1) [OF stop(4)]])
next
  case (fetch_failed st1 e st2 r)
  show ?thesis unfolding fetch_failed(2)
    by (rule counted_by_same [OF same_counts_trans [OF same_counts_trans [OF action_counts(1) [OF fetch_failed(4)]
      action_counts(4) [OF fetch_failed(5)]] action_counts(5) [OF fetch_failed(6)]]])
next
  case (template_changed st1)
  show ?thesis unfolding template_changed(2)
    by (rule counted_by_same [OF same_counts_trans [OF action_counts(1) [OF template_changed(4)]
      action_counts(4) [OF template_changed(5)]]])
next
  case (inner_left job refresh st1 work h)
  show ?thesis unfolding inner_left(2)
    by (rule counted_by_same [OF same_counts_trans [OF action_counts(2) [OF inner_left(4)]
      action_counts(3) [OF inner_left(5)]]])
next
  case (overrun job refresh st1 e st2 r work h)
  show ?thesis unfolding overrun(2)
    by (rule counted_by_same [OF same_counts_trans [OF same_counts_trans [OF action_counts(2) [OF overrun(4)]
      action_counts(3) [OF overrun(5)]] action_counts(5) [OF overrun(6)]]])
next
  case (no_candidate job refresh st1 e r work h)
  show ?thesis unfolding no_candidate(2)
    by (rule counted_by_same [OF same_counts_trans [OF action_counts(2) [OF no_candidate(4)]
      action_counts(5) [OF no_candidate(6)]]])
qed (simp add: counted_by_same)

subsection \<open>The block limit\<close>

definition limit_ok :: "'e session \<Rightarrow> control \<Rightarrow> u64 \<Rightarrow> bool" where
  "limit_ok ses c accepted \<longleftrightarrow>
    (se_block_limit ses \<noteq> 0 \<longrightarrow> accepted \<le> se_block_limit ses) \<and>
    (case c of
       Inner _ _ _ refresh \<Rightarrow> refresh \<or> se_block_limit ses = 0 \<or> accepted < se_block_limit ses
     | Left_loop \<Rightarrow> seen_set (Some (se_shutdown ses)) \<or> se_block_limit ses \<noteq> 0 \<and> accepted = se_block_limit ses
     | _ \<Rightarrow> True)"

lemma outer_condition_Inr:
  assumes "outer_condition ses st = (Inr b, st')"
  shows "if b then se_block_limit ses = 0 \<or> accepted_blocks (fst st') < se_block_limit ses
    else seen_set (Some (se_shutdown ses)) \<or>
      se_block_limit ses \<noteq> 0 \<and> \<not> accepted_blocks (fst st') < se_block_limit ses"
proof -
  obtain stop st1 where s: "shutdown_requested ses st = (Inr stop, st1)"
    "(if stop then aok False
      else (\<lambda>(stats, q). (Inr (se_block_limit ses = 0 \<or> accepted_blocks stats < se_block_limit ses), stats, q))) st1 = (Inr b, st')"
    using assms unfolding outer_condition_def abind_Inr by blast
  show ?thesis
  proof (cases stop)
    case True
    with s show ?thesis by (auto dest: shutdown_seen)
  next
    case False
    with s(2) show ?thesis by (cases st1) auto
  qed
qed

lemma inner_condition_True: "inner_condition ses job refresh st = (Inr True, st') \<Longrightarrow> \<not> refresh"
  by (auto simp: inner_condition_def split: if_splits)

lemma sleep_seen:
  "on_rest (on_world (InterruptibleSleep W d (Some fl))) st = (Inr False, st') \<Longrightarrow> seen_set (Some fl)"
  using on_rest_run on_world_sleep by blast

lemma recover_places:
  assumes "recover W ses e st = (r, st')"
  shows "caught r = Outer \<or> caught r = Left_loop \<and> seen_set (Some (se_shutdown ses)) \<or> (\<exists>e'. caught r = Threw e')"
proof (cases r)
  case (Inl e')
  then show ?thesis by (simp add: caught_def)
next
  case (Inr c')
  with assms have "c' = Outer \<or> c' = Left_loop \<and> seen_set (Some (se_shutdown ses)) \<or> c' = Threw e"
    by (auto simp: recover_def abind_Inr dest: shutdown_seen sleep_seen split: if_splits)
  with Inr show ?thesis by (auto simp: caught_def)
qed

lemma recover_limit:
  "recover W ses e st = (r, st') \<Longrightarrow> (se_block_limit ses \<noteq> 0 \<longrightarrow> n \<le> se_block_limit ses) \<Longrightarrow> limit_ok ses (caught r) n"
  using recover_places [of W ses e st r st'] by (auto simp: limit_ok_def)

lemma word_step_limit:
  assumes "(a :: u64) < l"
  shows "a + of_bool b \<le> l \<and> unat (a + of_bool b) = unat a + of_bool b"
proof -
  have "a \<noteq> 0xffffffffffffffff"
  proof
    assume "a = 0xffffffffffffffff"
    with assms have "l > 0xffffffffffffffff" by simp
    then show False using unsigned_less [of l, where ?'a = nat] by (simp add: word_less_nat_alt)
  qed
  then have "unat (a + 1) = Suc (unat a)" by (rule unat_add_one)
  with assms show ?thesis by (cases b) (simp_all add: word_less_nat_alt word_le_nat_alt)
qed

lemma step_limit:
  assumes step: "loop_step W J ses (c, st) events (c', st')" and place: "place_ok W J ses c"
    and limit: "limit_ok ses c (accepted_blocks (fst st))"
  shows "limit_ok ses c' (accepted_blocks (fst st')) \<and>
    (se_block_limit ses \<noteq> 0 \<longrightarrow>
      unat (accepted_blocks (fst st')) = unat (accepted_blocks (fst st)) + outcome_count ACCEPTED events)"
proof -
  note counts = step_counts [OF step place]
  have le: "se_block_limit ses \<noteq> 0 \<longrightarrow> accepted_blocks (fst st) \<le> se_block_limit ses"
    using limit by (simp add: limit_ok_def)
  have same: "accepted_blocks (fst st') = accepted_blocks (fst st)" if "outcome_count ACCEPTED events = 0"
    using counts that by (simp add: counted_by_def)
  have threw: ?thesis if "recover W ses e x = (r, st')" "c' = caught r" "outcome_count ACCEPTED events = 0" for e x r
    using recover_limit [OF that(1), of "accepted_blocks (fst st)"] le same [OF that(3)] that(2,3) by simp
  from step show ?thesis
  proof cases
    case (submitted job refresh st1 mc job' work stats q h result candidate live seen stats2 q2 hash outcome rejection q3)
    have "accepted_blocks (fst st') = accepted_blocks (fst st) + of_bool (outcome = ACCEPTED)"
      using counts unfolding submitted(2) by (simp add: counted_by_def)
    moreover have "se_block_limit ses = 0 \<or> accepted_blocks (fst st) < se_block_limit ses"
      using limit inner_condition_True [OF submitted(4)] unfolding submitted(1) by (simp add: limit_ok_def)
    ultimately show ?thesis
      using word_step_limit [of "accepted_blocks (fst st)" "se_block_limit ses" "outcome = ACCEPTED"]
      unfolding submitted(2,3) by (auto simp: limit_ok_def)
  next
    case (stop)
    with same le outer_condition_Inr [OF stop(4)] show ?thesis
      by (auto simp: limit_ok_def)
  next
    case (fetched st1 work job watcher cancel p0 h p1)
    have "accepted_blocks (fst st') = accepted_blocks (fst st1)"
      using action_counts(4) [OF fetched(5)] by (simp add: same_counts_def)
    with same le outer_condition_Inr [OF fetched(4)] show ?thesis unfolding fetched(2,3)
      by (auto simp: limit_ok_def)
  next
    case (mined job refresh st1 mc job' work stats q h result candidate live seen refresh')
    with same limit inner_condition_True [OF mined(4)] show ?thesis by (auto simp: limit_ok_def)
  next
    case environment
    with same limit show ?thesis by simp
  next
    case (fetch_failed st1 e st2 r)
    show ?thesis by (rule threw [OF fetch_failed(6,3)]) (simp add: fetch_failed(2))
  next
    case (overrun job refresh st1 e st2 r work h)
    show ?thesis by (rule threw [OF overrun(6,3)]) (simp add: overrun(2))
  next
    case (no_candidate job refresh st1 e r work h)
    show ?thesis by (rule threw [OF no_candidate(6,3)]) (simp add: no_candidate(2))
  next
    case (mine_failed job refresh st1 mc job' work stats q h e live r)
    show ?thesis by (rule threw [OF mine_failed(8,3)]) (simp add: mine_failed(2))
  next
    case (submit_failed job refresh st1 mc job' work stats q h result candidate live seen stats2 q2 e q3 r)
    show ?thesis by (rule threw [OF submit_failed(11,3)]) (simp add: submit_failed(2))
  next
    case template_changed
    with same le show ?thesis by (simp add: limit_ok_def)
  next
    case inner_left
    with same le show ?thesis by (simp add: limit_ok_def)
  qed
qed

subsection \<open>Runs\<close>

lemma run_ok:
  assumes "loop_run W J ses (Outer, no_stats, q) events (c, st)"
  shows "place_ok W J ses c \<and> list_all (event_ok W J ses) events \<and> counted_by events no_stats (fst st) \<and>
    limit_ok ses c (accepted_blocks (fst st)) \<and>
    (se_block_limit ses \<noteq> 0 \<longrightarrow> unat (accepted_blocks (fst st)) = outcome_count ACCEPTED events)"
  using assms
proof (induction "(Outer, no_stats, q)" events "(c, st)" arbitrary: c st)
  case start
  then show ?case by (auto simp: counted_by_def limit_ok_def no_stats_def)
next
  case (step events st1 events')
  obtain c1 st1' where s1: "st1 = (c1, st1')" by (metis surj_pair)
  note IH = step(2) [OF s1] and s = step(3) [unfolded s1]
  from step_ok [OF s] step_counts [OF s] step_limit [OF s] IH counted_by_trans show ?case
    by (fastforce simp: list_all_append)
qed

subsection \<open>The candidates of one template\<close>

definition extranonces :: "event list \<Rightarrow> u64 list" where
  "extranonces events = foldl (\<lambda>xs e. case e of
      Took_work _ \<Rightarrow> [] | Mined _ mc _ _ \<Rightarrow> xs @ [mc_extranonce mc] | Submitted _ _ _ _ _ _ _ \<Rightarrow> xs) [] events"

definition current_work :: "event list \<Rightarrow> CurrentWork option" where
  "current_work events = foldl (\<lambda>w e. case e of Took_work work \<Rightarrow> Some work | _ \<Rightarrow> w) None events"

lemma extranonces_append [simp]:
  "extranonces [] = []" "extranonces (es @ [Took_work w]) = []"
  "extranonces (es @ [Mined w mc r c]) = extranonces es @ [mc_extranonce mc]"
  "extranonces (es @ [Mined w mc r c, Submitted w' mc' r' c' f h out]) = extranonces es @ [mc_extranonce mc]"
  by (simp_all add: extranonces_def)

lemma current_work_append [simp]:
  "current_work [] = None" "current_work (es @ [Took_work w]) = Some w"
  "current_work (es @ [Mined w mc r c]) = current_work es"
  "current_work (es @ [Mined w mc r c, Submitted w' mc' r' c' f h out]) = current_work es"
  by (simp_all add: current_work_def)

text \<open>Consecutive numbers from the height of the template on.\<close>

definition consecutive :: "event list \<Rightarrow> bool" where
  "consecutive events \<longleftrightarrow> (case current_work events of
     None \<Rightarrow> extranonces events = []
   | Some work \<Rightarrow> map unat (extranonces events) =
       [unat (bt_height (cw_block_template work))..<
        unat (bt_height (cw_block_template work)) + length (extranonces events)])"

definition handed_out :: "control \<Rightarrow> event list \<Rightarrow> bool" where
  "handed_out c events \<longleftrightarrow> consecutive events \<and>
    (\<forall>work job h refresh. c = Inner work job h refresh \<longrightarrow>
      current_work events = Some work \<and>
      unat (bt_height (cw_block_template work)) + length (extranonces events) =
        (if m_extranonce_exhausted job then 2 ^ 64 else unat (m_next_extranonce job)))"

lemma handed_out_next:
  assumes "handed_out (Inner work job h refresh) events" "NextCandidate job = Inr (mc, job')"
    and "extranonces events' = extranonces events @ [mc_extranonce mc]" "current_work events' = current_work events"
  shows "handed_out (Inner work job' h refresh') events'"
proof -
  note n = NextCandidate_Inr [OF assms(2)]
  let ?b = "unat (bt_height (cw_block_template work))"
  have w: "current_work events = Some work" using assms(1) by (simp add: handed_out_def)
  with assms(1) n(1) have h: "?b + length (extranonces events) = unat (m_next_extranonce job)"
    "map unat (extranonces events) = [?b..<?b + length (extranonces events)]"
    by (simp_all add: handed_out_def consecutive_def)
  have "map unat (extranonces events') = [?b..<?b + length (extranonces events')]"
    using h n(2) by (simp add: assms(3))
  moreover have "?b + length (extranonces events') =
      (if m_extranonce_exhausted job' then 2 ^ 64 else unat (m_next_extranonce job'))"
    using h(1) n(6) by (auto simp: assms(3) split: if_splits)
  ultimately show ?thesis using w assms(4) by (simp add: handed_out_def consecutive_def)
qed

lemma handed_out_other:
  "handed_out c events \<Longrightarrow> \<forall>work job h refresh. c' \<noteq> Inner work job h refresh \<Longrightarrow> handed_out c' events"
  by (simp add: handed_out_def)

lemma caught_not_Inner: "recover W ses e st = (r, st') \<Longrightarrow> caught r \<noteq> Inner work job h refresh"
  by (drule recover_places) auto

lemma step_handed_out:
  assumes "loop_step W J ses (c, st) events' (c', st')" "handed_out c events"
  shows "handed_out c' (events @ events')"
  using assms(1)
proof cases
  case (fetched st1 work job watcher cancel p0 h p1)
  then show ?thesis using job_of_new [OF conjunct2 [OF conjunct2 [OF conjunct2 [OF conjunct2 [OF prepare_Some [OF fetched(5)]]]]]]
    by (simp add: handed_out_def consecutive_def)
next
  case (mined job refresh st1 mc job' work stats q h result candidate live seen refresh')
  with handed_out_next [OF assms(2) [unfolded mined(1)] mined(5)] show ?thesis by simp
next
  case (submitted job refresh st1 mc job' work stats q h result candidate live seen stats2 q2 hash outcome rejection q3)
  with handed_out_next [OF assms(2) [unfolded submitted(1)] submitted(5)] show ?thesis by simp
next
  case (submit_failed job refresh st1 mc job' work stats q h result candidate live seen stats2 q2 e q3 r)
  have "handed_out (Inner work job' h refresh) (events @ [Mined work mc result candidate])"
    by (rule handed_out_next [OF assms(2) [unfolded submit_failed(1)] submit_failed(5)]) simp_all
  then have "handed_out (caught r) (events @ [Mined work mc result candidate])"
    by (rule handed_out_other) (simp add: caught_not_Inner [OF submit_failed(11)])
  then show ?thesis unfolding submit_failed(2,3) by simp
next
  case (fetch_failed st1 e st2 r)
  show ?thesis unfolding fetch_failed(2,3) append_Nil2
    by (rule handed_out_other [OF assms(2)]) (simp add: caught_not_Inner [OF fetch_failed(6)])
next
  case (overrun job refresh st1 e st2 r work h)
  show ?thesis unfolding overrun(2,3) append_Nil2
    by (rule handed_out_other [OF assms(2)]) (simp add: caught_not_Inner [OF overrun(6)])
next
  case (no_candidate job refresh st1 e r work h)
  show ?thesis unfolding no_candidate(2,3) append_Nil2
    by (rule handed_out_other [OF assms(2)]) (simp add: caught_not_Inner [OF no_candidate(6)])
next
  case (mine_failed job refresh st1 mc job' work stats q h e live r)
  show ?thesis unfolding mine_failed(2,3) append_Nil2
    by (rule handed_out_other [OF assms(2)]) (simp add: caught_not_Inner [OF mine_failed(8)])
qed (use assms(2) in \<open>auto simp: handed_out_def\<close>)

lemma run_handed_out:
  assumes "loop_run W J ses (Outer, no_stats, q) events (c, st)"
  shows "handed_out c events"
  using assms
proof (induction "(Outer, no_stats, q)" events "(c, st)" arbitrary: c st)
  case start
  then show ?case by (simp add: handed_out_def consecutive_def)
next
  case (step events st1 events')
  obtain c1 st1' where s1: "st1 = (c1, st1')" by (metis surj_pair)
  show ?case by (rule step_handed_out [OF step(3) [unfolded s1] step(2) [OF s1]])
qed

end
