(* ===== verification/SampleNode.thy ===== *)
theory SampleNode
  imports Submission MiningJob
begin

text \<open>
  A concrete node to run the miner against. Its state is a number: one more with every request, a
  thousand more with every line the miner prints. The node answers what the miner asks when it
  starts, then the state of an empty chain and a template for its first block; the second line that
  is printed sets the shutdown flag. The theorems about the mining loop and the program are applied
  to runs in this world.
\<close>

definition node_info :: json where
  "node_info = JObject
    [(''chain'', JString ''regtest''), (''blocks'', JUnsigned 0), (''headers'', JUnsigned 0),
     (''bestblockhash'', JString (replicate 64 CHR ''0'')), (''bits'', JString ''03000001''),
     (''target'', JString (replicate 63 CHR ''0'' @ ''1''))]"

definition node_template :: "string \<Rightarrow> json" where
  "node_template commitment = JObject
    [(''version'', JUnsigned 0x20000000), (''rules'', JArray [JString ''!segwit'']),
     (''previousblockhash'', JString (replicate 64 CHR ''0'')), (''transactions'', JArray []),
     (''coinbaseaux'', JObject []), (''coinbasevalue'', JUnsigned 5000000000), (''longpollid'', JString ''tip1''),
     (''bits'', JString ''03000001''), (''target'', JString (replicate 63 CHR ''0'' @ ''1'')),
     (''mintime'', JUnsigned 1), (''curtime'', JUnsigned 2), (''height'', JUnsigned 1),
     (''noncerange'', JString ''00000000ffffffff''), (''sigoplimit'', JUnsigned 80000),
     (''sizelimit'', JUnsigned 4000000), (''default_witness_commitment'', JString commitment)]"

definition node_network :: NetworkIdentity where
  "node_network = the (FindNetworkIdentity ''regtest'')"

definition node_script :: bytes where
  "node_script = witness_v2_script (replicate 32 0)"

definition node_address :: json where
  "node_address = JObject
    [(''isvalid'', JBool True), (''iswitness'', JBool True), (''witness_version'', JUnsigned 2),
     (''witness_program'', JString (hex_encode (replicate 32 0))), (''scriptPubKey'', JString (hex_encode node_script))]"

definition node_answer :: "string \<Rightarrow> string \<Rightarrow> json" where
  "node_answer commitment body =
    (if body = ''i'' then node_info
     else if body = ''g'' then JString (ni_genesis_hash node_network)
     else if body = ''a'' then node_address
     else node_template commitment)"

definition node_parse :: "string \<Rightarrow> string \<Rightarrow> string + json" where
  "node_parse commitment body = Inr (JObject [(''result'', node_answer commitment body), (''error'', JNull)])"

definition node_json :: "string \<Rightarrow> json json_api" where
  "node_json commitment = documents (node_parse commitment) (\<lambda>_. Inr ''q'')"

definition node_body :: "nat \<Rightarrow> string" where
  "node_body e = (let r = e mod 1000 in
    if r = 0 \<or> r = 3 then ''i'' else if r = 1 then ''g'' else if r = 2 then ''a'' else ''t'')"

definition node_curl :: "nat curl_api" where
  "node_curl = \<lparr>curl_global_init = (\<lambda>e. (CURLE_OK, e)), curl_init = (\<lambda>e. (True, e)),
    curl_append = (\<lambda>e. (True, e)), curl_setopt = (\<lambda>_ e. (CURLE_OK, e)),
    curl_perform = (\<lambda>_ e. (([(node_body e, 1, 1)], CURLE_OK), Suc e)),
    curl_response_code = (\<lambda>e. ((CURLE_OK, 200), e)), curl_strerror = (\<lambda>_. ''failed'')\<rparr>"

definition node_flag :: "nat atomic_flag" where
  "node_flag e = (e \<ge> 2000, e)"

lemma node_curl_simps [simp]:
  "curl_global_init node_curl e = (CURLE_OK, e)"
  "curl_init node_curl e = (True, e)" "curl_append node_curl e = (True, e)" "curl_setopt node_curl opt e = (CURLE_OK, e)"
  "curl_perform node_curl opts e = (([(node_body e, 1, 1)], CURLE_OK), Suc e)"
  "curl_response_code node_curl e = ((CURLE_OK, 200), e)"
  by (simp_all add: node_curl_def)

lemma node_json_dump [simp]: "j_dump (node_json cm) v = Inr ''q''"
  by (simp add: node_json_def documents_def)

lemma node_set_options: "aforeach (SetOption node_curl) opts p = (Inr (), p)"
proof (induction opts)
  case (Cons opt opts)
  have "SetOption node_curl opt p = (Inr (), p)"
    by (simp add: SetOption_def act_simps)
  with Cons show ?case by simp
qed simp

lemma node_collect: "collect_response [(node_body e, 1, 1)] = node_body e"
proof -
  have "collect_response [(''i'', 1, 1)] = ''i''" "collect_response [(''g'', 1, 1)] = ''g''"
    "collect_response [(''a'', 1, 1)] = ''a''" "collect_response [(''t'', 1, 1)] = ''t''" by code_simp+
  then show ?thesis by (simp add: node_body_def Let_def)
qed

lemma node_transfer:
  "transfer node_curl client opts body p = (Inr (node_body (outside p), 200), p\<lparr>outside := Suc (outside p)\<rparr>)"
  unfolding transfer_def act_simps
  by (auto simp: node_set_options node_collect act_simps check_transfer_def intro!: exI)

lemma node_call:
  assumes "method \<noteq> []" "outside p < 2000"
  shows "Call node_curl (node_json cm) method params (ShutdownRpcOptions (Some node_flag)) (client, p) =
    (Inr (node_answer cm (node_body (outside p))), client\<lparr>m_next_id := m_next_id client + 1\<rparr>,
      p\<lparr>outside := Suc (outside p)\<rparr>)"
proof -
  let ?opts = "ShutdownRpcOptions (Some node_flag)"
  have "call_refused ?opts p = (Inr (), p)"
    using assms(2) by (auto simp: call_refused_def act_simps is_cancelled_def ShutdownRpcOptions_def default_options_def node_flag_def)
  moreover have "ParseRpcResponse (node_json cm) (node_body e) 200 = Inr (node_answer cm (node_body e))" for e
    unfolding ParseRpcResponse_Inr by (simp add: node_json_def documents_def node_parse_def node_body_def Let_def)
  ultimately show ?thesis
    using assms(1) by (simp add: Call_def perform_request_def act_simps BuildRpcRequest_def dump_def node_transfer
        Let_def abind_def alift_def)
qed

lemma node_target: "ValidTargetFromCompact 0x03000001 = Some (UInt256 (1 # replicate 31 0))"
proof -
  have "value_of (UInt256 (1 # replicate 31 0)) = compact_value 0x03000001"
    by (simp add: value_of_def compact_value_def compact_size_def compact_mantissa_def Let_def)
  then show ?thesis
    unfolding ValidTargetFromCompact_iff
    by (auto simp: compact_value_def compact_size_def compact_mantissa_def Let_def bit_iff_odd)
qed

lemma node_hex:
  "hex_decode (replicate 64 CHR ''0'') = Some (replicate 32 0)"
  "hex_decode (replicate 63 CHR ''0'' @ ''1'') = Some (replicate 31 0 @ [1])"
  "ParseBitsHex ''03000001'' = Some 0x03000001"
  by code_simp+

lemma node_info_parsed:
  "ParseBlockchainInfo (node_json cm) node_info = Inr \<lparr>bi_chain = ''regtest'', bi_blocks = 0, bi_headers = 0,
    bi_best_block_hash = UInt256_zero, bi_bits = 0x03000001, bi_target = UInt256 (1 # replicate 31 0)\<rparr>"
proof -
  have p: "j_is_object (node_json cm) node_info" "RequireString (node_json cm) node_info ''chain'' = Inr ''regtest''"
    "RequireUnsigned (node_json cm) node_info ''blocks'' = Inr 0" "RequireUnsigned (node_json cm) node_info ''headers'' = Inr 0"
    "RequireString (node_json cm) node_info ''bits'' = Inr ''03000001''"
    "RequireString (node_json cm) node_info ''bestblockhash'' = Inr (replicate 64 CHR ''0'')"
    "RequireString (node_json cm) node_info ''target'' = Inr (replicate 63 CHR ''0'' @ ''1'')"
    by code_simp+
  show ?thesis
    using RequireUInt256_hex [OF p(6) _ node_hex(1)] RequireUInt256_hex [OF p(7) _ node_hex(2)]
    unfolding ParseBlockchainInfo_def by (simp add: p node_hex node_target UInt256_zero_def)
qed

lemma node_template_parsed:
  assumes "ValidateCommitmentHex cm = Inr ()"
  shows "ParseBlockTemplate (node_json cm) (node_template cm) =
    Inr (sample_block_template\<lparr>bt_witness_commitment_hex := cm\<rparr>)"
proof -
  let ?J = "node_json cm" and ?t = "node_template cm"
  have p: "j_is_object ?J ?t"
    "RequireInt32 ?J ?t ''version'' = Inr 0x20000000"
    "ParseRules ?J ?t = Inr [''!segwit'']"
    "rules_match [''!segwit''] ''segwit''"
    "ParseCoinbaseAux ?J ?t = Inr []"
    "RequireUnsigned ?J ?t ''coinbasevalue'' = Inr 5000000000"
    "RequireString ?J ?t ''longpollid'' = Inr ''tip1''"
    "ParseSubmitOld ?J ?t = Inr None"
    "ParseTemplateTimes ?J ?t = Inr (1, 2)"
    "RequireUnsigned ?J ?t ''height'' = Inr 1"
    "ParseNonceRange ?J ?t = Inr (0, 0xffffffff)"
    "RequireUnsigned ?J ?t ''sigoplimit'' = Inr 80000"
    "RequireUnsigned ?J ?t ''sizelimit'' = Inr 4000000"
    "ParseWeightLimit ?J ?t = Inr None"
    "ParseTransactions ?J ?t = Inr []"
    "RequireString ?J ?t ''default_witness_commitment'' = Inr cm"
    by code_simp+
  have h: "RequireString ?J ?t ''previousblockhash'' = Inr (replicate 64 CHR ''0'')"
    "RequireString ?J ?t ''bits'' = Inr ''03000001''"
    "RequireString ?J ?t ''target'' = Inr (replicate 63 CHR ''0'' @ ''1'')" by code_simp+
  have "ParseTemplateTarget ?J ?t = Inr (0x03000001, UInt256 (1 # replicate 31 0))"
    using RequireUInt256_hex [OF h(3) _ node_hex(2)] by (simp add: ParseTemplateTarget_def h node_hex node_target)
  then show ?thesis using RequireUInt256_hex [OF h(1) _ node_hex(1)] assms
    unfolding ParseBlockTemplate_def by (simp add: p sample_block_template_def UInt256_zero_def)
qed

text \<open>The commitment of the block without transactions.\<close>

definition node_commitment :: string where
  "node_commitment = bt_witness_commitment_hex sample_block_template"

lemma hex_encode_digits: "list_all IsHexDigit (hex_encode bs)"
proof (induction bs)
  case (Cons b bs)
  have "\<forall>n \<in> set [0..<16]. IsHexDigit (HEX ! n)" by code_simp
  moreover have "unat (drop_bit 4 b) < 16" "unat (b AND 0xf) < 16"
    by (rule nibble_high_less nibble_low_less)+
  ultimately show ?case using Cons by (simp add: hex_high_def hex_low_def)
qed simp

lemma node_commitment_valid: "ValidateCommitmentHex node_commitment = Inr ()"
proof -
  have c: "node_commitment = hex_encode (commitment_prefix @ bytes_of (expected_commitment []))"
    by (simp add: node_commitment_def sample_block_template_def)
  have l: "length node_commitment = 76" unfolding c by (simp add: commitment_prefix_def)
  have "hex_encode commitment_prefix = ''6a24aa21a9ed''" by (simp add: commitment_prefix_def; code_simp)
  moreover have "take 12 (NormalizeLower node_commitment) = NormalizeLower (hex_encode commitment_prefix)"
    unfolding c hex_encode_append NormalizeLower_def by (simp add: commitment_prefix_def)
  moreover have "NormalizeLower ''6a24aa21a9ed'' = ''6a24aa21a9ed''" by code_simp
  moreover have "IsEvenHex node_commitment"
    using l hex_encode_digits [of "commitment_prefix @ bytes_of (expected_commitment [])"] by (auto simp: IsEvenHex_def simp flip: c length_0_conv)
  ultimately show ?thesis by (simp add: ValidateCommitmentHex_def l)
qed

definition node_J :: "json json_api" where
  "node_J = node_json node_commitment"

definition node_work :: CurrentWork where
  "node_work = \<lparr>cw_blockchain = \<lparr>bi_chain = ''regtest'', bi_blocks = 0, bi_headers = 0,
    bi_best_block_hash = UInt256_zero, bi_bits = 0x03000001, bi_target = UInt256 (1 # replicate 31 0)\<rparr>,
    cw_block_template = sample_block_template\<rparr>"

lemma node_network_target: "ValidateProofOfWorkTarget node_network (UInt256 (1 # replicate 31 0)) = Inr ()"
proof -
  have "node_network \<in> set NETWORKS" "ni_chain node_network = ''regtest''"
    by (simp_all add: node_network_def FindNetworkIdentity_def NETWORKS_def)
  moreover have "value_of (UInt256 (1 # replicate 31 0)) = 1" by (simp add: value_of_def)
  ultimately show ?thesis by (simp add: ValidateProofOfWorkTarget_Inr NETWORKS_limits)
qed

lemma node_network_known: "node_network \<in> set NETWORKS" "ni_chain node_network = ''regtest''"
  "FindNetworkIdentity ''regtest'' = Some node_network"
  by (simp_all add: node_network_def FindNetworkIdentity_def NETWORKS_def)

lemma node_template_J: "ParseBlockTemplate node_J (node_template node_commitment) = Inr sample_block_template"
  using node_template_parsed [OF node_commitment_valid] by (simp add: node_J_def node_commitment_def)

lemma node_info_J: "ParseBlockchainInfo node_J node_info = Inr (cw_blockchain node_work)"
  by (simp add: node_J_def node_info_parsed node_work_def)

lemmas node_call_J = node_call [where cm = node_commitment, folded node_J_def]

text \<open>The fetch of the loop: requests three and four.\<close>

lemma node_fetch:
  assumes "outside p = 1003"
  shows "FetchCurrentWork node_curl node_J node_network (Some node_flag) (client, p) =
    (Inr node_work, client\<lparr>m_next_id := m_next_id client + 2\<rparr>, p\<lparr>outside := 1005\<rparr>)"
proof -
  have target: "bt_target sample_block_template = UInt256 (1 # replicate 31 0)" by (simp add: sample_block_template_def)
  have a: "node_answer node_commitment (node_body 1003) = node_info"
    "node_answer node_commitment (node_body 1004) = node_template node_commitment"
    by (simp_all add: node_answer_def node_body_def)
  have n: "Suc 1003 = 1004" "Suc 1004 = 1005" by simp_all
  show ?thesis
    using node_template_J node_info_J assms
    by (simp add: FetchCurrentWork_def abind_def alift_def target node_network_target node_work_def aok_def
        node_call_J a n)
qed

text \<open>The start: requests zero, one and two.\<close>

lemma node_genesis:
  obtains genesis where "ParseRpcHash node_J (JString (ni_genesis_hash node_network)) d = Inr genesis"
    "ValidateNetworkIdentity node_network (cw_blockchain node_work) genesis = Inr ()"
proof -
  obtain u where u: "FromHexBE (ni_genesis_hash node_network) = Some u" "ToHexBE u = ni_genesis_hash node_network"
    using canonical_hex_FromHexBE NETWORKS_canonical [OF node_network_known(1)] by metis
  show ?thesis
  proof (rule that [of u])
    show "ParseRpcHash node_J (JString (ni_genesis_hash node_network)) d = Inr u"
      by (simp add: ParseRpcHash_def node_J_def node_json_def documents_def u)
    show "ValidateNetworkIdentity node_network (cw_blockchain node_work) u = Inr ()"
      using u by (simp add: ValidateNetworkIdentity_Inr node_network_known node_work_def)
  qed
qed

lemma node_address_script: "ParsePayoutAddressResponse node_J node_address = Inr node_script"
  unfolding ParsePayoutAddressResponse_Inr vouches_def node_address_def node_script_def
  by (intro exI [of _ "replicate 32 0"]) (simp add: node_J_def node_json_def documents_def)

lemma node_startup_queries:
  assumes "outside p = 0"
  shows "startup_queries node_curl node_J node_network ''addr'' (Some node_flag) (client, p) =
    (Inr node_script, client\<lparr>m_next_id := m_next_id client + 3\<rparr>, p\<lparr>outside := 3\<rparr>)"
proof -
  obtain genesis where g: "ParseRpcHash node_J (JString (ni_genesis_hash node_network)) ''getblockhash 0'' = Inr genesis"
    "ValidateNetworkIdentity node_network (cw_blockchain node_work) genesis = Inr ()" by (rule node_genesis)
  have a: "node_answer node_commitment (node_body 0) = node_info"
    "node_answer node_commitment (node_body (Suc 0)) = JString (ni_genesis_hash node_network)"
    "node_answer node_commitment (node_body (Suc (Suc 0))) = node_address"
    by (simp_all add: node_answer_def node_body_def)
  have n: "Suc (Suc (Suc 0)) = 3" by simp
  show ?thesis
    using node_info_J g assms
    by (simp only: startup_queries_def ResolvePayoutAddress_def) (simp add: abind_def alift_def aok_def athrow_if_def
        node_call_J a n node_address_script)
qed

end
