(* ===== verification/MineSession.thy ===== *)
theory MineSession
  imports MineLoop SampleNode
begin

text \<open>
  The properties of the mining loop, and a run of it in the world of the sample node.
\<close>

section \<open>A sample run\<close>

definition node_world :: "nat world_api" where
  "node_world = \<lparr>w_curl = node_curl, w_read_file = (\<lambda>_ e. (Some ''u:p'', e)), w_getenv_HOME = (\<lambda>e. (None, e)),
    w_exists = (\<lambda>_ e. (Some False, e)), w_hardware_concurrency = (\<lambda>e. (4, e)),
    w_install_handlers = (\<lambda>e. (True, e)), w_load_signal = (\<lambda>e. (2, e)),
    w_store_signal = (\<lambda>_ e. e), w_sleep = (\<lambda>_ e. e),
    w_cout = (\<lambda>_ e. e + 1000), w_cerr = (\<lambda>_ e. e)\<rparr>"

definition node_connection :: RpcConnectionSettings where
  "node_connection = \<lparr>rpc_url = ''http://127.0.0.1:27773'', cookie_file = ''.cookie''\<rparr>"

definition node_credentials :: RpcCredentials where
  "node_credentials = \<lparr>basic_auth = ''u:p''\<rparr>"

definition node_session :: "nat session" where
  "node_session = \<lparr>se_network = node_network, se_connection = node_connection,
    se_payout_script = node_script, se_block_limit = 1, se_workers = 4, se_shutdown = node_flag\<rparr>"

definition node_client_at :: "u64 \<Rightarrow> RpcClient" where
  "node_client_at n = \<lparr>m_url = rpc_url node_connection, m_credentials = node_credentials, m_next_id = n\<rparr>"

definition node_process :: "nat \<Rightarrow> nat process" where
  "node_process e = \<lparr>curl_global = True, outside = e\<rparr>"

definition node_start :: "nat mining" where
  "node_start = (no_stats, node_credentials, node_client_at 3, node_process 1003)"

lemma node_simps [simp]:
  "w_curl node_world = node_curl" "w_cout node_world m e = e + 1000" "se_shutdown node_session = node_flag"
  "se_network node_session = node_network" "se_payout_script node_session = node_script"
  "se_block_limit node_session = 1" "se_workers node_session = 4"
  "outside (node_process e) = e" "node_process e\<lparr>outside := e'\<rparr> = node_process e'"
  "m_next_id (node_client_at n) = n" "node_client_at n\<lparr>m_next_id := n'\<rparr> = node_client_at n'"
  by (simp_all add: node_world_def node_session_def node_process_def node_client_at_def)

lemma node_shutdown:
  "shutdown_requested node_session (stats, credentials, rpc, p) = (Inr (outside p \<ge> 2000), stats, credentials, rpc, p)"
  by (simp add: shutdown_requested_def on_rest_eq on_world_eq poll_flag_def node_flag_def)

lemma node_say:
  "say node_world m (stats, credentials, rpc, p) =
    (Inr (), stats, credentials, rpc, p\<lparr>outside := outside p + 1000\<rparr>)"
  by (simp add: say_def on_rest_eq on_world_eq cout_def)

text \<open>With the shutdown flag set nothing is submitted.\<close>

lemma judge_shutdown:
  assumes "outside p \<ge> 2000"
  shows "\<exists>b st'. judge node_world node_session result seen final (stats, credentials, rpc, p) = (Inr (Next_candidate b), st')"
proof -
  have r: "\<exists>st'. report_refresh node_world m final (stats, credentials, rpc, p) = (Inr (), st')" for m
    by (auto simp: report_refresh_def abind_def bump_def say_def warn_def on_rest_def on_world_def eff_def
        cout_def cerr_def Let_def split: prod.split)
  obtain g where g: "report_refresh node_world m final (stats, credentials, rpc, p) = (Inr (), g m)" for m
    using r by metis
  show ?thesis
    using assms unfolding judge_def
    by (cases "pr_status result") (auto simp: abind_def node_shutdown node_say aok_def g simp del: split_paired_Ex)
qed

lemma node_prepare:
  obtains job w stats where "prepare node_world node_J node_session node_start =
      (Inr (Some (node_work, job, w)), stats, node_credentials, node_client_at 5, node_process 1005)"
    "MiningJob_new sample_block_template node_script 1 = Inr job" "fresh w"
proof -
  have "node_script \<noteq> []" by (simp add: node_script_def witness_v2_script_def)
  then obtain job where job: "MiningJob_new sample_block_template node_script 1 = Inr job" by (simp add: MiningJob_new_def)
  obtain w where w: "LongpollWatcher_new (rpc_url (se_connection node_session)) node_credentials ''tip1'' UInt256_zero = Inr w"
    by (simp add: LongpollWatcher_new_def)
  have t: "cw_block_template node_work = sample_block_template" "TemplateMatchesTip node_work"
    "bt_height sample_block_template = 1" "bt_longpoll_id sample_block_template = ''tip1''"
    "bt_previous_block_hash sample_block_template = UInt256_zero"
    by (simp_all add: node_work_def TemplateMatchesTip_def sample_block_template_def)
  have f: "on_rest (on_client (FetchCurrentWork node_curl node_J node_network (Some node_flag))) node_start =
      (Inr node_work, no_stats, node_credentials, node_client_at 5, node_process 1005)"
    using node_fetch [of "node_process 1003" "node_client_at 3"] by (simp add: node_start_def on_rest_def on_client_def)
  show ?thesis
    by (rule that [OF _ job conjunct1 [OF LongpollWatcher_new_fresh [OF w]]])
      (simp add: prepare_def abind_def f t job w bump_def alift_def aok_def Let_def)
qed

lemma node_outer: "outer_condition node_session node_start = (Inr True, node_start)"
  by (simp add: outer_condition_def abind_def node_start_def node_shutdown no_stats_def)

lemma node_inner:
  "\<not> m_extranonce_exhausted job \<Longrightarrow> outside p < 2000 \<Longrightarrow>
    inner_condition node_session job False (stats, credentials, rpc, p) = (Inr True, stats, credentials, rpc, p)"
  by (simp add: inner_condition_def HasMoreCandidates_def abind_def node_shutdown aok_def)

lemma node_mines:
  assumes "h \<noteq> []" "BuildBlockCandidate t payout extranonce = Inr (mc_candidate mc)"
  shows "\<exists>result candidate live'. mines node_session node_work h mc live (Inr (result, candidate)) live'"
proof -
  have v: "ValidateBlockCandidateForMining (mc_candidate mc) = Inr ()"
    using BuildBlockCandidate_ok [OF assms(2)] by (simp add: Validate_iff)
  have le: "bt_nonce_min (cw_block_template node_work) \<le> bt_nonce_max (cw_block_template node_work)"
    by (simp add: node_work_def sample_block_template_def)
  obtain result candidate live' where "Mine_counting (replicate 4 NonceScanner_new) (mc_candidate mc)
      (bt_target (cw_block_template node_work)) (bt_nonce_min (cw_block_template node_work))
      (bt_nonce_max (cw_block_template node_work)) (Some (lw_hard_cancel (hd h))) (Some False) live
      (Some (lw_refresh_requested (hd h))) (Inr (result, candidate)) live'"
    using Mine_counting_total [OF sample_miner v le] by blast
  then have "mines node_session node_work h mc live (Inr (result, candidate)) live'"
    by (intro mines.intros) (use assms(1) sample_miner in simp_all)
  then show ?thesis by blast
qed

text \<open>The session: one candidate is mined, then the shutdown is seen and the loop is left.\<close>

lemma node_session_run:
  "\<exists>mc result candidate stats credentials rpc p. loop_run node_world node_J node_session (Outer, node_start)
    [Took_work node_work, Mined node_work mc result candidate] (Left_loop, stats, credentials, rpc, p\<lparr>outside := 2005\<rparr>)"
proof -
  obtain job w stats where p: "prepare node_world node_J node_session node_start =
      (Inr (Some (node_work, job, w)), stats, node_credentials, node_client_at 5, node_process 1005)"
    and job: "MiningJob_new sample_block_template node_script 1 = Inr job" and w: "fresh w"
    by (rule node_prepare)
  let ?q = "(node_credentials, node_client_at 5, node_process 1005)"
  obtain r h p1 where run: "Run node_curl node_J (\<lambda>e. (False, e)) ([w], node_process 0) = (r, h, p1)"
    by (metis prod_cases3)
  from Run_history [OF run w] have h: "r = Inr ()" "h \<noteq> []" by simp_all
  have s1: "loop_step node_world node_J node_session (Outer, node_start) [Took_work node_work] (Inner node_work job h False, stats, ?q)"
    by (rule loop_step.fetched [OF node_outer p, unfolded node_simps, OF run [unfolded h(1)]])
  note j = job_of_new [OF job]
  have "length node_script \<le> 100" by (simp add: node_script_def witness_v2_script_def)
  then obtain mc job' where n: "NextCandidate job = Inr (mc, job')"
    using sample_NextCandidate_for [of job] j by auto
  obtain result candidate live where m: "mines node_session node_work h mc (completed_hashes stats) (Inr (result, candidate)) live"
    using node_mines [OF h(2) NextCandidate_Inr(3) [OF n]] by blast
  have "outside (node_process 2005) \<ge> 2000" by simp
  from judge_shutdown [OF this] obtain b stats2 credentials rpc p2 where v: "judge node_world node_session result (hd h) (hd h)
      (stats\<lparr>completed_hashes := live\<rparr>, node_credentials, node_client_at 5, node_process 2005) =
      (Inr (Next_candidate b), stats2, credentials, rpc, p2)"
    by (metis surj_pair)
  have i: "inner_condition node_session job False (stats, ?q) = (Inr True, stats, ?q)"
    by (rule node_inner) (simp_all add: j)
  have sy: "say node_world m (stats, ?q) = (Inr (), stats, node_credentials, node_client_at 5, node_process 2005)" for m
    by (simp add: node_say)
  have s2: "loop_step node_world node_J node_session (Inner node_work job h False, stats, ?q)
      [Mined node_work mc result candidate] (Inner node_work job' h b, stats2, credentials, rpc, p2)"
    by (rule loop_step.mined [OF i n sy m _ v]) (simp add: h)
  let ?st = "(stats2, credentials, rpc, p2\<lparr>outside := 2005\<rparr>)"
  have "\<not> m_extranonce_exhausted job'" using NextCandidate_Inr(6) [OF n] j by simp
  then have "inner_condition node_session job' b ?st = (Inr False, ?st)" "check_extranonce_space node_session job' b ?st = (Inr (), ?st)"
    by (simp_all add: inner_condition_def check_extranonce_space_def HasMoreCandidates_def abind_def node_shutdown aok_def)
  note s3 = loop_step.environment [of node_world node_J node_session "Inner node_work job' h b" stats2 credentials rpc p2 2005]
    and s4 = loop_step.inner_left [OF this, of node_world node_J node_work h]
  have "outer_condition node_session ?st = (Inr False, ?st)"
    by (simp add: outer_condition_def abind_def node_shutdown aok_def)
  note s5 = loop_step.stop [OF this, of node_world node_J]
  have "loop_run node_world node_J node_session (Outer, node_start)
      ((((([] @ [Took_work node_work]) @ [Mined node_work mc result candidate]) @ []) @ []) @ []) (Left_loop, ?st)"
    by (rule loop_run.step [OF loop_run.step [OF loop_run.step [OF loop_run.step [OF loop_run.step [OF loop_run.start s1] s2] s3] s4] s5])
  then show ?thesis unfolding append_Nil append_Nil2 append_Cons by blast
qed

lemma node_run:
  "\<exists>mc result candidate st. loop_run node_world node_J node_session (Outer, node_start)
    [Took_work node_work, Mined node_work mc result candidate] (Left_loop, st)"
  using node_session_run by blast

section \<open>Properties\<close>



text \<open>C6: The counters tell the truth: at every moment of a session the counters of hashes and of accepted and
  rejected blocks are, modulo \<open>2 ^ 64\<close>, the hashes of all calls of \<open>Mine\<close> and the numbers of
  submissions with that outcome.\<close>

theorem mining_loop_counters:
  assumes "loop_run W J ses (Outer, no_stats, q) events (c, stats, q')"
  shows "completed_hashes stats = hashes_mined events \<and>
    accepted_blocks stats = of_nat (outcome_count ACCEPTED events) \<and>
    rejected_blocks stats = of_nat (outcome_count REJECTED_BY_NODE events)"
  using run_ok [OF assms] by (simp add: counted_by_def no_stats_def)

theorem mining_loop_counters_witness:
  "\<exists>mc result candidate stats q. loop_run node_world node_J node_session (Outer, node_start)
      [Took_work node_work, Mined node_work mc result candidate] (Left_loop, stats, q) \<and>
    completed_hashes stats = pr_hashes_checked result \<and> accepted_blocks stats = 0"
proof -
  obtain mc result candidate stats q where run: "loop_run node_world node_J node_session (Outer, node_start)
      [Took_work node_work, Mined node_work mc result candidate] (Left_loop, stats, q)" using node_run by (metis surj_pair)
  from mining_loop_counters [OF run [unfolded node_start_def]]
  have "completed_hashes stats = pr_hashes_checked result" "accepted_blocks stats = 0" by simp_all
  with run show ?thesis by blast
qed



text \<open>C9: No candidate of a template is mined twice: at every moment of a session the extranonces mined since
  the current template was taken up are consecutive numbers from its height on that do not wrap
  around.\<close>

theorem mining_loop_fresh_candidates:
  assumes "loop_run W J ses (Outer, no_stats, q) events (c, st)"
  shows "case current_work events of
     None \<Rightarrow> extranonces events = []
   | Some work \<Rightarrow> map unat (extranonces events) =
       [unat (bt_height (cw_block_template work))..<
        unat (bt_height (cw_block_template work)) + length (extranonces events)]"
  using run_handed_out [OF assms] by (simp only: handed_out_def consecutive_def)

theorem mining_loop_fresh_candidates_witness:
  "\<exists>mc result candidate st. loop_run node_world node_J node_session (Outer, node_start)
      [Took_work node_work, Mined node_work mc result candidate] (Left_loop, st) \<and> mc_extranonce mc = 1"
proof -
  obtain mc result candidate st where run: "loop_run node_world node_J node_session (Outer, node_start)
      [Took_work node_work, Mined node_work mc result candidate] (Left_loop, st)" using node_run by blast
  have "bt_height (cw_block_template node_work) = 1" by (simp add: node_work_def sample_block_template_def)
  with mining_loop_fresh_candidates [OF run [unfolded node_start_def]]
  have "unat (mc_extranonce mc) = unat (1 :: u64)" by (simp add: extranonces_def current_work_def)
  with run show ?thesis unfolding word_unat_eq_iff [symmetric] by blast
qed

end
