(* ===== verification/MinerConfig.thy ===== *)
theory MinerConfig
  imports RpcConnection
begin

text \<open>
  \<open>src/miner_config.h\<close> and \<open>src/miner_config.cpp\<close>: the configuration file, the command line, and how
  the two are merged and completed with defaults.
\<close>

record MinerConfig =
  mc_network :: "string option"
  mc_payout_address :: "string option"
  mc_thread_count :: "u64 option"
  mc_block_limit :: "u64 option"
  mc_report_interval :: "u32 option"
  mc_rpc_url :: "string option"
  mc_cookie_file :: "string option"

definition empty_config :: MinerConfig where
  "empty_config = \<lparr>mc_network = None, mc_payout_address = None, mc_thread_count = None,
    mc_block_limit = None, mc_report_interval = None, mc_rpc_url = None, mc_cookie_file = None\<rparr>"

record MinerCommandLine =
  cl_config_file :: "string option"
  cl_overrides :: MinerConfig
  cl_show_help :: bool

record ResolvedMinerConfig =
  rc_network :: string
  rc_payout_address :: string
  rc_thread_count :: u64
  rc_block_limit :: u64
  rc_report_interval :: u32
  rc_rpc_url :: "string option"
  rc_cookie_file :: "string option"

section \<open>Numbers\<close>

definition is_blank :: "char \<Rightarrow> bool" where
  "is_blank c \<longleftrightarrow> c = CHR '' '' \<or> c = CHR 0x09 \<or> c = CHR 0x0D \<or> c = CHR 0x0A"

definition Trim :: "string \<Rightarrow> string" where
  "Trim v = rev (dropWhile is_blank (rev (dropWhile is_blank v)))"

definition ConfigLineError :: "nat \<Rightarrow> string \<Rightarrow> exn" where
  "ConfigLineError line message =
    MinerConfigException (''mercaminer.conf line '' @ to_string line @ '': '' @ message)"

definition is_digit :: "char \<Rightarrow> bool" where
  "is_digit c \<longleftrightarrow> CHR ''0'' \<le> c \<and> c \<le> CHR ''9''"

definition decimal :: "string \<Rightarrow> nat" where
  "decimal s = foldl (\<lambda>n c. 10 * n + (of_char c - 48)) 0 s"

text \<open>
  \<open>std::from_chars\<close> for an unsigned 64-bit decimal number: the value and the rest of the text, or
  nothing when there is no digit or the value is out of range.
\<close>

definition from_chars :: "string \<Rightarrow> (u64 \<times> string) option" where
  "from_chars text =
    (let digits = takeWhile is_digit text
     in if digits = [] \<or> decimal digits \<ge> 2 ^ 64 then None
        else Some (of_nat (decimal digits), dropWhile is_digit text))"

definition ParseUnsigned :: "string \<Rightarrow> string \<Rightarrow> u64 res" where
  "ParseUnsigned text description =
    rbind (throw_if (text = []) (MinerConfigException (description @ '' must not be empty''))) (\<lambda>_.
    case from_chars text of
      None \<Rightarrow> throw (MinerConfigException (description @ '' must be an unsigned integer''))
    | Some (v, rest) \<Rightarrow>
        rbind (throw_if (rest \<noteq> []) (MinerConfigException (description @ '' must be an unsigned integer''))) (\<lambda>_.
        ok v))"

definition ParseMinerThreadCount :: "string \<Rightarrow> u64 res" where
  "ParseMinerThreadCount text =
    rbind (ParseUnsigned text ''thread count'') (\<lambda>v.
    rbind (throw_if (v = 0 \<or> v > - 1) (MinerConfigException ''thread count must be a positive integer'')) (\<lambda>_.
    ok v))"

definition SelectDefaultMinerThreadCount :: "u64 \<Rightarrow> u64" where
  "SelectDefaultMinerThreadCount hardware_threads =
    (if hardware_threads = 0 then 1 else if hardware_threads > 8 then 8 else hardware_threads)"

definition ParseMinerBlockLimit :: "string \<Rightarrow> u64 res" where
  "ParseMinerBlockLimit text = ParseUnsigned text ''block limit''"

definition ParseMinerReportInterval :: "string \<Rightarrow> u32 res" where
  "ParseMinerReportInterval text =
    rbind (ParseUnsigned text ''report interval'') (\<lambda>v.
    rbind (throw_if (v > 0xffffffff) (MinerConfigException ''report interval is too large'')) (\<lambda>_.
    ok (ucast v)))"

section \<open>The command line\<close>

definition value_options :: "string list" where
  "value_options = [''--config'', ''--network'', ''--payout-address'', ''--threads'', ''--block-limit'',
    ''--report-interval'', ''--rpc-url'', ''--cookie-file'']"

definition option_error :: "string \<Rightarrow> string \<Rightarrow> exn" where
  "option_error message option = MinerConfigException (message @ '' command-line option '' @ quoted option)"

definition set_option :: "string \<Rightarrow> string \<Rightarrow> MinerCommandLine \<Rightarrow> MinerCommandLine res" where
  "set_option option v result =
    (let c = cl_overrides result;
         override = (\<lambda>c. ok (result\<lparr>cl_overrides := c\<rparr>))
     in if option = ''--config'' then ok (result\<lparr>cl_config_file := Some v\<rparr>)
        else if option = ''--network'' then override (c\<lparr>mc_network := Some v\<rparr>)
        else if option = ''--payout-address'' then override (c\<lparr>mc_payout_address := Some v\<rparr>)
        else if option = ''--threads'' then
          rbind (ParseMinerThreadCount v) (\<lambda>n. override (c\<lparr>mc_thread_count := Some n\<rparr>))
        else if option = ''--block-limit'' then
          rbind (ParseMinerBlockLimit v) (\<lambda>n. override (c\<lparr>mc_block_limit := Some n\<rparr>))
        else if option = ''--report-interval'' then
          rbind (ParseMinerReportInterval v) (\<lambda>n. override (c\<lparr>mc_report_interval := Some n\<rparr>))
        else if option = ''--rpc-url'' then override (c\<lparr>mc_rpc_url := Some v\<rparr>)
        else if option = ''--cookie-file'' then override (c\<lparr>mc_cookie_file := Some v\<rparr>)
        else ok result)"

fun parse_args :: "string list \<Rightarrow> string set \<Rightarrow> MinerCommandLine \<Rightarrow> MinerCommandLine res" where
  "parse_args [] seen result = ok result"
| "parse_args (option # rest) seen result =
    (if take 2 option \<noteq> ''--'' then
       throw (MinerConfigException (''unexpected positional argument '' @ quoted option @ ''; use --help for supported forms''))
     else if option = ''--help'' then
       rbind (throw_if (option \<in> seen) (option_error ''duplicate'' option)) (\<lambda>_.
       parse_args rest (insert option seen) (result\<lparr>cl_show_help := True\<rparr>))
     else
       rbind (throw_if (option \<notin> set value_options) (option_error ''unknown'' option)) (\<lambda>_.
       rbind (throw_if (option \<in> seen) (option_error ''duplicate'' option)) (\<lambda>_.
       case rest of
         [] \<Rightarrow> throw (option_error ''missing value for'' option)
       | v # rest \<Rightarrow>
           rbind (throw_if (v = []) (option_error ''empty value for'' option)) (\<lambda>_.
           rbind (set_option option v result) (\<lambda>result.
           parse_args rest (insert option seen) result)))))"

definition ParseMinerCommandLine :: "string list \<Rightarrow> MinerCommandLine res" where
  "ParseMinerCommandLine args =
    parse_args args {} \<lparr>cl_config_file = None, cl_overrides = empty_config, cl_show_help = False\<rparr>"

section \<open>Merging and defaults\<close>

definition override :: "'a option \<Rightarrow> 'a option \<Rightarrow> 'a option" where
  "override base over = (case over of Some v \<Rightarrow> Some v | None \<Rightarrow> base)"

definition MergeMinerConfig :: "MinerConfig \<Rightarrow> MinerConfig \<Rightarrow> MinerConfig" where
  "MergeMinerConfig base overrides =
    \<lparr>mc_network = override (mc_network base) (mc_network overrides),
     mc_payout_address = override (mc_payout_address base) (mc_payout_address overrides),
     mc_thread_count = override (mc_thread_count base) (mc_thread_count overrides),
     mc_block_limit = override (mc_block_limit base) (mc_block_limit overrides),
     mc_report_interval = override (mc_report_interval base) (mc_report_interval overrides),
     mc_rpc_url = override (mc_rpc_url base) (mc_rpc_url overrides),
     mc_cookie_file = override (mc_cookie_file base) (mc_cookie_file overrides)\<rparr>"

definition value_or :: "'a option \<Rightarrow> 'a \<Rightarrow> 'a" where
  "value_or m d = (case m of Some v \<Rightarrow> v | None \<Rightarrow> d)"

definition ResolveMinerConfig :: "MinerConfig \<Rightarrow> u64 \<Rightarrow> ResolvedMinerConfig res" where
  "ResolveMinerConfig config hardware_threads =
    rbind (throw_if (value_or (mc_network config) [] = []) (MinerConfigException ''network is required'')) (\<lambda>_.
    rbind (throw_if (value_or (mc_payout_address config) [] = [])
      (MinerConfigException ''payout_address is required'')) (\<lambda>_.
    rbind (throw_if (mc_thread_count config = Some 0)
      (MinerConfigException ''threads must be positive when specified'')) (\<lambda>_.
    rbind (throw_if ((mc_rpc_url config \<noteq> None) \<noteq> (mc_cookie_file config \<noteq> None))
      (MinerConfigException ''rpc_url and cookie_file must be specified together'')) (\<lambda>_.
    rbind (throw_if (mc_rpc_url config = Some []) (MinerConfigException ''rpc_url must not be empty'')) (\<lambda>_.
    rbind (throw_if (mc_cookie_file config = Some []) (MinerConfigException ''cookie_file must not be empty'')) (\<lambda>_.
    ok \<lparr>rc_network = value_or (mc_network config) [],
        rc_payout_address = value_or (mc_payout_address config) [],
        rc_thread_count = value_or (mc_thread_count config) (SelectDefaultMinerThreadCount hardware_threads),
        rc_block_limit = value_or (mc_block_limit config) 0,
        rc_report_interval = value_or (mc_report_interval config) 30,
        rc_rpc_url = mc_rpc_url config, rc_cookie_file = mc_cookie_file config\<rparr>))))))"

definition ResolveMinerConfig_default :: "('e \<Rightarrow> u32 \<times> 'e) \<Rightarrow> MinerConfig \<Rightarrow> ('e process, ResolvedMinerConfig) act" where
  "ResolveMinerConfig_default hardware_concurrency config =
    abind (eff hardware_concurrency) (\<lambda>n. alift (ResolveMinerConfig config (ucast n)))"

section \<open>The configuration file\<close>

text \<open>The lines that \<open>std::getline\<close> reads: an unfinished last line counts, an empty one does not.\<close>

function getlines :: "string \<Rightarrow> string list" where
  "getlines text =
    (if text = [] then []
     else takeWhile (\<lambda>c. c \<noteq> CHR 0x0A) text # getlines (drop 1 (dropWhile (\<lambda>c. c \<noteq> CHR 0x0A) text)))"
  by pat_completeness auto
termination
proof (relation "measure length")
  fix s :: "char list" assume "s \<noteq> []"
  then obtain c cs where s: "s = c # cs" by (cases s) auto
  have "length (dropWhile (\<lambda>c. c \<noteq> CHR 0x0A) cs) \<le> length cs" by (rule length_dropWhile_le)
  then show "(drop 1 (dropWhile (\<lambda>c. c \<noteq> CHR 0x0A) s), s) \<in> measure length"
    by (cases "c = CHR 0x0A") (simp_all add: s less_Suc_eq_le le_diff_conv)
qed simp

declare getlines.simps [simp del]

definition set_key :: "string \<Rightarrow> string \<Rightarrow> MinerConfig \<Rightarrow> MinerConfig res" where
  "set_key key v c =
    (if key = ''network'' then ok (c\<lparr>mc_network := Some v\<rparr>)
     else if key = ''payout_address'' then ok (c\<lparr>mc_payout_address := Some v\<rparr>)
     else if key = ''threads'' then rbind (ParseMinerThreadCount v) (\<lambda>n. ok (c\<lparr>mc_thread_count := Some n\<rparr>))
     else if key = ''block_limit'' then rbind (ParseMinerBlockLimit v) (\<lambda>n. ok (c\<lparr>mc_block_limit := Some n\<rparr>))
     else if key = ''report_interval'' then
       rbind (ParseMinerReportInterval v) (\<lambda>n. ok (c\<lparr>mc_report_interval := Some n\<rparr>))
     else if key = ''rpc_url'' then ok (c\<lparr>mc_rpc_url := Some v\<rparr>)
     else if key = ''cookie_file'' then ok (c\<lparr>mc_cookie_file := Some v\<rparr>)
     else throw (MinerConfigException (''unknown configuration key '' @ quoted key)))"

text \<open>The \<open>try\<close> block: a configuration exception is thrown again with the number of the line.\<close>

definition at_line :: "nat \<Rightarrow> 'a res \<Rightarrow> 'a res" where
  "at_line n r = (case r of Inl (MinerConfigException m) \<Rightarrow> throw (ConfigLineError n m) | _ \<Rightarrow> r)"

definition parse_line :: "nat \<Rightarrow> string \<Rightarrow> string set \<times> MinerConfig \<Rightarrow> (string set \<times> MinerConfig) res" where
  "parse_line n raw_line = (\<lambda>(seen, config).
    let line = Trim raw_line
    in if line = [] \<or> hd line = CHR ''#'' then ok (seen, config)
       else case find_char CHR ''='' line of
         None \<Rightarrow> throw (ConfigLineError n ''expected key=value'')
       | Some separator \<Rightarrow>
           let key = Trim (take separator line);
               v = Trim (drop (separator + 1) line)
           in rbind (throw_if (key = []) (ConfigLineError n ''configuration key is empty'')) (\<lambda>_.
              rbind (throw_if (v = []) (ConfigLineError n ''configuration value is empty'')) (\<lambda>_.
              rbind (throw_if (key \<in> seen) (ConfigLineError n (''duplicate configuration key '' @ quoted key))) (\<lambda>_.
              rbind (at_line n (set_key key v config)) (\<lambda>config.
              ok (insert key seen, config))))))"

fun parse_lines :: "nat \<Rightarrow> string list \<Rightarrow> string set \<times> MinerConfig \<Rightarrow> (string set \<times> MinerConfig) res" where
  "parse_lines n [] st = ok st"
| "parse_lines n (raw_line # rest) st = rbind (parse_line n raw_line st) (parse_lines (Suc n) rest)"

definition ParseMinerConfigText :: "string \<Rightarrow> MinerConfig res" where
  "ParseMinerConfigText text =
    rbind (parse_lines 1 (getlines text) ({}, empty_config)) (\<lambda>(seen, config). ok config)"

text \<open>
  Reading a file through its buffer touches neither the end-of-file nor the failure bit of the
  stream, so the second check of the source looks at the bits of a stream that has just been
  opened. An unreadable file gives the content read so far.
\<close>

definition LoadMinerConfigFile :: "'e files \<Rightarrow> string \<Rightarrow> ('e process, MinerConfig) act" where
  "LoadMinerConfigFile read_file path =
    abind (eff (read_file path)) (\<lambda>file.
    case file of
      None \<Rightarrow> athrow (MinerConfigException (''unable to open MercaMiner configuration file: '' @ path))
    | Some contents \<Rightarrow>
        (let eof = False; fail = False
         in abind (athrow_if (\<not> eof \<and> fail)
              (MinerConfigException (''unable to read MercaMiner configuration file: '' @ path))) (\<lambda>_.
            alift (ParseMinerConfigText contents))))"

definition MinerConfigPathForHome :: "string \<Rightarrow> string res" where
  "MinerConfigPathForHome home_directory =
    rbind (throw_if (home_directory = [])
      (MinerConfigException ''HOME directory is empty; use --config to specify a configuration file'')) (\<lambda>_.
    ok (path_append (path_append home_directory ''.mercaminer'') ''mercaminer.conf''))"

definition DefaultMinerConfigPath :: "('e \<Rightarrow> string option \<times> 'e) \<Rightarrow> ('e process, string) act" where
  "DefaultMinerConfigPath getenv_HOME =
    abind (eff getenv_HOME) (\<lambda>home.
    case home of
      None \<Rightarrow> athrow (MinerConfigException ''HOME is not set; use --config to specify a configuration file'')
    | Some home \<Rightarrow>
        if home = [] then athrow (MinerConfigException ''HOME is not set; use --config to specify a configuration file'')
        else alift (MinerConfigPathForHome home))"

section \<open>Numbers read back\<close>

lemma decimal_snoc: "decimal (s @ [c]) = 10 * decimal s + (of_char c - 48)"
  by (simp add: decimal_def)

lemma digit_of_nat:
  assumes "n < 10"
  shows "is_digit (char_of (48 + n :: nat)) \<and> of_char (char_of (48 + n :: nat)) - (48 :: nat) = n"
proof -
  have "list_all (\<lambda>n. is_digit (char_of (48 + n :: nat)) \<and> of_char (char_of (48 + n :: nat)) - (48 :: nat) = n) [0..<10]"
    by code_simp
  with assms show ?thesis by (simp add: list_all_iff)
qed

lemma to_string_decimal: "decimal (to_string n) = n \<and> list_all is_digit (to_string n) \<and> to_string n \<noteq> []"
proof (induction n rule: less_induct)
  case (less n)
  show ?case
  proof (cases "n < 10")
    case True
    then have "to_string n = [char_of (48 + n)]" by (simp add: to_string.simps)
    with digit_of_nat [OF True] show ?thesis by (simp add: decimal_def)
  next
    case False
    then have s: "to_string n = to_string (n div 10) @ [char_of (48 + n mod 10)]"
      by (subst to_string.simps) simp
    have "n mod 10 < 10" by simp
    with less [of "n div 10"] False digit_of_nat [of "n mod 10"] show ?thesis
      by (simp add: s decimal_snoc)
  qed
qed

lemma ParseUnsigned_Inr:
  "ParseUnsigned text d = Inr v \<longleftrightarrow>
    text \<noteq> [] \<and> list_all is_digit text \<and> decimal text < 2 ^ 64 \<and> unat v = decimal text"
proof (cases "list_all is_digit text")
  case True
  then have t: "takeWhile is_digit text = text" "dropWhile is_digit text = []"
    by (auto simp: takeWhile_eq_all_conv dropWhile_eq_Nil_conv list_all_iff)
  have "v = of_nat (decimal text) \<longleftrightarrow> unat v = decimal text" if "decimal text < 2 ^ 64"
    using unat_of_nat_small [of "decimal text", where ?'a = 64] that by (auto simp: word_unat_eq_iff)
  then show ?thesis using True unfolding ParseUnsigned_def from_chars_def Let_def t
    by (auto simp: rbind_Inr_iff)
next
  case False
  then have "dropWhile is_digit text \<noteq> []"
    by (auto simp: dropWhile_eq_Nil_conv list_all_iff)
  with False show ?thesis by (auto simp: ParseUnsigned_def from_chars_def Let_def rbind_Inr_iff)
qed

lemma ParseUnsigned_to_string: "ParseUnsigned (to_string (unat v)) d = Inr v"
  using to_string_decimal [of "unat v"] unsigned_less [of v, where ?'a = nat]
  by (simp add: ParseUnsigned_Inr)

section \<open>What settings a configuration holds\<close>

text \<open>
  A field of a configuration read from a list of settings: the value given for its name, converted,
  or what it was before when none is given.
\<close>

definition reads :: "('c \<Rightarrow> 'v option) \<Rightarrow> (string \<Rightarrow> 'v res) \<Rightarrow> string \<Rightarrow> (string \<times> string) list \<Rightarrow> 'c \<Rightarrow> 'c \<Rightarrow> bool" where
  "reads sel conv name given c0 c \<longleftrightarrow>
    (case map_of given name of
       None \<Rightarrow> sel c = sel c0
     | Some v \<Rightarrow> (\<exists>x. conv v = Inr x \<and> sel c = Some x))"

definition sets :: "(string \<Rightarrow> string \<Rightarrow> 'c \<Rightarrow> 'c res) \<Rightarrow> ('c \<Rightarrow> 'v option) \<Rightarrow> (string \<Rightarrow> 'v res) \<Rightarrow> string \<Rightarrow> bool" where
  "sets setter sel conv name \<longleftrightarrow>
    (\<forall>k v c c'. setter k v c = Inr c' \<longrightarrow>
      (if k = name then (\<exists>x. conv v = Inr x \<and> sel c' = Some x) else sel c' = sel c))"

lemma reads_Nil: "reads sel conv name [] c c"
  by (simp add: reads_def)

lemma reads_Cons:
  assumes "sets setter sel conv name" "setter k v c0 = Inr c1" "reads sel conv name given c1 c"
    and "k \<notin> fst ` set given"
  shows "reads sel conv name ((k, v) # given) c0 c"
proof (cases "k = name")
  case True
  then have "map_of given name = None" using assms(4) by (simp add: map_of_eq_None_iff)
  with True assms(1-3) show ?thesis unfolding reads_def sets_def by auto
next
  case False
  with assms(1-3) show ?thesis unfolding reads_def sets_def by (auto split: option.splits)
qed

text \<open>Each branch of the two setters.\<close>

lemma set_key_cases:
  assumes "set_key k v c = Inr c'"
  obtains "k = ''network''" "c' = c\<lparr>mc_network := Some v\<rparr>"
  | "k = ''payout_address''" "c' = c\<lparr>mc_payout_address := Some v\<rparr>"
  | n where "k = ''threads''" "ParseMinerThreadCount v = Inr n" "c' = c\<lparr>mc_thread_count := Some n\<rparr>"
  | n where "k = ''block_limit''" "ParseMinerBlockLimit v = Inr n" "c' = c\<lparr>mc_block_limit := Some n\<rparr>"
  | n where "k = ''report_interval''" "ParseMinerReportInterval v = Inr n" "c' = c\<lparr>mc_report_interval := Some n\<rparr>"
  | "k = ''rpc_url''" "c' = c\<lparr>mc_rpc_url := Some v\<rparr>"
  | "k = ''cookie_file''" "c' = c\<lparr>mc_cookie_file := Some v\<rparr>"
  using assms unfolding set_key_def
  by (simp only: rbind_Inr_iff throw_ok_simps sum.inject sum.distinct split: if_splits; elim exE conjE; simp only:)

lemma set_key_sets:
  "sets set_key mc_network Inr ''network''" "sets set_key mc_payout_address Inr ''payout_address''"
  "sets set_key mc_thread_count ParseMinerThreadCount ''threads''"
  "sets set_key mc_block_limit ParseMinerBlockLimit ''block_limit''"
  "sets set_key mc_report_interval ParseMinerReportInterval ''report_interval''"
  "sets set_key mc_rpc_url Inr ''rpc_url''" "sets set_key mc_cookie_file Inr ''cookie_file''"
  unfolding sets_def by (intro allI impI; erule set_key_cases; simp)+

lemma set_option_cases:
  assumes "set_option k v c = Inr c'"
  obtains "k = ''--config''" "c' = c\<lparr>cl_config_file := Some v\<rparr>"
  | "k = ''--network''" "c' = c\<lparr>cl_overrides := (cl_overrides c)\<lparr>mc_network := Some v\<rparr>\<rparr>"
  | "k = ''--payout-address''" "c' = c\<lparr>cl_overrides := (cl_overrides c)\<lparr>mc_payout_address := Some v\<rparr>\<rparr>"
  | n where "k = ''--threads''" "ParseMinerThreadCount v = Inr n"
      "c' = c\<lparr>cl_overrides := (cl_overrides c)\<lparr>mc_thread_count := Some n\<rparr>\<rparr>"
  | n where "k = ''--block-limit''" "ParseMinerBlockLimit v = Inr n"
      "c' = c\<lparr>cl_overrides := (cl_overrides c)\<lparr>mc_block_limit := Some n\<rparr>\<rparr>"
  | n where "k = ''--report-interval''" "ParseMinerReportInterval v = Inr n"
      "c' = c\<lparr>cl_overrides := (cl_overrides c)\<lparr>mc_report_interval := Some n\<rparr>\<rparr>"
  | "k = ''--rpc-url''" "c' = c\<lparr>cl_overrides := (cl_overrides c)\<lparr>mc_rpc_url := Some v\<rparr>\<rparr>"
  | "k = ''--cookie-file''" "c' = c\<lparr>cl_overrides := (cl_overrides c)\<lparr>mc_cookie_file := Some v\<rparr>\<rparr>"
  | "k \<notin> set value_options" "c' = c"
  using assms unfolding set_option_def Let_def value_options_def
  by (simp only: rbind_Inr_iff throw_ok_simps sum.inject list.set insert_iff empty_iff not_False_eq_True simp_thms
      split: if_splits; elim exE conjE; simp only: simp_thms)

lemma set_option_sets:
  "sets set_option cl_config_file Inr ''--config''"
  "sets set_option (mc_network \<circ> cl_overrides) Inr ''--network''"
  "sets set_option (mc_payout_address \<circ> cl_overrides) Inr ''--payout-address''"
  "sets set_option (mc_thread_count \<circ> cl_overrides) ParseMinerThreadCount ''--threads''"
  "sets set_option (mc_block_limit \<circ> cl_overrides) ParseMinerBlockLimit ''--block-limit''"
  "sets set_option (mc_report_interval \<circ> cl_overrides) ParseMinerReportInterval ''--report-interval''"
  "sets set_option (mc_rpc_url \<circ> cl_overrides) Inr ''--rpc-url''"
  "sets set_option (mc_cookie_file \<circ> cl_overrides) Inr ''--cookie-file''"
  unfolding sets_def by (intro allI impI; erule set_option_cases; auto simp: value_options_def)+

text \<open>All settings of a configuration.\<close>

definition config_reads :: "(string \<times> string) list \<Rightarrow> MinerConfig \<Rightarrow> MinerConfig \<Rightarrow> bool" where
  "config_reads given c0 c \<longleftrightarrow>
    reads mc_network Inr ''network'' given c0 c \<and> reads mc_payout_address Inr ''payout_address'' given c0 c \<and>
    reads mc_thread_count ParseMinerThreadCount ''threads'' given c0 c \<and>
    reads mc_block_limit ParseMinerBlockLimit ''block_limit'' given c0 c \<and>
    reads mc_report_interval ParseMinerReportInterval ''report_interval'' given c0 c \<and>
    reads mc_rpc_url Inr ''rpc_url'' given c0 c \<and> reads mc_cookie_file Inr ''cookie_file'' given c0 c"

definition command_reads :: "(string \<times> string) list \<Rightarrow> MinerCommandLine \<Rightarrow> MinerCommandLine \<Rightarrow> bool" where
  "command_reads given c0 c \<longleftrightarrow>
    reads cl_config_file Inr ''--config'' given c0 c \<and>
    reads (mc_network \<circ> cl_overrides) Inr ''--network'' given c0 c \<and>
    reads (mc_payout_address \<circ> cl_overrides) Inr ''--payout-address'' given c0 c \<and>
    reads (mc_thread_count \<circ> cl_overrides) ParseMinerThreadCount ''--threads'' given c0 c \<and>
    reads (mc_block_limit \<circ> cl_overrides) ParseMinerBlockLimit ''--block-limit'' given c0 c \<and>
    reads (mc_report_interval \<circ> cl_overrides) ParseMinerReportInterval ''--report-interval'' given c0 c \<and>
    reads (mc_rpc_url \<circ> cl_overrides) Inr ''--rpc-url'' given c0 c \<and>
    reads (mc_cookie_file \<circ> cl_overrides) Inr ''--cookie-file'' given c0 c"

lemma config_reads_Cons:
  "set_key k v c0 = Inr c1 \<Longrightarrow> config_reads given c1 c \<Longrightarrow> k \<notin> fst ` set given \<Longrightarrow>
    config_reads ((k, v) # given) c0 c"
  unfolding config_reads_def by (intro conjI; elim conjE; rule reads_Cons; (rule set_key_sets)?; assumption?)

lemma command_reads_Cons:
  "set_option k v c0 = Inr c1 \<Longrightarrow> command_reads given c1 c \<Longrightarrow> k \<notin> fst ` set given \<Longrightarrow>
    command_reads ((k, v) # given) c0 c"
  unfolding command_reads_def by (intro conjI; elim conjE; rule reads_Cons; (rule set_option_sets)?; assumption?)

section \<open>The command line reads as its options\<close>

text \<open>The arguments that a list of options is written as, and the options that carry a value.\<close>

definition cl_tokens :: "(string \<times> string option) list \<Rightarrow> string list" where
  "cl_tokens given = concat (map (\<lambda>(name, v). name # (case v of None \<Rightarrow> [] | Some v \<Rightarrow> [v])) given)"

definition settings :: "(string \<times> string option) list \<Rightarrow> (string \<times> string) list" where
  "settings given = concat (map (\<lambda>(name, v). case v of None \<Rightarrow> [] | Some v \<Rightarrow> [(name, v)]) given)"

definition well_formed_option :: "string \<times> string option \<Rightarrow> bool" where
  "well_formed_option = (\<lambda>(name, v).
    case v of None \<Rightarrow> name = ''--help'' | Some v \<Rightarrow> name \<in> set value_options \<and> v \<noteq> [])"

lemma cl_tokens_simps [simp]:
  "cl_tokens [] = []" "cl_tokens ((name, None) # given) = name # cl_tokens given"
  "cl_tokens ((name, Some v) # given) = name # v # cl_tokens given"
  by (simp_all add: cl_tokens_def)

lemma settings_simps [simp]:
  "settings [] = []" "settings ((name, None) # given) = settings given"
  "settings ((name, Some v) # given) = (name, v) # settings given"
  by (simp_all add: settings_def)

lemma well_formed_option_simps [simp]:
  "well_formed_option (name, None) \<longleftrightarrow> name = ''--help''"
  "well_formed_option (name, Some v) \<longleftrightarrow> name \<in> set value_options \<and> v \<noteq> []"
  by (simp_all add: well_formed_option_def)

lemma settings_names: "fst ` set (settings given) \<subseteq> fst ` set given"
proof (induction given)
  case (Cons x given)
  obtain name v where "x = (name, v)" by fastforce
  with Cons show ?case by (cases v) auto
qed simp

lemma reads_help:
  "sel (c0\<lparr>cl_show_help := b\<rparr>) = sel c0 \<Longrightarrow>
    reads sel conv name given (c0\<lparr>cl_show_help := b\<rparr>) c = reads sel conv name given c0 c"
  by (simp add: reads_def split: option.split)

lemma command_reads_help [simp]:
  "command_reads given (c0\<lparr>cl_show_help := b\<rparr>) c = command_reads given c0 c"
  by (simp add: command_reads_def reads_help)

lemma command_reads_Nil [simp]: "command_reads [] c c"
  by (simp add: command_reads_def reads_Nil)

lemma set_option_help: "set_option k v c = Inr c' \<Longrightarrow> cl_show_help c' = cl_show_help c"
  by (erule set_option_cases) simp_all

definition reads_options :: "string list \<Rightarrow> string set \<Rightarrow> MinerCommandLine \<Rightarrow> MinerCommandLine \<Rightarrow>
    (string \<times> string option) list \<Rightarrow> bool" where
  "reads_options args seen c0 c given \<longleftrightarrow> args = cl_tokens given \<and> distinct (map fst given) \<and>
    fst ` set given \<inter> seen = {} \<and> list_all well_formed_option given \<and>
    command_reads (settings given) c0 c \<and>
    cl_show_help c = (cl_show_help c0 \<or> (''--help'', None) \<in> set given)"

lemma reads_options_help:
  assumes "reads_options args (insert ''--help'' seen) (c0\<lparr>cl_show_help := True\<rparr>) c given" "''--help'' \<notin> seen"
  shows "reads_options (''--help'' # args) seen c0 c ((''--help'', None) # given)"
  using assms unfolding reads_options_def by simp

lemma reads_options_value:
  assumes "reads_options args (insert k seen) c1 c given" "set_option k v c0 = Inr c1" "k \<notin> seen"
    and "k \<in> set value_options" "v \<noteq> []"
  shows "reads_options (k # v # args) seen c0 c ((k, Some v) # given)"
proof -
  have g: "k \<notin> fst ` set given" using assms(1) by (auto simp: reads_options_def)
  then have "k \<notin> fst ` set (settings given)" using settings_names by blast
  then have "command_reads ((k, v) # settings given) c0 c"
    by (rule command_reads_Cons [OF assms(2), rotated]) (use assms(1) in \<open>simp add: reads_options_def\<close>)
  then show ?thesis using assms g set_option_help [OF assms(2)] unfolding reads_options_def by simp
qed

lemma parse_args_Inr:
  "parse_args args seen c0 = Inr c \<Longrightarrow> \<exists>given. reads_options args seen c0 c given"
proof (induction args seen c0 rule: parse_args.induct)
  case (1 seen result)
  then have "reads_options [] seen result c []" by (simp add: reads_options_def)
  then show ?case ..
next
  case (2 name rest seen c0)
  show ?case
  proof (cases "name = ''--help''")
    case True
    have "\<not> take 2 name \<noteq> ''--''" using True by simp
    note IH = "2.IH"(1) [OF this True]
    from "2.prems" True have h: "''--help'' \<notin> seen"
      "parse_args rest (insert ''--help'' seen) (c0\<lparr>cl_show_help := True\<rparr>) = Inr c"
      by (auto simp: rbind_Inr_iff)
    with IH True obtain given where "reads_options rest (insert ''--help'' seen) (c0\<lparr>cl_show_help := True\<rparr>) c given"
      by (auto simp: True)
    from reads_options_help [OF this h(1)] True show ?thesis by blast
  next
    case False
    from "2.prems" False obtain v rest' c1 where r: "take 2 name = ''--''" "name \<in> set value_options" "name \<notin> seen"
      "rest = v # rest'" "v \<noteq> []" "set_option name v c0 = Inr c1"
      "parse_args rest' (insert name seen) c1 = Inr c"
      by (auto simp: rbind_Inr_iff split: if_splits list.splits)
    then obtain given where "reads_options rest' (insert name seen) c1 c given"
      using "2.IH"(2) False by blast
    from reads_options_value [OF this r(6,3,2,5)] r(4) show ?thesis by blast
  qed
qed

lemma ParseUnsigned_Inl: "ParseUnsigned v d = Inl e \<Longrightarrow> \<exists>m. e = MinerConfigException m"
  by (auto simp: ParseUnsigned_def rbind_Inl_iff split: option.splits prod.splits)

lemma number_errors:
  "ParseMinerThreadCount v = Inl e \<Longrightarrow> \<exists>m. e = MinerConfigException m"
  "ParseMinerBlockLimit v = Inl e \<Longrightarrow> \<exists>m. e = MinerConfigException m"
  "ParseMinerReportInterval v = Inl e \<Longrightarrow> \<exists>m. e = MinerConfigException m"
  by (auto simp: ParseMinerThreadCount_def ParseMinerBlockLimit_def ParseMinerReportInterval_def rbind_Inl_iff
      dest: ParseUnsigned_Inl)

lemma set_option_Inl: "set_option k v c = Inl e \<Longrightarrow> \<exists>m. e = MinerConfigException m"
  by (auto simp: set_option_def Let_def rbind_Inl_iff dest: number_errors split: if_splits)

lemma parse_args_Inl: "parse_args args seen c0 = Inl e \<Longrightarrow> \<exists>m. e = MinerConfigException m"
proof (induction args seen c0 rule: parse_args.induct)
  case (2 name rest seen c0)
  then show ?case
    by (auto simp: rbind_Inl_iff option_error_def dest: set_option_Inl split: if_splits list.splits)
qed simp

section \<open>The file reads as its settings\<close>

text \<open>The setting on a line: none on a blank line or a comment.\<close>

definition line_setting :: "string \<Rightarrow> (string \<times> string) list" where
  "line_setting raw_line =
    (let line = Trim raw_line
     in if line = [] \<or> hd line = CHR ''#'' then []
        else case find_char CHR ''='' line of
          None \<Rightarrow> []
        | Some separator \<Rightarrow> [(Trim (take separator line), Trim (drop (separator + 1) line))])"

lemma parse_line_Inr:
  assumes "parse_line n raw (seen, c0) = Inr (seen', c1)"
  shows "line_setting raw = [] \<and> seen' = seen \<and> c1 = c0 \<or>
    (\<exists>k v. line_setting raw = [(k, v)] \<and> k \<notin> seen \<and> seen' = insert k seen \<and> set_key k v c0 = Inr c1)"
  using assms unfolding parse_line_def line_setting_def at_line_def
  by (auto simp: Let_def rbind_Inr_iff split: if_splits option.splits sum.splits exn.splits)

lemma parse_lines_Inr:
  "parse_lines n ls (seen, c0) = Inr (seen', c) \<Longrightarrow>
    (let given = concat (map line_setting ls)
     in distinct (map fst given) \<and> fst ` set given \<inter> seen = {} \<and> config_reads given c0 c)"
proof (induction ls arbitrary: n seen c0)
  case Nil
  then show ?case by (simp add: config_reads_def reads_Nil)
next
  case (Cons raw ls)
  then obtain seen1 c1 where s: "parse_line n raw (seen, c0) = Inr (seen1, c1)"
    "parse_lines (Suc n) ls (seen1, c1) = Inr (seen', c)"
    by (auto simp: rbind_Inr_iff)
  note IH = Cons.IH [OF s(2)]
  from parse_line_Inr [OF s(1)] show ?case
  proof (elim disjE conjE exE)
    assume "line_setting raw = []" "seen1 = seen" "c1 = c0"
    with IH show ?case by (simp add: Let_def)
  next
    fix k v assume k: "line_setting raw = [(k, v)]" "k \<notin> seen" "seen1 = insert k seen" "set_key k v c0 = Inr c1"
    have g: "k \<notin> fst ` set (concat (map line_setting ls))" using IH k(3) by (auto simp: Let_def)
    have "config_reads ((k, v) # concat (map line_setting ls)) c0 c"
      by (rule config_reads_Cons [OF k(4) _ g]) (use IH in \<open>simp add: Let_def\<close>)
    with IH k g show ?case by (simp add: Let_def)
  qed
qed

lemma parse_line_Inl: "parse_line n raw st = Inl e \<Longrightarrow> \<exists>m. e = ConfigLineError n m"
proof -
  have "\<exists>m. e = MinerConfigException m" if "set_key k v c = Inl e" for k v c e
    using that by (auto simp: set_key_def rbind_Inl_iff dest: number_errors split: if_splits)
  then have key: "\<exists>m. e = ConfigLineError n m" if "at_line n (set_key k v c) = Inl e" for k v c
    using that by (fastforce simp: at_line_def split: sum.splits exn.splits)
  show "parse_line n raw st = Inl e \<Longrightarrow> \<exists>m. e = ConfigLineError n m"
    unfolding parse_line_def
    by (auto simp: Let_def rbind_Inl_iff dest: key split: if_splits option.splits prod.splits)
qed

lemma parse_lines_Inl:
  "parse_lines n ls st = Inl e \<Longrightarrow> \<exists>k m. e = ConfigLineError k m \<and> n \<le> k \<and> k < n + length ls"
proof (induction ls arbitrary: n st)
  case (Cons raw ls)
  from Cons.prems consider "parse_line n raw st = Inl e"
    | st1 where "parse_lines (Suc n) ls st1 = Inl e" by (auto simp: rbind_Inl_iff)
  then show ?case
  proof cases
    case 1
    then show ?thesis using parse_line_Inl by fastforce
  next
    case 2
    from Cons.IH [OF 2] show ?thesis by auto
  qed
qed simp

section \<open>Properties\<close>



text \<open>C28: Every setting of the miner comes from the command line when it is given there, else from the
  configuration file, else it is the default: at most 8 and at least one thread, no block limit, a
  report every 30 seconds. The network and the payout address are given, the thread count is
  positive, and a URL comes with a cookie file, neither of them empty.\<close>

theorem resolved_settings:
  assumes "ResolveMinerConfig (MergeMinerConfig file options) hardware_threads = Inr r"
  shows "Some (rc_network r) = override (mc_network file) (mc_network options) \<and> rc_network r \<noteq> [] \<and>
    Some (rc_payout_address r) = override (mc_payout_address file) (mc_payout_address options) \<and>
    rc_payout_address r \<noteq> [] \<and>
    rc_thread_count r = value_or (override (mc_thread_count file) (mc_thread_count options))
      (max 1 (min 8 hardware_threads)) \<and> 0 < rc_thread_count r \<and>
    rc_block_limit r = value_or (override (mc_block_limit file) (mc_block_limit options)) 0 \<and>
    rc_report_interval r = value_or (override (mc_report_interval file) (mc_report_interval options)) 30 \<and>
    rc_rpc_url r = override (mc_rpc_url file) (mc_rpc_url options) \<and>
    rc_cookie_file r = override (mc_cookie_file file) (mc_cookie_file options) \<and>
    (rc_rpc_url r = None \<longleftrightarrow> rc_cookie_file r = None) \<and> rc_rpc_url r \<noteq> Some [] \<and> rc_cookie_file r \<noteq> Some []"
proof -
  have default: "SelectDefaultMinerThreadCount n = max 1 (min 8 n)" "0 < SelectDefaultMinerThreadCount n" for n
  proof -
    have "n = 0 \<or> 1 \<le> n" by (cases "n = 0") (simp_all add: word_le_nat_alt Suc_le_eq unat_gt_0)
    then show "SelectDefaultMinerThreadCount n = max 1 (min 8 n)" "0 < SelectDefaultMinerThreadCount n"
      by (auto simp: SelectDefaultMinerThreadCount_def max_def min_def word_neq_0_conv)
  qed
  let ?c = "MergeMinerConfig file options"
  have some: "Some (value_or m []) = m" if "value_or m [] \<noteq> []" for m :: "string option"
    using that by (cases m) (simp_all add: value_or_def)
  have pos: "0 < value_or m d" if "m \<noteq> Some 0" "0 < d" for m and d :: u64
    using that by (cases m) (simp_all add: value_or_def word_neq_0_conv)
  have r: "r = \<lparr>rc_network = value_or (mc_network ?c) [], rc_payout_address = value_or (mc_payout_address ?c) [],
      rc_thread_count = value_or (mc_thread_count ?c) (SelectDefaultMinerThreadCount hardware_threads),
      rc_block_limit = value_or (mc_block_limit ?c) 0, rc_report_interval = value_or (mc_report_interval ?c) 30,
      rc_rpc_url = mc_rpc_url ?c, rc_cookie_file = mc_cookie_file ?c\<rparr>"
    and checks: "value_or (mc_network ?c) [] \<noteq> []" "value_or (mc_payout_address ?c) [] \<noteq> []"
      "mc_thread_count ?c \<noteq> Some 0" "mc_rpc_url ?c = None \<longleftrightarrow> mc_cookie_file ?c = None"
      "mc_rpc_url ?c \<noteq> Some []" "mc_cookie_file ?c \<noteq> Some []"
    using assms unfolding ResolveMinerConfig_def
    by (simp_all only: rbind_Inr_iff throw_if_simps throw_ok_simps sum.inject) auto
  note r = r [unfolded MergeMinerConfig_def, simplified]
  note checks = checks [unfolded MergeMinerConfig_def, simplified]
  show ?thesis
    using checks default some [OF checks(1)] some [OF checks(2)] pos [OF checks(3) default(2)]
    by (simp add: r)
qed

theorem resolved_settings_witness:
  "\<exists>r. ResolveMinerConfig (MergeMinerConfig
      (empty_config\<lparr>mc_network := Some ''main'', mc_thread_count := Some 2\<rparr>)
      (empty_config\<lparr>mc_payout_address := Some ''a'', mc_thread_count := Some 4\<rparr>)) 16 = Inr r \<and>
    rc_thread_count r = 4 \<and> rc_network r = ''main''"
proof -
  have "\<exists>r. ResolveMinerConfig (MergeMinerConfig
      (empty_config\<lparr>mc_network := Some ''main'', mc_thread_count := Some 2\<rparr>)
      (empty_config\<lparr>mc_payout_address := Some ''a'', mc_thread_count := Some 4\<rparr>)) 16 = Inr r"
    by (simp add: ResolveMinerConfig_def MergeMinerConfig_def empty_config_def override_def value_or_def)
  then obtain r where r: "ResolveMinerConfig (MergeMinerConfig
      (empty_config\<lparr>mc_network := Some ''main'', mc_thread_count := Some 2\<rparr>)
      (empty_config\<lparr>mc_payout_address := Some ''a'', mc_thread_count := Some 4\<rparr>)) 16 = Inr r" by blast
  from resolved_settings [OF r] r show ?thesis by (simp add: override_def value_or_def empty_config_def)
qed

end
