(* ===== verification/Exceptions.thy ===== *)
theory Exceptions
  imports Submission MiningJob MinerConfig
begin

text \<open>
  Which exceptions the operations of \<open>main\<close> in \<open>src/mine_loop.cpp\<close> can throw: a configuration exception
  never comes from the node, the client, the templates or the candidates.
\<close>

definition config_error :: "exn \<Rightarrow> bool" where
  "config_error e \<longleftrightarrow> (\<exists>m. e = MinerConfigException m)"

lemma config_error_simps [simp]: "config_error (MinerConfigException m)" "config_error (ConfigLineError n m)"
  by (simp_all add: config_error_def ConfigLineError_def)

abbreviation other_error :: "exn \<Rightarrow> bool" where
  "other_error e \<equiv> \<not> config_error e"

lemma other_errors:
  "is_RpcException e \<Longrightarrow> other_error e" "is_RpcCancelled e \<Longrightarrow> other_error e" "runtime_error e \<Longrightarrow> other_error e"
  "payout_error e \<Longrightarrow> other_error e" "call_failure opts e \<Longrightarrow> other_error e"
  by (auto simp: config_error_def is_RpcException_def is_RpcCancelled_def is_JsonException_def runtime_error_def
      payout_error_def call_failure_def rpc_failure_def)

lemma rpc_throws_other:
  "throws_only other_error (Call C J method params opts)" "throws_only other_error (FromCookieFile read_file path)"
  "throws_only other_error (RpcClient_new C url credentials)" "throws_only other_error (ResolvePayoutAddress C J address opts)"
  by (rule throws_only_mono [OF Call_throws] throws_only_mono [OF FromCookieFile_throws]
      throws_only_mono [OF RpcClient_new_throws] throws_only_mono [OF ResolvePayoutAddress_throws];
      auto dest: other_errors)+

lemma parsers_other:
  "ParseBlockchainInfo J v = Inl e \<Longrightarrow> other_error e" "ParseBlockTemplate J v = Inl e \<Longrightarrow> other_error e"
  "ParseRpcHash J v d = Inl e \<Longrightarrow> other_error e" "ValidateNetworkIdentity network info genesis = Inl e \<Longrightarrow> other_error e"
  "ValidateProofOfWorkTarget network target = Inl e \<Longrightarrow> other_error e"
  using parser_errors [of J v]
  by (auto simp: template_error_def ParseRpcHash_def ValidateNetworkIdentity_def ValidateProofOfWorkTarget_def
      rbind_Inl_iff of_option_def config_error_def split: option.splits if_splits)

lemma startup_queries_throws: "throws_only other_error (startup_queries C J network address fl)"
  unfolding startup_queries_def
  by (intro throws_only_abind rpc_throws_other) (auto dest: parsers_other)

lemma startup_attempt_throws: "throws_only other_error (startup_attempt W J network connection address fl)"
proof -
  have "throws_only other_error (\<lambda>p. let (r, rpc, p) = startup_queries (w_curl W) J network address fl (rpc, p)
      in (case r of Inl e \<Rightarrow> Inl e | Inr payout_script \<Rightarrow> Inr (x payout_script rpc), p))" for rpc x
    unfolding throws_only_def
    by (auto dest: throws_onlyD [OF startup_queries_throws] split: prod.splits sum.splits)
  then show ?thesis
    unfolding startup_attempt_def by (intro throws_only_abind rpc_throws_other)
qed

lemma startup_round_other:
  "startup_round W J network connection address fl p = Inr (Inl e, p') \<Longrightarrow> other_error e"
  unfolding startup_round_def
  by (auto dest: throws_onlyD [OF startup_attempt_throws] split: prod.splits sum.splits bool.splits if_splits)

lemma WaitForStartupRpc_other:
  assumes "WaitForStartupRpc W J network connection address fl p = Some (Inl e, p')"
  shows "other_error e"
  using repeat_until_result [OF assms [unfolded WaitForStartupRpc_def], of "\<lambda>_. True"] startup_round_other by blast

lemma submit_attempt_other: "throws_only other_error (submit_attempt C J candidate height hash fl)"
  by (rule throws_only_mono [OF submit_attempt_throws]) (auto dest: other_errors)

lemma submit_round_other:
  assumes "submit_round W J connection candidate height hash fl q = Inr (Inl e, q')"
  shows "other_error e"
  using assms unfolding submit_round_def
  by (auto simp: act_simps TryReload_no_throw dest: throws_onlyD [OF on_client_throws [OF submit_attempt_other]]
      split: prod.splits sum.splits bool.splits if_splits)

lemma SubmitCandidateReliably_other:
  assumes "SubmitCandidateReliably W J connection candidate height hash fl q = Some (Inl e, q')"
  shows "other_error e"
  using repeat_until_result [OF assms [unfolded SubmitCandidateReliably_def], of "\<lambda>_. True"] submit_round_other by blast

lemma DecodeHex_other:
  assumes "DecodeHex hex field = Inl e"
  shows "other_error e"
proof -
  have d: "other_error e" if "block_HexDigit c field = Inl e" for c e
    using that by (auto simp: block_HexDigit_def digit_or_throw_def config_error_def split: if_splits)
  from assms show ?thesis
    by (auto simp: DecodeHex_def rbind_Inl_iff config_error_def [of "BlockBuildException _"] dest!: rmap_Inl dest: d)
qed

lemma BuildCoinbaseTransaction_other:
  "BuildCoinbaseTransaction height v payout aux extranonce commitment = Inl e \<Longrightarrow> other_error e"
  by (auto simp: BuildCoinbaseTransaction_def ValidateWitnessCommitment_def BuildBip34HeightPrefix_def Let_def
      rbind_Inl_iff config_error_def split: if_splits)

lemma DecodeAndValidate_other:
  assumes "DecodeAndValidateTemplateTransactions t commitment = Inl e"
  shows "other_error e"
proof -
  have d: "other_error e" if "decode_transaction x = Inl e" for x e
    using that DecodeHex_other
    by (cases x) (auto simp: decode_transaction_def rbind_Inl_iff config_error_def [of "BlockBuildException _"])
  from assms show ?thesis
    unfolding DecodeAndValidateTemplateTransactions_def Let_def rbind_Inl_iff throw_if_simps ok_def
    by (elim disjE exE conjE) (auto simp: config_error_def [of "BlockBuildException _"] dest!: rmap_Inl dest: d)
qed

lemma BuildBlockCandidate_other:
  assumes "BuildBlockCandidate t payout extranonce = Inl e"
  shows "other_error e"
  using assms DecodeHex_other BuildCoinbaseTransaction_other DecodeAndValidate_other
  unfolding BuildBlockCandidate_def
  by (auto simp: Let_def rbind_Inl_iff config_error_def [of "BlockBuildException _"])

lemma NextCandidate_other: "NextCandidate job = Inl e \<Longrightarrow> other_error e"
  using BuildBlockCandidate_other
  by (auto simp: NextCandidate_def rbind_Inl_iff Let_def config_error_def [of "MiningJobException _"])

end
