(* ===== verification/Program.thy ===== *)
theory Program
  imports MineSession Exceptions
begin

text \<open>
  The rest of \<open>src/mine_loop.cpp\<close>: the arguments, the shutdown signal, and \<open>main\<close> from its first line to
  the exit code.
\<close>

section \<open>Arguments\<close>

record StartupArguments =
  sa_show_help :: bool
  sa_config :: ResolvedMinerConfig

definition help_only :: StartupArguments where
  "help_only = \<lparr>sa_show_help = True, sa_config = \<lparr>rc_network = [], rc_payout_address = [], rc_thread_count = 0,
    rc_block_limit = 0, rc_report_interval = 0, rc_rpc_url = None, rc_cookie_file = None\<rparr>\<rparr>"

definition resolved :: "'e world_api \<Rightarrow> MinerConfig \<Rightarrow> ('e process, StartupArguments) act" where
  "resolved W config =
    abind (ResolveMinerConfig_default (w_hardware_concurrency W) config) (\<lambda>c.
    aok \<lparr>sa_show_help = False, sa_config = c\<rparr>)"

definition positional :: "string list \<Rightarrow> bool" where
  "positional argv \<longleftrightarrow> take 2 (argv ! 1) \<noteq> ''--''"

text \<open>The legacy forms with four and six arguments.\<close>

definition legacy_config :: "string list \<Rightarrow> MinerConfig res" where
  "legacy_config argv =
    (let explicit_rpc = length argv = 7
     in rbind (ParseMinerThreadCount (argv ! (if explicit_rpc then 5 else 3))) (\<lambda>threads.
        rbind (ParseMinerBlockLimit (argv ! (if explicit_rpc then 6 else 4))) (\<lambda>limit.
        ok (empty_config\<lparr>mc_network := Some (argv ! 1),
          mc_payout_address := Some (argv ! (if explicit_rpc then 4 else 2)),
          mc_thread_count := Some threads, mc_block_limit := Some limit,
          mc_rpc_url := (if explicit_rpc then Some (argv ! 2) else None),
          mc_cookie_file := (if explicit_rpc then Some (argv ! 3) else None)\<rparr>))))"

text \<open>
  The configuration file: the one of the command line, or the default one, which has to exist only
  when there are no arguments. A failing look at the file system is \<open>None\<close>.
\<close>

definition default_config :: "'e world_api \<Rightarrow> bool \<Rightarrow> ('e process, MinerConfig) act" where
  "default_config W require_default = (\<lambda>p.
    case DefaultMinerConfigPath (w_getenv_HOME W) p of
      (Inl (MinerConfigException m), p) \<Rightarrow>
        if require_default then (Inl (MinerConfigException m), p) else (Inr empty_config, p)
    | (Inl e, p) \<Rightarrow> (Inl e, p)
    | (Inr default_path, p) \<Rightarrow>
        abind (eff (w_exists W default_path)) (\<lambda>exists.
        case exists of
          None \<Rightarrow> athrow (MinerConfigException (''unable to inspect default MercaMiner configuration file: '' @ default_path))
        | Some True \<Rightarrow> LoadMinerConfigFile (w_read_file W) default_path
        | Some False \<Rightarrow>
            if require_default then
              athrow (MinerConfigException (''default MercaMiner configuration file not found: '' @ default_path))
            else aok empty_config) p)"

definition ResolveStartupArguments :: "'e world_api \<Rightarrow> string list \<Rightarrow> ('e process, StartupArguments) act" where
  "ResolveStartupArguments W argv =
    (let argc = length argv
     in if (argc = 5 \<or> argc = 7) \<and> positional argv then abind (alift (legacy_config argv)) (resolved W)
        else if argc > 1 \<and> positional argv then
          athrow (MinerConfigException ''invalid positional arguments; use --help for supported forms'')
        else
          abind (alift (ParseMinerCommandLine (tl argv))) (\<lambda>command_line.
          if cl_show_help command_line then aok help_only
          else
            abind (case cl_config_file command_line of
                Some path \<Rightarrow> LoadMinerConfigFile (w_read_file W) path
              | None \<Rightarrow> default_config W (tl argv = [])) (\<lambda>config.
            resolved W (MergeMinerConfig config (cl_overrides command_line)))))"

section \<open>Messages\<close>

definition usage :: "string \<Rightarrow> string" where
  "usage prog =
    ''Usage:'' @ newline @
    ''  '' @ prog @ newline @
    ''  '' @ prog @ '' --config <file> [options]'' @ newline @
    ''  '' @ prog @ '' [--network <network>] [--payout-address <address>] [--threads <count>]'' @
      '' [--block-limit <count>] [--report-interval <seconds>] [--rpc-url <url>] [--cookie-file <file>]'' @ newline @
    newline @ ''Legacy positional forms:'' @ newline @
    ''  '' @ prog @ '' <network> <payout-address> <thread-count> <block-count>'' @ newline @
    ''  '' @ prog @ '' <network> <rpc-url> <cookie-file> <payout-address> <thread-count> <block-count>'' @ newline @
    newline @ ''Default config: ~/.mercaminer/mercaminer.conf'' @ newline @
    ''block-limit 0 means run continuously'' @ newline @
    ''report-interval 0 disables periodic status'' @ newline"

definition session_summary :: "string \<Rightarrow> MiningRuntimeSnapshot \<Rightarrow> string" where
  "session_summary title stats =
    title @ newline @
    ''  accepted blocks: '' @ number (sn_accepted_blocks stats) @ newline @
    ''  stale work: '' @ number (sn_stale_work stats) @ newline @
    ''  rejected blocks: '' @ number (sn_rejected_blocks stats) @ newline @
    ''  session hashes checked: '' @ number (sn_completed_hashes stats) @ newline"

definition startup_banner :: "ResolvedMinerConfig \<Rightarrow> bytes list \<Rightarrow> string" where
  "startup_banner c scanners =
    ''MercaMiner mining started'' @ newline @
    ''  network: '' @ rc_network c @ newline @
    ''  payout address: '' @ rc_payout_address c @ newline @
    ''  worker threads: '' @ to_string (length scanners) @ newline @
    ''  scratchpad memory: '' @ number (ScratchpadBytes scanners div (1024 * 1024)) @ '' MiB'' @ newline @
    ''  block limit: '' @ (if rc_block_limit c = 0 then ''continuous'' else number (rc_block_limit c)) @ newline @
    ''  status interval: '' @
      (if rc_report_interval c = 0 then ''disabled''
       else to_string (unat (rc_report_interval c)) @ (if rc_report_interval c = 1 then '' second'' else '' seconds'')) @ newline"

section \<open>The shutdown signal\<close>

definition HandleShutdownSignal :: "int \<Rightarrow> int \<Rightarrow> int" where
  "HandleShutdownSignal g_shutdown_signal signal = (if g_shutdown_signal = 0 then signal else g_shutdown_signal)"

record shutdown_state =
  g_shutdown_signal :: int
  sd_requested :: bool
  sd_watching :: bool

text \<open>One round of the loop of the thread \<open>ShutdownMonitor\<close>.\<close>

definition ShutdownMonitor_round :: "bool \<Rightarrow> shutdown_state \<Rightarrow> shutdown_state" where
  "ShutdownMonitor_round stop_requested S =
    (if stop_requested then S\<lparr>sd_watching := False\<rparr>
     else if g_shutdown_signal S \<noteq> 0 then S\<lparr>sd_requested := True, sd_watching := False\<rparr>
     else S)"

inductive shutdown_step :: "shutdown_state \<Rightarrow> int option \<Rightarrow> shutdown_state \<Rightarrow> bool" where
  signal: "n \<noteq> 0 \<Longrightarrow>
    shutdown_step S (Some n) (S\<lparr>g_shutdown_signal := HandleShutdownSignal (g_shutdown_signal S) n\<rparr>)"
| monitor: "sd_watching S \<Longrightarrow> shutdown_step S None (ShutdownMonitor_round stop S)"

inductive shutdown_run :: "int list \<Rightarrow> shutdown_state \<Rightarrow> bool" where
  start: "shutdown_run [] \<lparr>g_shutdown_signal = 0, sd_requested = False, sd_watching = True\<rparr>"
| step: "shutdown_run signals S \<Longrightarrow> shutdown_step S label S' \<Longrightarrow>
    shutdown_run (signals @ (case label of None \<Rightarrow> [] | Some n \<Rightarrow> [n])) S'"

definition exit_status :: "int \<Rightarrow> int" where
  "exit_status signal = (if signal \<noteq> 0 then 128 + signal else 0)"

section \<open>The program\<close>

text \<open>What \<open>main\<close> does before it waits for the node; \<open>None\<close> after printing the usage.\<close>

definition open_session :: "'e world_api \<Rightarrow> string list \<Rightarrow>
    ('e process, (ResolvedMinerConfig \<times> NetworkIdentity \<times> RpcConnectionSettings) option) act" where
  "open_session W argv =
    abind (ResolveStartupArguments W argv) (\<lambda>startup.
    let c = sa_config startup in
    if sa_show_help startup then abind (eff (cerr W (usage (hd argv)))) (\<lambda>_. aok None)
    else case FindNetworkIdentity (rc_network c) of
      None \<Rightarrow> athrow (MinerConfigException (''unsupported Mercatura network '' @ quoted (rc_network c)))
    | Some network \<Rightarrow>
        abind (athrow_if (\<not> SupportsDirectPowMining network) (MinerConfigException
          ''Mercatura signet mining is not supported because signet challenge solutions are not implemented'')) (\<lambda>_.
        abind (eff (\<lambda>e. ((), w_store_signal W 0 e))) (\<lambda>_.
        abind (eff (w_install_handlers W)) (\<lambda>installed.
        abind (athrow_if (\<not> installed) (RuntimeError ''unable to install shutdown signal handlers'')) (\<lambda>_.
        abind (case rc_rpc_url c of
            Some url \<Rightarrow> aok \<lparr>rpc_url = url, cookie_file = the (rc_cookie_file c)\<rparr>
          | None \<Rightarrow> DefaultLocalRpcConnection (w_getenv_HOME W) network) (\<lambda>connection.
        aok (Some (c, network, connection))))))))"

text \<open>The handlers at the end of \<open>main\<close>.\<close>

definition report_failure :: "'e world_api \<Rightarrow> string \<Rightarrow> exn \<Rightarrow> ('e process, int) act" where
  "report_failure W prog e = (case e of
      MinerConfigException m \<Rightarrow>
        abind (eff (cerr W (''MercaMiner configuration error: '' @ m @ newline @
          ''Use '' @ quoted (prog @ '' --help'') @ '' for usage.'' @ newline))) (\<lambda>_. aok 2)
    | _ \<Rightarrow>
        abind (eff (cerr W (''MercaMiner mining failed: '' @ what_of e @ newline))) (\<lambda>_. aok 1))"

definition shutdown_complete :: "'e world_api \<Rightarrow> MiningRuntimeSnapshot \<Rightarrow> ('e process, int) act" where
  "shutdown_complete W stats =
    abind (eff (cout W (session_summary ''MercaMiner shutdown complete'' stats))) (\<lambda>_.
    abind (eff (w_load_signal W)) (\<lambda>signal. aok (exit_status signal)))"

definition close_session :: "'e world_api \<Rightarrow> 'e atomic_flag \<Rightarrow> MiningRuntimeStats \<Rightarrow> ('e process, int) act" where
  "close_session W shutdown stats =
    (let final_stats = fst (SnapshotMiningRuntimeStats (\<lambda>e. (stats, e)) ())
     in abind (eff (poll_flag (Some shutdown))) (\<lambda>stop.
        if stop then shutdown_complete W final_stats
        else abind (eff (cout W (session_summary ''Requested block count reached'' final_stats))) (\<lambda>_. aok 0)))"

definition session_of :: "ResolvedMinerConfig \<Rightarrow> NetworkIdentity \<Rightarrow> RpcConnectionSettings \<Rightarrow> StartupRpcState \<Rightarrow>
    'e atomic_flag \<Rightarrow> 'e session" where
  "session_of c network connection startup shutdown =
    \<lparr>se_network = network, se_connection = connection, se_payout_script = su_payout_script startup,
     se_block_limit = rc_block_limit c, se_workers = unat (rc_thread_count c), se_shutdown = shutdown\<rparr>"

text \<open>From the miner to the banner and the reporter, which can throw.\<close>

definition start_miner :: "'e world_api \<Rightarrow> ResolvedMinerConfig \<Rightarrow> ('e process, unit) act" where
  "start_miner W c =
    abind (alift (ParallelCandidateMiner_new (unat (rc_thread_count c)))) (\<lambda>scanners.
    abind (eff (cout W (startup_banner c scanners))) (\<lambda>_.
    if rc_report_interval c \<noteq> 0
    then alift (RuntimeReporter_new (length scanners) (1000 * uint (rc_report_interval c)))
    else aok ()))"

text \<open>The possible exits of \<open>main\<close>: the exit code and what the loop did.\<close>

inductive main_exits :: "'e world_api \<Rightarrow> 'j json_api \<Rightarrow> 'e atomic_flag \<Rightarrow> string list \<Rightarrow> 'e process \<Rightarrow> event list \<Rightarrow> int \<Rightarrow> bool"
  for W J shutdown argv p where
  not_opened: "open_session W argv p = (Inl e, p1) \<Longrightarrow> report_failure W (hd argv) e p1 = (Inr code, p2) \<Longrightarrow>
    main_exits W J shutdown argv p [] code"
| usage: "open_session W argv p = (Inr None, p1) \<Longrightarrow> main_exits W J shutdown argv p [] 0"
| not_started: "open_session W argv p = (Inr (Some (c, network, connection)), p1) \<Longrightarrow>
    WaitForStartupRpc W J network connection (rc_payout_address c) (Some shutdown) p1 = Some (Inl e, p2) \<Longrightarrow>
    report_failure W (hd argv) e p2 = (Inr code, p3) \<Longrightarrow>
    main_exits W J shutdown argv p [] code"
| start_cancelled: "open_session W argv p = (Inr (Some (c, network, connection)), p1) \<Longrightarrow>
    WaitForStartupRpc W J network connection (rc_payout_address c) (Some shutdown) p1 = Some (Inr None, p2) \<Longrightarrow>
    shutdown_complete W (fst (SnapshotMiningRuntimeStats (\<lambda>e. (no_stats, e)) ())) p2 = (Inr code, p3) \<Longrightarrow>
    main_exits W J shutdown argv p [] code"
| no_miner: "open_session W argv p = (Inr (Some (c, network, connection)), p1) \<Longrightarrow>
    WaitForStartupRpc W J network connection (rc_payout_address c) (Some shutdown) p1 = Some (Inr (Some startup), p2) \<Longrightarrow>
    start_miner W c p2 = (Inl e, p3) \<Longrightarrow> report_failure W (hd argv) e p3 = (Inr code, p4) \<Longrightarrow>
    main_exits W J shutdown argv p [] code"
| completed: "open_session W argv p = (Inr (Some (c, network, connection)), p1) \<Longrightarrow>
    WaitForStartupRpc W J network connection (rc_payout_address c) (Some shutdown) p1 = Some (Inr (Some startup), p2) \<Longrightarrow>
    start_miner W c p2 = (Inr (), p3) \<Longrightarrow>
    loop_run W J (session_of c network connection startup shutdown)
      (Outer, no_stats, su_credentials startup, su_rpc startup, p3) events (Left_loop, stats, credentials, rpc, p4) \<Longrightarrow>
    close_session W shutdown stats p4 = (Inr code, p5) \<Longrightarrow>
    main_exits W J shutdown argv p events code"
| aborted: "open_session W argv p = (Inr (Some (c, network, connection)), p1) \<Longrightarrow>
    WaitForStartupRpc W J network connection (rc_payout_address c) (Some shutdown) p1 = Some (Inr (Some startup), p2) \<Longrightarrow>
    start_miner W c p2 = (Inr (), p3) \<Longrightarrow>
    loop_run W J (session_of c network connection startup shutdown)
      (Outer, no_stats, su_credentials startup, su_rpc startup, p3) events (Threw e, stats, credentials, rpc, p4) \<Longrightarrow>
    report_failure W (hd argv) e p4 = (Inr code, p5) \<Longrightarrow>
    main_exits W J shutdown argv p events code"

section \<open>Configuration errors\<close>

lemma ResolveMinerConfig_throws: "ResolveMinerConfig c n = Inl e \<Longrightarrow> config_error e"
  by (auto simp: ResolveMinerConfig_def rbind_Inl_iff)

lemma resolved_throws: "throws_only config_error (resolved W c)"
  unfolding resolved_def ResolveMinerConfig_default_def
  by (intro throws_only_abind) (auto dest: ResolveMinerConfig_throws)

lemma legacy_config_throws: "legacy_config argv = Inl e \<Longrightarrow> config_error e"
  by (auto simp: legacy_config_def Let_def rbind_Inl_iff config_error_def dest: number_errors)

lemma ParseMinerCommandLine_throws: "ParseMinerCommandLine args = Inl e \<Longrightarrow> config_error e"
  unfolding ParseMinerCommandLine_def config_error_def by (rule parse_args_Inl)

lemma ParseMinerConfigText_throws: "ParseMinerConfigText contents = Inl e \<Longrightarrow> config_error e"
  by (auto simp: ParseMinerConfigText_def rbind_Inl_iff dest: parse_lines_Inl)

lemma LoadMinerConfigFile_throws: "throws_only config_error (LoadMinerConfigFile rf path)"
  unfolding LoadMinerConfigFile_def
  by (intro throws_only_abind)
    (auto simp: Let_def intro!: throws_only_abind dest: ParseMinerConfigText_throws split: option.split)

lemma DefaultMinerConfigPath_throws: "throws_only config_error (DefaultMinerConfigPath home)"
  unfolding DefaultMinerConfigPath_def
  by (intro throws_only_abind)
    (auto simp: MinerConfigPathForHome_def rbind_Inl_iff split: option.split)

lemma default_config_throws: "throws_only config_error (default_config W require)"
proof -
  have look: "throws_only config_error (abind (eff (w_exists W path)) (\<lambda>exists.
      case exists of
        None \<Rightarrow> athrow (MinerConfigException (m1 path))
      | Some True \<Rightarrow> LoadMinerConfigFile (w_read_file W) path
      | Some False \<Rightarrow> if require then athrow (MinerConfigException (m2 path)) else aok empty_config))" for path m1 m2
    by (intro throws_only_abind) (auto simp: LoadMinerConfigFile_throws split: option.split bool.split)
  show ?thesis
    unfolding throws_only_def default_config_def
    using throws_onlyD [OF DefaultMinerConfigPath_throws] throws_onlyD [OF look]
    by (auto split: prod.splits sum.splits exn.splits if_splits)
qed

lemma ResolveStartupArguments_throws: "throws_only config_error (ResolveStartupArguments W argv)"
  unfolding ResolveStartupArguments_def Let_def
  by (auto intro!: throws_only_abind resolved_throws LoadMinerConfigFile_throws default_config_throws
      dest: legacy_config_throws ParseMinerCommandLine_throws split: option.split)

section \<open>Resolved arguments\<close>

definition usable :: "ResolvedMinerConfig \<Rightarrow> bool" where
  "usable c \<longleftrightarrow> rc_network c \<noteq> [] \<and> rc_payout_address c \<noteq> [] \<and> 0 < rc_thread_count c \<and>
    (rc_rpc_url c = None \<longleftrightarrow> rc_cookie_file c = None) \<and> rc_rpc_url c \<noteq> Some [] \<and> rc_cookie_file c \<noteq> Some []"

lemma ResolveMinerConfig_usable:
  assumes "ResolveMinerConfig config n = Inr c"
  shows "usable c"
proof -
  have "0 < SelectDefaultMinerThreadCount n"
    by (cases "n = 0") (auto simp: SelectDefaultMinerThreadCount_def word_neq_0_conv)
  moreover have "0 < value_or m d" if "m \<noteq> Some 0" "0 < d" for m and d :: u64
    using that by (cases m) (simp_all add: value_or_def word_neq_0_conv)
  ultimately show ?thesis using assms unfolding ResolveMinerConfig_def usable_def
    by (auto simp: rbind_Inr_iff)
qed

lemma resolved_usable:
  "resolved W config p = (Inr a, p') \<Longrightarrow> \<not> sa_show_help a \<and> usable (sa_config a)"
  by (auto simp: resolved_def ResolveMinerConfig_default_def act_simps dest: ResolveMinerConfig_usable)

lemma ResolveStartupArguments_usable:
  assumes "ResolveStartupArguments W argv p = (Inr a, p')"
  shows "sa_show_help a \<or> usable (sa_config a)"
  using assms unfolding ResolveStartupArguments_def Let_def
  by (auto simp: abind_Inr help_only_def dest: resolved_usable split: if_splits)

lemma open_session_Some:
  assumes "open_session W argv p = (Inr (Some (c, network, connection)), p')"
  shows "usable c \<and> FindNetworkIdentity (rc_network c) = Some network \<and> SupportsDirectPowMining network"
proof -
  obtain a p1 where a: "ResolveStartupArguments W argv p = (Inr a, p1)" and h: "\<not> sa_show_help a" "sa_config a = c"
    and n: "FindNetworkIdentity (rc_network c) = Some network" "SupportsDirectPowMining network"
    using assms unfolding open_session_def Let_def
    by (auto simp: abind_Inr split: if_splits option.splits)
  with ResolveStartupArguments_usable [OF a] show ?thesis by blast
qed

section \<open>Exceptions of the loop\<close>

lemma on_rest_Inl: "on_rest m st = (Inl e, st') \<Longrightarrow> throws_only P m \<Longrightarrow> P e"
  using throws_onlyD [of P "on_rest m"] by simp

lemma prepare_other: "prepare W J ses st = (Inl e, st') \<Longrightarrow> other_error e"
proof -
  have f: "throws_only other_error (FetchCurrentWork C J network fl)" for C :: "'e curl_api" and network fl
    unfolding FetchCurrentWork_def
    by (intro throws_only_abind rpc_throws_other) (auto dest: parsers_other)
  have j: "other_error e" if "MiningJob_new t payout n = Inl e" for t payout n e
    using that by (auto simp: MiningJob_new_def rbind_Inl_iff config_error_def)
  have w: "other_error e" if "LongpollWatcher_new url credentials i previous = Inl e" for url credentials i previous e
    using that by (auto simp: LongpollWatcher_new_def rbind_Inl_iff config_error_def)
  assume "prepare W J ses st = (Inl e, st')"
  then show ?thesis
    unfolding prepare_def Let_def
    by (auto simp: abind_Inl dest: j w on_rest_Inl [OF _ on_client_throws [OF f]] split: if_splits)
qed

lemma recover_other:
  assumes "recover W ses e st = (r, st')" "other_error e"
  shows "caught r \<noteq> Threw e' \<or> other_error e'"
proof (cases r)
  case (Inl e1)
  with assms show ?thesis by (auto simp: recover_def abind_Inl caught_def split: if_splits)
next
  case (Inr c)
  with assms have "c = Outer \<or> c = Left_loop \<or> c = Threw e"
    by (auto simp: recover_def abind_Inr split: if_splits)
  with Inr assms(2) show ?thesis by (auto simp: caught_def)
qed

lemma step_other:
  assumes "loop_step W J ses (c, st) events (c', st')" "place_ok W J ses c" "c = Threw e \<longrightarrow> other_error e" "c' = Threw e"
  shows "other_error e"
  using assms(1)
proof cases
  case (fetch_failed st1 e1 st2 r)
  from recover_other [OF fetch_failed(6) prepare_other [OF fetch_failed(5)], of e] assms(4) fetch_failed(3) show ?thesis by metis
next
  case (overrun job refresh st1 e1 st2 r work h)
  have "other_error e1"
    using overrun(5) by (auto simp: check_extranonce_space_def abind_Inl config_error_def split: if_splits)
  from recover_other [OF overrun(6) this, of e] assms(4) overrun(3) show ?thesis by metis
next
  case (no_candidate job refresh st1 e1 r work h)
  from recover_other [OF no_candidate(6) NextCandidate_other [OF no_candidate(5)], of e] assms(4) no_candidate(3)
  show ?thesis by metis
next
  case (mine_failed job refresh st1 mc job' work stats q h e1 live r)
  from candidate_mined [OF assms(2) [unfolded mine_failed(1)] mine_failed(5,7)] show ?thesis by simp
next
  case (submit_failed job refresh st1 mc job' work stats q h result candidate live seen stats2 q2 e1 q3 r)
  from recover_other [OF submit_failed(11) SubmitCandidateReliably_other [OF submit_failed(10)], of e] assms(4) submit_failed(3)
  show ?thesis by metis
qed (use assms(3,4) in auto)

lemma run_other:
  assumes "loop_run W J ses (Outer, no_stats, q) events (Threw e, st)"
  shows "other_error e"
proof -
  have "c = Threw e \<longrightarrow> other_error e"
    if "loop_run W J ses (Outer, no_stats, q) events (c, st)" for events c st
    using that
  proof (induction "(Outer, no_stats, q)" events "(c, st)" arbitrary: c st)
    case (step events st1 events')
    obtain c1 st1' where s1: "st1 = (c1, st1')" by (metis surj_pair)
    from step_other [OF step(3) [unfolded s1]] run_ok [OF step(1) [unfolded s1]] step(2) [OF s1] show ?case by blast
  qed simp
  with assms show ?thesis by blast
qed

section \<open>The first signal\<close>

lemma shutdown_run_first:
  "shutdown_run signals S \<Longrightarrow>
    g_shutdown_signal S = (case signals of [] \<Rightarrow> 0 | n # _ \<Rightarrow> n) \<and> list_all (\<lambda>n. n \<noteq> 0) signals \<and>
    (sd_requested S \<longrightarrow> signals \<noteq> [])"
proof (induction rule: shutdown_run.induct)
  case (step signals S label S')
  from step.hyps(2) show ?case
  proof cases
    case (signal n)
    with step.IH show ?thesis by (cases signals) (auto simp: HandleShutdownSignal_def)
  next
    case (monitor stop)
    with step.IH show ?thesis by (cases signals) (auto simp: ShutdownMonitor_round_def)
  qed
qed simp

section \<open>What the program does\<close>

lemma report_failure_code:
  "report_failure W prog e p = (Inr code, p') \<Longrightarrow> code = (if config_error e then 2 else 1)"
  by (cases e) (auto simp: report_failure_def act_simps config_error_def)

text \<open>The exit code after a shutdown: that of a signal the program has read, or 0.\<close>

definition shutdown_code :: "'e world_api \<Rightarrow> int \<Rightarrow> bool" where
  "shutdown_code W code \<longleftrightarrow> code = 0 \<or> (\<exists>n e e'. w_load_signal W e = (n, e') \<and> code = exit_status n)"

lemma shutdown_complete_code: "shutdown_complete W stats p = (Inr code, p') \<Longrightarrow> shutdown_code W code"
  by (auto simp: shutdown_complete_def abind_Inr eff_Inr shutdown_code_def)

lemma close_session_code:
  "close_session W shutdown stats p = (Inr code, p') \<Longrightarrow> code = 0 \<or> seen_set (Some shutdown) \<and> shutdown_code W code"
  unfolding close_session_def Let_def
  by (auto simp: abind_Inr dest: eff_poll shutdown_complete_code split: if_splits)

lemma start_miner_other: "start_miner W c p = (Inl e, p') \<Longrightarrow> other_error e"
  by (auto simp: start_miner_def ParallelCandidateMiner_new_def RuntimeReporter_new_def abind_Inl rbind_Inl_iff config_error_def
      split: if_splits)

lemma startup_cancelled:
  "WaitForStartupRpc W J network connection address fl p = Some (Inr None, p') \<Longrightarrow> seen_set fl"
  using WaitForStartupRpc_report by (fastforce simp: startup_report_def)

lemma startup_started:
  "WaitForStartupRpc W J network connection address fl p = Some (Inr (Some st), p') \<Longrightarrow>
    started (w_curl W) J network connection address fl st"
  using WaitForStartupRpc_report by (fastforce simp: startup_report_def)

lemma loop_run_events:
  "loop_run W J ses (Outer, no_stats, q) events (c, st) \<Longrightarrow> list_all (event_ok W J ses) events"
  using run_ok by blast

lemma loop_run_left:
  assumes "loop_run W J ses (Outer, no_stats, q) events (Left_loop, st)"
  shows "seen_set (Some (se_shutdown ses)) \<or>
    se_block_limit ses \<noteq> 0 \<and> outcome_count ACCEPTED events = unat (se_block_limit ses)"
  using run_ok [OF assms] by (auto simp: limit_ok_def)

definition miner_session :: "'e world_api \<Rightarrow> 'j json_api \<Rightarrow> 'e atomic_flag \<Rightarrow> ResolvedMinerConfig \<Rightarrow> 'e session \<Rightarrow> bool" where
  "miner_session W J shutdown c ses \<longleftrightarrow> usable c \<and>
    FindNetworkIdentity (rc_network c) = Some (se_network ses) \<and> SupportsDirectPowMining (se_network ses) \<and>
    (\<exists>startup. started (w_curl W) J (se_network ses) (se_connection ses) (rc_payout_address c) (Some shutdown) startup \<and>
      se_payout_script ses = su_payout_script startup)"

lemma main_session:
  assumes "open_session W argv p = (Inr (Some (c, network, connection)), p1)"
    and "WaitForStartupRpc W J network connection (rc_payout_address c) (Some shutdown) p1 = Some (Inr (Some startup), p2)"
  shows "miner_session W J shutdown c (session_of c network connection startup shutdown)"
  using open_session_Some [OF assms(1)] startup_started [OF assms(2)]
  unfolding miner_session_def session_of_def by auto

section \<open>A sample run of the program\<close>

definition node_argv :: "string list" where
  "node_argv = [''mercaminer-mine'', ''regtest'', ''http://127.0.0.1:27773'', ''.cookie'', ''addr'', ''4'', ''1'']"

definition node_config :: ResolvedMinerConfig where
  "node_config = \<lparr>rc_network = ''regtest'', rc_payout_address = ''addr'', rc_thread_count = 4, rc_block_limit = 1,
    rc_report_interval = 30, rc_rpc_url = Some ''http://127.0.0.1:27773'', rc_cookie_file = Some ''.cookie''\<rparr>"

definition node_boot :: "nat process" where
  "node_boot = \<lparr>curl_global = False, outside = 0\<rparr>"

lemma node_world_simps [simp]:
  "w_hardware_concurrency node_world e = (4, e)" "w_store_signal node_world n e = e"
  "w_install_handlers node_world e = (True, e)" "w_read_file node_world path e = (Some ''u:p'', e)"
  "w_load_signal node_world e = (2, e)"
  by (simp_all add: node_world_def)

lemma node_boot_eff: "f 0 = (x, 0) \<Longrightarrow> eff f node_boot = (Inr x, node_boot)"
  by (simp add: eff_def node_boot_def)

definition node_settings :: MinerConfig where
  "node_settings = empty_config\<lparr>mc_network := Some ''regtest'', mc_payout_address := Some ''addr'',
      mc_thread_count := Some 4, mc_block_limit := Some 1, mc_rpc_url := Some ''http://127.0.0.1:27773'',
      mc_cookie_file := Some ''.cookie''\<rparr>"

lemma node_legacy: "legacy_config node_argv = Inr node_settings"
proof -
  have d: "is_digit CHR ''4''" "is_digit CHR ''1''" by (simp_all add: is_digit_def less_eq_char_def)
  have "from_chars ''4'' = Some (4, [])" "from_chars ''1'' = Some (1, [])"
    by (simp_all add: from_chars_def d decimal_def)
  then have n: "ParseMinerThreadCount ''4'' = Inr 4" "ParseMinerBlockLimit ''1'' = Inr 1"
    by (simp_all add: ParseMinerThreadCount_def ParseMinerBlockLimit_def ParseUnsigned_def)
  have a: "length node_argv = 7" "node_argv ! 1 = ''regtest''" "node_argv ! 2 = ''http://127.0.0.1:27773''"
    "node_argv ! 3 = ''.cookie''" "node_argv ! 4 = ''addr''" "node_argv ! 5 = ''4''" "node_argv ! 6 = ''1''"
    by code_simp+
  show ?thesis by (simp add: legacy_config_def node_settings_def a a(2) [simplified] n Let_def)
qed

lemma node_resolved: "ResolveMinerConfig node_settings 4 = Inr node_config"
  by (simp add: ResolveMinerConfig_def value_or_def empty_config_def node_settings_def node_config_def)

lemma node_arguments:
  "ResolveStartupArguments node_world node_argv node_boot =
    (Inr \<lparr>sa_show_help = False, sa_config = node_config\<rparr>, node_boot)"
proof -
  have c: "positional node_argv" "length node_argv = 7" by (simp_all add: positional_def node_argv_def)
  have "eff (w_hardware_concurrency node_world) node_boot = (Inr 4, node_boot)" by (rule node_boot_eff) simp
  then have "resolved node_world node_settings node_boot = (Inr \<lparr>sa_show_help = False, sa_config = node_config\<rparr>, node_boot)"
    by (simp add: resolved_def ResolveMinerConfig_default_def abind_def node_resolved alift_def aok_def)
  then show ?thesis
    by (simp add: ResolveStartupArguments_def c node_legacy abind_def [of "alift (Inr node_settings)"] alift_def)
qed

lemma node_opened:
  "open_session node_world node_argv node_boot = (Inr (Some (node_config, node_network, node_connection)), node_boot)"
proof -
  have s: "SupportsDirectPowMining node_network"
    by (simp add: SupportsDirectPowMining_def node_network_known)
  have c: "FindNetworkIdentity (rc_network node_config) = Some node_network" "rc_rpc_url node_config = Some (rpc_url node_connection)"
    "the (rc_cookie_file node_config) = cookie_file node_connection"
    by (simp_all add: node_config_def node_network_known node_connection_def)
  have e: "eff (\<lambda>e. ((), w_store_signal node_world 0 e)) node_boot = (Inr (), node_boot)"
    "eff (w_install_handlers node_world) node_boot = (Inr True, node_boot)"
    by (simp_all add: node_boot_eff)
  show ?thesis
    unfolding open_session_def Let_def
    by (subst abind_run(1), rule node_arguments)
      (simp add: c s e [simplified] athrow_if_def cong: RpcConnectionSettings.unfold_congs)
qed

lemma node_started:
  "WaitForStartupRpc node_world node_J node_network node_connection (rc_payout_address node_config) (Some node_flag) node_boot =
    Some (Inr (Some \<lparr>su_credentials = node_credentials, su_rpc = node_client_at 3, su_payout_script = node_script\<rparr>), node_process 3)"
proof -
  have "first_line ''u:p'' = ''u:p''" by code_simp
  moreover have "cookie_line ''u:p''"
    unfolding cookie_line_def by (intro conjI exI [of _ "''u''"] exI [of _ "''p''"]) simp_all
  ultimately have "FromCookieFile (w_read_file node_world) (cookie_file node_connection) node_boot = (Inr node_credentials, node_boot)"
    unfolding FromCookieFile_Inr by (simp add: node_credentials_def node_boot_def)
  moreover have "RpcClient_new node_curl (rpc_url node_connection) node_credentials node_boot = (Inr (node_client_at 0), node_process 0)"
    by (simp add: RpcClient_new_def abind_def athrow_if_def aok_def EnsureCurlInitialized_def eff_def node_boot_def node_connection_def
        node_client_at_def node_process_def)
  moreover have "startup_queries node_curl node_J node_network ''addr'' (Some node_flag) (node_client_at 0, node_process 0) =
      (Inr node_script, node_client_at 3, node_process 3)"
    using node_startup_queries [of "node_process 0" "node_client_at 0"] by simp
  ultimately have "startup_attempt node_world node_J node_network node_connection ''addr'' (Some node_flag) node_boot =
      (Inr \<lparr>su_credentials = node_credentials, su_rpc = node_client_at 3, su_payout_script = node_script\<rparr>, node_process 3)"
    by (simp add: startup_attempt_def abind_def)
  then show ?thesis
    unfolding WaitForStartupRpc_def
    by (subst repeat_until.simps) (simp add: startup_round_def eff_def poll_flag_def node_flag_def node_boot_def node_config_def)
qed

lemma node_exits:
  "\<exists>mc result candidate. main_exits node_world node_J node_flag node_argv node_boot
    [Took_work node_work, Mined node_work mc result candidate] 130"
proof -
  let ?startup = "\<lparr>su_credentials = node_credentials, su_rpc = node_client_at 3, su_payout_script = node_script\<rparr>"
  have ses: "session_of node_config node_network node_connection ?startup node_flag = node_session"
    by (simp add: session_of_def node_session_def node_config_def)
  have m: "start_miner node_world node_config (node_process 3) = (Inr (), node_process 1003)"
    by (simp add: start_miner_def ParallelCandidateMiner_new_def abind_def alift_def eff_def cout_def node_config_def
        RuntimeReporter_new_def)
  obtain mc result candidate stats credentials rpc p where
    run: "loop_run node_world node_J node_session (Outer, no_stats, node_credentials, node_client_at 3, node_process 1003)
      [Took_work node_work, Mined node_work mc result candidate] (Left_loop, stats, credentials, rpc, p\<lparr>outside := 2005\<rparr>)"
    using node_session_run [unfolded node_start_def] by blast
  obtain p' where c: "close_session node_world node_flag stats (p\<lparr>outside := 2005\<rparr>) = (Inr 130, p')"
    by (simp add: close_session_def shutdown_complete_def abind_def eff_def poll_flag_def node_flag_def cout_def Let_def
        aok_def exit_status_def)
  show ?thesis
    by (intro exI) (rule main_exits.completed [OF node_opened node_started m _ c, unfolded ses StartupRpcState.select_convs, OF run])
qed

section \<open>Properties\<close>

text \<open>The arguments, the configuration file and the hardware give either a usable configuration (a network,
  a payout address, at least one thread, a URL only with a cookie file), or the request for help, or
  a configuration exception; no other exception leaves the reading of the arguments.\<close>

theorem ResolveStartupArguments_usable_or_error:
  "case ResolveStartupArguments W argv p of
     (Inr a, p') \<Rightarrow> sa_show_help a \<or> usable (sa_config a)
   | (Inl e, p') \<Rightarrow> \<exists>m. e = MinerConfigException m"
proof -
  obtain r p' where a: "ResolveStartupArguments W argv p = (r, p')" by (metis surj_pair)
  show ?thesis
  proof (cases r)
    case (Inl e)
    from throws_onlyD [OF ResolveStartupArguments_throws a [unfolded Inl]] a Inl show ?thesis
      by (simp add: config_error_def)
  next
    case (Inr args)
    from ResolveStartupArguments_usable [OF a [unfolded Inr]] a Inr show ?thesis by simp
  qed
qed








end
