(* ===== verification/MineOnce.thy ===== *)
theory MineOnce
  imports Submission MiningJob CandidateMiner
begin

text \<open>
  \<open>src/mine_once.cpp\<close>: the program that mines and submits one block on regtest with a single scanner.
  Its \<open>Hex\<close> and \<open>ParseRpcHash\<close> are those of \<open>src/mine_loop.cpp\<close> word for word. A failed assertion of the
  hash ends the process without an exit code: the result \<open>None\<close>.
\<close>

definition ParseRpcHeight_once :: "'j json_api \<Rightarrow> 'j \<Rightarrow> string \<Rightarrow> u64 res" where
  "ParseRpcHeight_once J v description =
    rbind (throw_if (\<not> j_is_integer J v \<and> \<not> j_is_unsigned J v)
      (RuntimeError (description @ '' RPC result is not an integer''))) (\<lambda>_.
    rbind (throw_if (sint (j_i64 J v) < 0) (RuntimeError (description @ '' RPC result is negative''))) (\<lambda>_.
    ok (j_i64 J v)))"

definition print :: "'e world_api \<Rightarrow> string \<Rightarrow> (RpcClient \<times> 'e process, unit) act" where
  "print W message = on_rest (eff (cout W message))"

section \<open>The program\<close>

text \<open>What the node says: the chain, the payout script and the template.\<close>

definition once_fetch :: "'e curl_api \<Rightarrow> 'j json_api \<Rightarrow> NetworkIdentity \<Rightarrow> string \<Rightarrow>
    (RpcClient \<times> 'e process, BlockchainInfo \<times> bytes \<times> BlockTemplate) act" where
  "once_fetch C J network payout_address =
    abind (Call C J ''getblockchaininfo'' (j_mk_array J []) default_options) (\<lambda>v.
    abind (alift (ParseBlockchainInfo J v)) (\<lambda>blockchain.
    abind (Call C J ''getblockhash'' (j_mk_array J [j_mk_int J 0]) default_options) (\<lambda>v.
    abind (alift (ParseRpcHash J v ''getblockhash 0'')) (\<lambda>live_genesis.
    abind (alift (ValidateNetworkIdentity network blockchain live_genesis)) (\<lambda>_.
    abind (ResolvePayoutAddress C J payout_address default_options) (\<lambda>payout_script.
    abind (Call C J ''getblocktemplate'' (j_mk_array J [j_mk_object J [(''rules'', j_mk_array J [j_mk_string J ''segwit''])]])
      default_options) (\<lambda>v.
    abind (alift (ParseBlockTemplate J v)) (\<lambda>block_template.
    abind (alift (ValidateProofOfWorkTarget network (bt_target block_template))) (\<lambda>_.
    abind (athrow_if (bt_previous_block_hash block_template \<noteq> bi_best_block_hash blockchain)
      (RuntimeError ''template previous block does not match current best block'')) (\<lambda>_.
    abind (athrow_if (bt_height block_template \<noteq> bi_blocks blockchain + 1)
      (RuntimeError ''template height is not current chain height plus one'')) (\<lambda>_.
    aok (blockchain, payout_script, block_template))))))))))))"

definition once_banner :: "BlockTemplate \<Rightarrow> MiningCandidate \<Rightarrow> string" where
  "once_banner t work =
    ''Mining Mercatura regtest block'' @ newline @
    ''  height: '' @ to_string (unat (bt_height t)) @ newline @
    ''  previous block: '' @ ToHexBE (bt_previous_block_hash t) @ newline @
    ''  target: '' @ ToHexBE (bt_target t) @ newline @
    ''  nonce range: '' @ to_string (unat (bt_nonce_min t)) @ ''-'' @ to_string (unat (bt_nonce_max t)) @ newline @
    ''  extranonce: '' @ to_string (unat (mc_extranonce work)) @ newline @
    ''  candidate size: '' @ to_string (length (bc_serialized_block (mc_candidate work))) @ '' bytes'' @ newline"

definition once_found :: "'e world_api \<Rightarrow> (ScanResult \<times> BlockCandidate \<times> bytes) option \<Rightarrow>
    (RpcClient \<times> 'e process, (ScanResult \<times> BlockCandidate) option) act" where
  "once_found W mined = (case mined of
      None \<Rightarrow> aok None
    | Some (result, candidate, scratchpad) \<Rightarrow>
        abind (athrow_if (sr_status result = Scanner.CANCELLED) (RuntimeError ''mining unexpectedly cancelled'')) (\<lambda>_.
        abind (athrow_if (sr_status result = EXHAUSTED)
          (RuntimeError ''nonce range exhausted without finding proof of work'')) (\<lambda>_.
        abind (print W (''Proof of work found'' @ newline @
          ''  nonce: '' @ to_string (unat (sr_nonce result)) @ newline @
          ''  MercaHash: '' @ ToHexBE (sr_hash result) @ newline @
          ''  hashes checked: '' @ to_string (unat (sr_hashes_checked result)) @ newline)) (\<lambda>_.
        aok (Some (result, candidate))))))"

definition once_mine :: "'e world_api \<Rightarrow> bytes \<Rightarrow> BlockTemplate \<Rightarrow> (RpcClient \<times> 'e process, (ScanResult \<times> BlockCandidate) option) act" where
  "once_mine W payout_script t =
    abind (alift (MiningJob_new t payout_script (bt_height t))) (\<lambda>job.
    abind (alift (NextCandidate job)) (\<lambda>(work, job).
    abind (print W (once_banner t work)) (\<lambda>_.
    abind (alift (MineBlockCandidate NonceScanner_new (mc_candidate work) (bt_target t) (bt_nonce_min t) (bt_nonce_max t) None))
      (once_found W))))"

definition once_submit :: "'e world_api \<Rightarrow> 'j json_api \<Rightarrow> BlockchainInfo \<Rightarrow> BlockCandidate \<Rightarrow> (RpcClient \<times> 'e process, unit) act" where
  "once_submit W J blockchain candidate =
    (let expected_block_hash = DoubleSha256 (Serialize (bc_header candidate));
         block_hex = Hex (bc_serialized_block candidate)
     in abind (Call (w_curl W) J ''submitblock'' (j_mk_array J [j_mk_string J block_hex]) default_options) (\<lambda>submit_result.
        abind (if \<not> j_is_null J submit_result then
            (if j_is_string J submit_result
             then athrow (RuntimeError (''submitblock rejected block: '' @ j_string J submit_result))
             else athrow (RuntimeError ''submitblock returned unexpected non-null result''))
          else aok ()) (\<lambda>_.
        abind (Call (w_curl W) J ''getblockcount'' (j_mk_array J []) default_options) (\<lambda>v.
        abind (alift (ParseRpcHeight_once J v ''getblockcount'')) (\<lambda>new_height.
        abind (Call (w_curl W) J ''getbestblockhash'' (j_mk_array J []) default_options) (\<lambda>v.
        abind (alift (ParseRpcHash J v ''getbestblockhash'')) (\<lambda>new_best.
        abind (athrow_if (new_height \<noteq> bi_blocks blockchain + 1)
          (RuntimeError ''block submission returned success but chain height did not advance by exactly one'')) (\<lambda>_.
        abind (athrow_if (new_best \<noteq> expected_block_hash)
          (RuntimeError ''accepted best-block hash does not match locally computed block ID'')) (\<lambda>_.
        print W (''submitblock accepted'' @ newline @
          ''  new height: '' @ to_string (unat new_height) @ newline @
          ''  block hash: '' @ ToHexBE new_best @ newline @
          ''  locally computed block ID: '' @ ToHexBE expected_block_hash @ newline))))))))))"

definition once_session :: "'e world_api \<Rightarrow> 'j json_api \<Rightarrow> NetworkIdentity \<Rightarrow> string \<Rightarrow> (RpcClient \<times> 'e process, int option) act" where
  "once_session W J network payout_address =
    abind (once_fetch (w_curl W) J network payout_address) (\<lambda>(blockchain, payout_script, t).
    abind (once_mine W payout_script t) (\<lambda>mined.
    case mined of
      None \<Rightarrow> aok None
    | Some (result, candidate) \<Rightarrow> abind (once_submit W J blockchain candidate) (\<lambda>_. aok (Some 0))))"

text \<open>The client is local to the program.\<close>

definition with_client :: "RpcClient \<Rightarrow> (RpcClient \<times> 'e process, 'a) act \<Rightarrow> ('e process, 'a) act" where
  "with_client rpc m = (\<lambda>p. let (r, rpc, p) = m (rpc, p) in (r, p))"

definition once_try :: "'e world_api \<Rightarrow> 'j json_api \<Rightarrow> string list \<Rightarrow> ('e process, int option) act" where
  "once_try W J argv =
    (let explicit_rpc = (length argv = 5);
         payout_address = argv ! (if explicit_rpc then 4 else 2)
     in case FindNetworkIdentity (argv ! 1) of
          None \<Rightarrow> athrow (RuntimeError ''unsupported Mercatura network'')
        | Some network \<Rightarrow>
            abind (if explicit_rpc then aok \<lparr>rpc_url = argv ! 2, cookie_file = argv ! 3\<rparr>
                   else DefaultLocalRpcConnection (w_getenv_HOME W) network) (\<lambda>connection.
            abind (FromCookieFile (w_read_file W) (cookie_file connection)) (\<lambda>credentials.
            abind (RpcClient_new (w_curl W) (rpc_url connection) credentials) (\<lambda>rpc.
            with_client rpc (once_session W J network payout_address)))))"

definition once_usage :: "string \<Rightarrow> string" where
  "once_usage prog =
    ''Usage:'' @ newline @
    ''  '' @ prog @ '' <network> <payout-address>'' @ newline @
    ''  '' @ prog @ '' <network> <rpc-url> <cookie-file> <payout-address>'' @ newline"

definition MineOnce_main :: "'e world_api \<Rightarrow> 'j json_api \<Rightarrow> string list \<Rightarrow> ('e process, int option) act" where
  "MineOnce_main W J argv =
    (let argc = length argv
     in if argc \<noteq> 3 \<and> argc \<noteq> 5 then abind (eff (cerr W (once_usage (hd argv)))) (\<lambda>_. aok (Some 2))
        else if argv ! 1 \<noteq> ''regtest'' then
          abind (eff (cerr W (''MercaMiner one-shot mining is currently restricted to regtest.'' @ newline))) (\<lambda>_. aok (Some 2))
        else (\<lambda>p. case once_try W J argv p of
            (Inr code, p) \<Rightarrow> (Inr code, p)
          | (Inl e, p) \<Rightarrow>
              abind (eff (cerr W (''MercaMiner mining failed: '' @ what_of e @ newline))) (\<lambda>_. aok (Some 1)) p))"

section \<open>What an exit code of zero means\<close>

lemma default_options_none: "(default_options :: 'e RpcCallOptions) = ShutdownRpcOptions None"
  by (simp add: default_options_def ShutdownRpcOptions_def)

text \<open>The node a template was taken from, and the script it vouched for.\<close>

definition once_fetched :: "'e curl_api \<Rightarrow> 'j json_api \<Rightarrow> NetworkIdentity \<Rightarrow> string \<Rightarrow> BlockchainInfo \<Rightarrow> bytes \<Rightarrow> BlockTemplate \<Rightarrow> bool" where
  "once_fetched C J network address info script t \<longleftrightarrow>
    (\<exists>v w genesis. answered C J None ''getblockchaininfo'' [] v \<and> ParseBlockchainInfo J v = Inr info \<and>
      answered C J None ''getblockhash'' [j_mk_int J 0] w \<and> ParseRpcHash J w ''getblockhash 0'' = Inr genesis \<and>
      ValidateNetworkIdentity network info genesis = Inr ()) \<and>
    (\<exists>v program. answered C J None ''validateaddress'' [j_mk_string J address] v \<and> vouches J v program \<and>
      script = [0x52, 0x20] @ program) \<and>
    (\<exists>v. answered C J None ''getblocktemplate'' [TemplateRequest J] v \<and> ParseBlockTemplate J v = Inr t) \<and>
    ValidateProofOfWorkTarget network (bt_target t) = Inr () \<and>
    bt_previous_block_hash t = bi_best_block_hash info \<and> bt_height t = bi_blocks info + 1"

lemma once_fetch_Inr:
  assumes "once_fetch C J network address st = (Inr (info, script, t), st')"
  shows "once_fetched C J network address info script t"
proof -
  obtain v st1 w st2 genesis st3 u st4 st5 st6 where q:
    "Call C J ''getblockchaininfo'' (j_mk_array J []) default_options st = (Inr v, st1)"
    "ParseBlockchainInfo J v = Inr info"
    "Call C J ''getblockhash'' (j_mk_array J [j_mk_int J 0]) default_options st1 = (Inr w, st2)"
    "ParseRpcHash J w ''getblockhash 0'' = Inr genesis" "ValidateNetworkIdentity network info genesis = Inr ()"
    "ResolvePayoutAddress C J address default_options st3 = (Inr script, st4)"
    "Call C J ''getblocktemplate'' (j_mk_array J [TemplateRequest J]) default_options st5 = (Inr u, st6)"
    "ParseBlockTemplate J u = Inr t" "ValidateProofOfWorkTarget network (bt_target t) = Inr ()"
    "bt_previous_block_hash t = bi_best_block_hash info" "bt_height t = bi_blocks info + 1"
    using assms unfolding once_fetch_def TemplateRequest_def act_simps by (elim exE conjE) auto
  from q(6) obtain x program where a: "Call C J ''validateaddress'' (j_mk_array J [j_mk_string J address])
      default_options st3 = (Inr x, st4)" and p: "vouches J x program" "script = [0x52, 0x20] @ program"
    unfolding ResolvePayoutAddress_def act_simps
    by (elim exE conjE) (auto simp: ParsePayoutAddressResponse_Inr witness_v2_script_def)
  note d = default_options_none
  show ?thesis
    unfolding once_fetched_def
    using answeredI [OF q(1) [unfolded d]] q(2) answeredI [OF q(3) [unfolded d]] q(4,5) answeredI [OF a [unfolded d]] p
      answeredI [OF q(7) [unfolded d]] q(8-11) by blast
qed

text \<open>A template, once taken, is mined to a solved block or not at all; the hash never fails an assertion.\<close>

definition once_solved :: "bytes \<Rightarrow> BlockTemplate \<Rightarrow> ScanResult \<Rightarrow> BlockCandidate \<Rightarrow> bool" where
  "once_solved script t result candidate \<longleftrightarrow> (\<exists>c.
    BuildBlockCandidate t script (EncodeExtranonce64 (bt_height t)) = Inr c \<and>
    bt_nonce_min t \<le> sr_nonce result \<and> sr_nonce result \<le> bt_nonce_max t \<and>
    candidate = ApplySolvedNonce c (sr_nonce result) \<and>
    value_of (UInt256 (mercahash_spec (take 80 (bc_serialized_block candidate)) V1_PARAMS)) \<le> value_of (bt_target t))"

lemma once_mine_Inr:
  assumes "once_mine W script t st = (Inr mined, st')" "bt_nonce_min t \<le> bt_nonce_max t"
  shows "\<exists>result candidate. mined = Some (result, candidate) \<and> once_solved script t result candidate"
proof -
  obtain job work job' m st1 where j: "MiningJob_new t script (bt_height t) = Inr job" "NextCandidate job = Inr (work, job')"
    and m: "MineBlockCandidate NonceScanner_new (mc_candidate work) (bt_target t) (bt_nonce_min t) (bt_nonce_max t) None = Inr m"
    and rest: "once_found W m st1 = (Inr mined, st')"
    using assms(1) unfolding once_mine_def abind_Inr alift_eq by (elim exE conjE) (auto simp: abind_Inr)
  have fresh: "m_block_template job = t" "m_payout_script job = script" "m_next_extranonce job = bt_height t"
    using j(1) by (auto simp: MiningJob_new_def rbind_Inr_iff)
  have c: "BuildBlockCandidate t script (EncodeExtranonce64 (bt_height t)) = Inr (mc_candidate work)"
    using NextCandidate_Inr(3) [OF j(2)] by (simp add: fresh EncodeExtranonce64_eq)
  have pad: "length NonceScanner_new = SCRATCHPAD_BYTES" by (simp add: NonceScanner_new_def)
  obtain r c' pad' where r: "m = Some (r, c', pad')"
    "scan_report (poll_cancelled None None None) (bc_header (mc_candidate work)) (bt_target t)
      (unat (bt_nonce_min t)) (unat (bt_nonce_max t)) r"
    "if sr_status r = FOUND
     then c' = ApplySolvedNonce (mc_candidate work) (sr_nonce r) \<and>
       value_of (UInt256 (mercahash_spec (take 80 (bc_serialized_block c')) V1_PARAMS)) \<le> value_of (bt_target t)
     else c' = mc_candidate work"
    using MineBlockCandidate_result [OF c pad assms(2), of "bt_target t" None] m by auto
  have f: "sr_status r = FOUND" and mined: "mined = Some (r, c')"
    using rest by (cases "sr_status r"; auto simp: once_found_def r(1) abind_Inr)+
  have "bt_nonce_min t \<le> sr_nonce r" "sr_nonce r \<le> bt_nonce_max t"
    using r(2) f by (auto simp: scan_report_def Let_def word_le_nat_alt)
  with f mined r(3) c show ?thesis by (auto simp: once_solved_def)
qed

definition once_confirmed :: "'e curl_api \<Rightarrow> 'j json_api \<Rightarrow> BlockchainInfo \<Rightarrow> BlockCandidate \<Rightarrow> bool" where
  "once_confirmed C J info candidate \<longleftrightarrow>
    (\<exists>v. submit_answer C J None candidate v \<and> j_is_null J v) \<and>
    (\<exists>v w. answered C J None ''getblockcount'' [] v \<and> ParseRpcHeight_once J v ''getblockcount'' = Inr (bi_blocks info + 1) \<and>
      answered C J None ''getbestblockhash'' [] w \<and>
      ParseRpcHash J w ''getbestblockhash'' = Inr (DoubleSha256 (Serialize (bc_header candidate))))"

lemma once_submit_Inr:
  assumes "once_submit W J info candidate st = (Inr u, st')"
  shows "once_confirmed (w_curl W) J info candidate"
proof -
  obtain v st1 w st2 st3 x st4 st5 where q:
    "Call (w_curl W) J ''submitblock'' (j_mk_array J [j_mk_string J (Hex (bc_serialized_block candidate))]) default_options st = (Inr v, st1)"
    "j_is_null J v"
    "Call (w_curl W) J ''getblockcount'' (j_mk_array J []) default_options st2 = (Inr w, st3)"
    "ParseRpcHeight_once J w ''getblockcount'' = Inr (bi_blocks info + 1)"
    "Call (w_curl W) J ''getbestblockhash'' (j_mk_array J []) default_options st4 = (Inr x, st5)"
    "ParseRpcHash J x ''getbestblockhash'' = Inr (DoubleSha256 (Serialize (bc_header candidate)))"
    using assms unfolding once_submit_def Let_def abind_Inr alift_eq athrow_if_Inr by (elim exE conjE) (auto split: if_splits)
  note d = default_options_none
  have "submit_answer (w_curl W) J None candidate v"
    using answeredI [OF q(1) [unfolded d]] by (simp add: submit_answer_def Hex_encode)
  with q answeredI [OF q(3) [unfolded d]] answeredI [OF q(5) [unfolded d]] show ?thesis
    unfolding once_confirmed_def by blast
qed

definition once_done :: "'e curl_api \<Rightarrow> 'j json_api \<Rightarrow> NetworkIdentity \<Rightarrow> string \<Rightarrow> bool" where
  "once_done C J network address \<longleftrightarrow> (\<exists>info script t result candidate.
    once_fetched C J network address info script t \<and> once_solved script t result candidate \<and>
    once_confirmed C J info candidate)"

lemma once_session_Inr:
  assumes "once_session W J network address st = (Inr code, st')"
  shows "code = Some 0 \<and> once_done (w_curl W) J network address"
proof -
  obtain x st1 where f': "once_fetch (w_curl W) J network address st = (Inr x, st1)"
    and rest: "(case x of (info, script, t) \<Rightarrow> abind (once_mine W script t) (\<lambda>mined. case mined of None \<Rightarrow> aok None
      | Some (result, candidate) \<Rightarrow> abind (once_submit W J info candidate) (\<lambda>_. aok (Some 0)))) st1 = (Inr code, st')"
    using assms unfolding once_session_def abind_Inr by blast
  obtain info script t where x: "x = (info, script, t)" by (metis surj_pair)
  note f = f' [unfolded x]
  obtain mined st2 where m: "once_mine W script t st1 = (Inr mined, st2)"
    and s: "(case mined of None \<Rightarrow> aok None
      | Some (result, candidate) \<Rightarrow> abind (once_submit W J info candidate) (\<lambda>_. aok (Some 0))) st2 = (Inr code, st')"
    using rest unfolding x prod.case abind_Inr by (elim exE conjE) (rule that)
  note fetched = once_fetch_Inr [OF f]
  then obtain v where "ParseBlockTemplate J v = Inr t" unfolding once_fetched_def by (elim conjE exE)
  then have "bt_nonce_min t \<le> bt_nonce_max t" by (rule ParseBlockTemplate_nonces)
  from once_mine_Inr [OF m this] obtain result candidate where
    r: "mined = Some (result, candidate)" "once_solved script t result candidate" by blast
  with s have code: "code = Some 0" and "\<exists>u st3. once_submit W J info candidate st2 = (Inr u, st3)"
    by (auto simp: abind_Inr)
  then have "once_confirmed (w_curl W) J info candidate" using once_submit_Inr by blast
  with code fetched r(2) show ?thesis unfolding once_done_def by blast
qed

lemma with_client_run: "with_client rpc m p = (r, p') \<Longrightarrow> \<exists>st'. m (rpc, p) = (r, st')"
  by (auto simp: with_client_def Let_def split: prod.splits)

lemma once_try_Inr:
  assumes "once_try W J argv p = (Inr code, p')"
  shows "code = Some 0 \<and> (\<exists>network. FindNetworkIdentity (argv ! 1) = Some network \<and>
    once_done (w_curl W) J network (argv ! (if length argv = 5 then 4 else 2)))"
proof -
  obtain network rpc p1 where n: "FindNetworkIdentity (argv ! 1) = Some network"
    and s: "with_client rpc (once_session W J network (argv ! (if length argv = 5 then 4 else 2))) p1 = (Inr code, p')"
    using assms unfolding once_try_def Let_def
    by (cases "FindNetworkIdentity (argv ! 1)") (simp, simp only: option.case abind_Inr, blast)
  from with_client_run [OF s] once_session_Inr n show ?thesis by blast
qed

lemma print_then: "\<exists>p'. abind (eff g) (\<lambda>_. aok x) p = (Inr x, p')"
  by (auto simp: abind_def aok_def eff_def split: prod.splits)

section \<open>Properties\<close>

text \<open>C30: The one-shot program always ends with an exit code. The code is 0 only after it mined, for a payout
  address that the node vouched for, a block of a template for the tip the node named, with a nonce
  whose MercaHash meets the target, and the node took the block without a word, then named it as its
  best block at the next height. Wrong arguments give 2, every exception gives 1.\<close>

theorem MineOnce_exits:
  "\<exists>code p'. MineOnce_main W J argv p = (Inr (Some code), p') \<and>
    (if (length argv = 3 \<or> length argv = 5) \<and> argv ! 1 = ''regtest''
     then (if code = 0 then \<exists>network. FindNetworkIdentity ''regtest'' = Some network \<and>
         once_done (w_curl W) J network (last argv)
       else code = 1)
     else code = 2)"
proof (cases "(length argv = 3 \<or> length argv = 5) \<and> argv ! 1 = ''regtest''")
  case False
  then show ?thesis by (auto simp: MineOnce_main_def abind_def aok_def eff_def Let_def split: prod.splits)
next
  case True
  then have m: "MineOnce_main W J argv p = (case once_try W J argv p of
            (Inr code, p) \<Rightarrow> (Inr code, p)
          | (Inl e, p) \<Rightarrow>
              abind (eff (cerr W (''MercaMiner mining failed: '' @ what_of e @ newline))) (\<lambda>_. aok (Some 1)) p)"
    by (auto simp: MineOnce_main_def)
  have address: "argv ! (if length argv = 5 then 4 else 2) = last argv" using True by (cases argv) (auto simp: last_conv_nth)
  obtain r p' where r: "once_try W J argv p = (r, p')" by (metis surj_pair)
  show ?thesis
  proof (cases r)
    case (Inl e)
    obtain p1 where "abind (eff (cerr W (''MercaMiner mining failed: '' @ what_of e @ newline))) (\<lambda>_. aok (Some (1 :: int))) p' =
        (Inr (Some 1), p1)" using print_then [THEN exE] .
    with m r Inl True show ?thesis by simp
  next
    case (Inr code)
    from once_try_Inr [OF r [unfolded Inr], unfolded address] m r Inr True show ?thesis by simp
  qed
qed

text \<open>The two programs read the height of a node differently.\<close>

lemma ParseRpcHeight_differs:
  "ParseRpcHeight (documents parse unparse) (JUnsigned 0x8000000000000000) d = Inr 0x8000000000000000"
  "ParseRpcHeight_once (documents parse unparse) (JUnsigned 0x8000000000000000) d =
    Inl (RuntimeError (d @ '' RPC result is negative''))"
  by (simp_all add: ParseRpcHeight_def ParseRpcHeight_once_def documents_def)

end
