(* ===== verification/NodeProbe.thy ===== *)
theory NodeProbe
  imports MineOnce
begin

text \<open>
  \<open>src/node_probe.cpp\<close>: the program that checks whether a node and its template are usable. Its
  \<open>ParseRpcHash\<close> is that of \<open>src/mine_loop.cpp\<close> word for word.
\<close>

text \<open>A 32-bit number as eight hexadecimal digits, \<open>std::hex\<close> with \<open>setfill('0')\<close> and \<open>setw(8)\<close>.\<close>

definition hex8 :: "u32 \<Rightarrow> string" where
  "hex8 v = map (\<lambda>i. HEX ! unat (drop_bit (28 - 4 * i) v AND 0xf)) [0..<8]"

definition probe_report :: "NetworkIdentity \<Rightarrow> UInt256 \<Rightarrow> BlockchainInfo \<Rightarrow> BlockTemplate \<Rightarrow> string" where
  "probe_report network live_genesis blockchain t =
    ''Mercatura node/template validation passed'' @ newline @
    ''  network: '' @ ni_chain network @ newline @
    ''  RPC port: '' @ to_string (unat (ni_default_rpc_port network)) @ newline @
    ''  genesis: '' @ ToHexBE live_genesis @ newline @
    ''  current height: '' @ to_string (unat (bi_blocks blockchain)) @ newline @
    ''  template height: '' @ to_string (unat (bt_height t)) @ newline @
    ''  previous block: '' @ ToHexBE (bt_previous_block_hash t) @ newline @
    ''  bits: '' @ hex8 (bt_bits t) @ newline @
    ''  target: '' @ ToHexBE (bt_target t) @ newline @
    ''  coinbase value: '' @ to_string (unat (bt_coinbase_value t)) @ '' base units'' @ newline @
    ''  transactions: '' @ to_string (length (bt_transactions t)) @ newline @
    ''  nonce range: '' @ hex8 (bt_nonce_min t) @ ''-'' @ hex8 (bt_nonce_max t) @ newline @
    ''  serialized size limit: '' @ to_string (unat (bt_size_limit t)) @ '' bytes'' @ newline"

definition probe_session :: "'e world_api \<Rightarrow> 'j json_api \<Rightarrow> NetworkIdentity \<Rightarrow> (RpcClient \<times> 'e process, int) act" where
  "probe_session W J network =
    abind (Call (w_curl W) J ''getblockchaininfo'' (j_mk_array J []) default_options) (\<lambda>v.
    abind (alift (ParseBlockchainInfo J v)) (\<lambda>blockchain.
    abind (Call (w_curl W) J ''getblockhash'' (j_mk_array J [j_mk_int J 0]) default_options) (\<lambda>genesis_json.
    abind (alift (ParseRpcHash J genesis_json ''getblockhash 0'')) (\<lambda>live_genesis.
    abind (alift (ValidateNetworkIdentity network blockchain live_genesis)) (\<lambda>_.
    abind (Call (w_curl W) J ''getblocktemplate'' (j_mk_array J [j_mk_object J [(''rules'', j_mk_array J [j_mk_string J ''segwit''])]])
      default_options) (\<lambda>v.
    abind (alift (ParseBlockTemplate J v)) (\<lambda>block_template.
    abind (alift (ValidateProofOfWorkTarget network (bt_target block_template))) (\<lambda>_.
    abind (athrow_if (bt_previous_block_hash block_template \<noteq> bi_best_block_hash blockchain)
      (RuntimeError ''getblocktemplate previousblockhash does not match current best block'')) (\<lambda>_.
    abind (print W (probe_report network live_genesis blockchain block_template)) (\<lambda>_.
    aok 0))))))))))"

definition probe_try :: "'e world_api \<Rightarrow> 'j json_api \<Rightarrow> string list \<Rightarrow> NetworkIdentity \<Rightarrow> ('e process, int) act" where
  "probe_try W J argv network =
    abind (if length argv = 2 then DefaultLocalRpcConnection (w_getenv_HOME W) network
           else aok \<lparr>rpc_url = argv ! 2, cookie_file = argv ! 3\<rparr>) (\<lambda>connection.
    abind (FromCookieFile (w_read_file W) (cookie_file connection)) (\<lambda>credentials.
    abind (RpcClient_new (w_curl W) (rpc_url connection) credentials) (\<lambda>rpc.
    with_client rpc (probe_session W J network))))"

definition probe_usage :: "string \<Rightarrow> string" where
  "probe_usage prog =
    ''Usage:'' @ newline @
    ''  '' @ prog @ '' <network>'' @ newline @
    ''  '' @ prog @ '' <network> <rpc-url> <cookie-file>'' @ newline"

definition NodeProbe_main :: "'e world_api \<Rightarrow> 'j json_api \<Rightarrow> string list \<Rightarrow> ('e process, int) act" where
  "NodeProbe_main W J argv =
    (let argc = length argv
     in if argc \<noteq> 2 \<and> argc \<noteq> 4 then abind (eff (cerr W (probe_usage (hd argv)))) (\<lambda>_. aok 2)
        else case FindNetworkIdentity (argv ! 1) of
          None \<Rightarrow> abind (eff (cerr W (''Unsupported Mercatura network: '' @ argv ! 1 @ newline))) (\<lambda>_. aok 2)
        | Some network \<Rightarrow> (\<lambda>p. case probe_try W J argv network p of
            (Inr code, p) \<Rightarrow> (Inr code, p)
          | (Inl e, p) \<Rightarrow>
              abind (eff (cerr W (''MercaMiner node validation failed: '' @ what_of e @ newline))) (\<lambda>_. aok 1) p))"

section \<open>What the program says\<close>

definition probed :: "'e curl_api \<Rightarrow> 'j json_api \<Rightarrow> NetworkIdentity \<Rightarrow> bool" where
  "probed C J network \<longleftrightarrow> (\<exists>v info w genesis u t.
    answered C J None ''getblockchaininfo'' [] v \<and> ParseBlockchainInfo J v = Inr info \<and>
    answered C J None ''getblockhash'' [j_mk_int J 0] w \<and> ParseRpcHash J w ''getblockhash 0'' = Inr genesis \<and>
    ValidateNetworkIdentity network info genesis = Inr () \<and>
    answered C J None ''getblocktemplate'' [TemplateRequest J] u \<and> ParseBlockTemplate J u = Inr t \<and>
    ValidateProofOfWorkTarget network (bt_target t) = Inr () \<and> bt_previous_block_hash t = bi_best_block_hash info)"

lemma probe_session_Inr:
  assumes "probe_session W J network st = (Inr code, st')"
  shows "code = 0 \<and> probed (w_curl W) J network"
proof -
  obtain v st1 info w st2 genesis st3 u st4 t where q:
    "Call (w_curl W) J ''getblockchaininfo'' (j_mk_array J []) default_options st = (Inr v, st1)"
    "ParseBlockchainInfo J v = Inr info"
    "Call (w_curl W) J ''getblockhash'' (j_mk_array J [j_mk_int J 0]) default_options st1 = (Inr w, st2)"
    "ParseRpcHash J w ''getblockhash 0'' = Inr genesis" "ValidateNetworkIdentity network info genesis = Inr ()"
    "Call (w_curl W) J ''getblocktemplate'' (j_mk_array J [TemplateRequest J]) default_options st3 = (Inr u, st4)"
    "ParseBlockTemplate J u = Inr t" "ValidateProofOfWorkTarget network (bt_target t) = Inr ()"
    "bt_previous_block_hash t = bi_best_block_hash info" "code = 0"
    using assms unfolding probe_session_def TemplateRequest_def abind_Inr alift_eq athrow_if_Inr by (elim exE conjE) auto
  note d = default_options_none
  show ?thesis
    unfolding probed_def
    using answeredI [OF q(1) [unfolded d]] q(2) answeredI [OF q(3) [unfolded d]] q(4,5)
      answeredI [OF q(6) [unfolded d]] q(7-10) by blast
qed

lemma probe_try_Inr:
  assumes "probe_try W J argv network p = (Inr code, p')"
  shows "code = 0 \<and> probed (w_curl W) J network"
proof -
  obtain rpc p1 where s: "with_client rpc (probe_session W J network) p1 = (Inr code, p')"
    using assms unfolding probe_try_def abind_Inr by blast
  from with_client_run [OF s] probe_session_Inr show ?thesis by blast
qed

text \<open>C40: The probe of a node always ends with an exit code: 2 for wrong arguments or an unknown network, and
  0 only after the node named the chain and genesis block of the network and gave a template that the
  parser accepts, within the proof-of-work limit and on the best block; 1 on any exception.\<close>

theorem NodeProbe_exits:
  "\<exists>code p'. NodeProbe_main W J argv p = (Inr code, p') \<and>
    (if length argv \<noteq> 2 \<and> length argv \<noteq> 4 then code = 2
     else case FindNetworkIdentity (argv ! 1) of
       None \<Rightarrow> code = 2
     | Some network \<Rightarrow> if code = 0 then probed (w_curl W) J network else code = 1)"
proof (cases "length argv \<noteq> 2 \<and> length argv \<noteq> 4 \<or> FindNetworkIdentity (argv ! 1) = None")
  case True
  then obtain message where "NodeProbe_main W J argv = abind (eff (cerr W message)) (\<lambda>_. aok 2)"
    by (cases "length argv \<noteq> 2 \<and> length argv \<noteq> 4") (simp_all add: NodeProbe_main_def)
  with True print_then [of "cerr W message" "2 :: int" p] show ?thesis by auto
next
  case False
  then obtain network where n: "FindNetworkIdentity (argv ! 1) = Some network" by auto
  have m: "NodeProbe_main W J argv p = (case probe_try W J argv network p of
            (Inr code, p) \<Rightarrow> (Inr code, p)
          | (Inl e, p) \<Rightarrow>
              abind (eff (cerr W (''MercaMiner node validation failed: '' @ what_of e @ newline))) (\<lambda>_. aok 1) p)"
    using False n by (auto simp: NodeProbe_main_def)
  obtain r p' where r: "probe_try W J argv network p = (r, p')" by (metis surj_pair)
  show ?thesis
  proof (cases r)
    case (Inl e)
    obtain p1 where "abind (eff (cerr W (''MercaMiner node validation failed: '' @ what_of e @ newline))) (\<lambda>_. aok (1 :: int)) p' =
        (Inr 1, p1)" using print_then [THEN exE] .
    with m r Inl False n show ?thesis by simp
  next
    case (Inr code)
    from probe_try_Inr [OF r [unfolded Inr]] m r Inr False n show ?thesis by simp
  qed
qed

end
