(* ===== verification/Benchmark.thy ===== *)
theory Benchmark
  imports MinerConfig ParallelMiner RuntimeReporter
begin

text \<open>
  \<open>src/benchmark.cpp\<close>: the program that counts hashes for some seconds. The timer thread that sets the
  cancel flag is one of the threads that may store to the flags of \<open>Mine\<close>; the times of the clock are
  arbitrary. An exception that leaves the interval while the timer thread is joinable ends the
  process: the outcome \<open>None\<close>.
\<close>

section \<open>Arguments and candidate\<close>

definition ParseWorkers :: "string \<Rightarrow> u64 res" where
  "ParseWorkers text =
    (let err = RuntimeError ''worker count must be a positive integer''
     in case from_chars text of
          None \<Rightarrow> throw err
        | Some (v, rest) \<Rightarrow> rbind (throw_if (rest \<noteq> [] \<or> v = 0 \<or> v > - 1) err) (\<lambda>_. ok v))"

definition ParseSeconds :: "string \<Rightarrow> u64 res" where
  "ParseSeconds text =
    (let err = RuntimeError ''duration must be between 1 and 3600 seconds''
     in case from_chars text of
          None \<Rightarrow> throw err
        | Some (v, rest) \<Rightarrow> rbind (throw_if (rest \<noteq> [] \<or> v = 0 \<or> v > 3600) err) (\<lambda>_. ok v))"

definition Parse256 :: "string \<Rightarrow> UInt256 res" where
  "Parse256 hex = of_option (RuntimeError ''invalid benchmark uint256 constant'') (FromHexBE hex)"

definition BenchmarkCandidate :: "BlockCandidate res" where
  "BenchmarkCandidate =
    rbind (Parse256 ''8e2308efb3a16b126e69444329cc0ed81bea0596e99db1032ccd750e7028f685'') (\<lambda>previous_block.
    rbind (Parse256 ''15fda1757d333bea6c267ba5fc24cd6d66ba0666e998b894e9d0e95d18125af1'') (\<lambda>merkle_root.
    let header = \<lparr>h_version = 536870912, h_previous_block = previous_block, h_merkle_root = merkle_root,
          h_time = 1789962799, h_bits = 0x207fffff, h_nonce = 0\<rparr>
    in ok \<lparr>bc_header = header,
         bc_coinbase = \<lparr>script_sig = [], serialized_without_witness = [], serialized_with_witness = [],
           txid = UInt256_zero, wtxid = UInt256_zero\<rparr>,
         bc_serialized_block = Serialize header @ [0x00]\<rparr>))"

section \<open>One interval\<close>

record 'd BenchResult =
  br_hashes :: u64
  br_elapsed_seconds :: 'd

inductive RunInterval :: "'d double_ops \<Rightarrow> bytes list \<Rightarrow> 'd BenchResult res option \<Rightarrow> bool" where
  no_candidate: "BenchmarkCandidate = Inl e \<Longrightarrow> RunInterval D pads (Some (Inl e))"
| terminated: "BenchmarkCandidate = Inr candidate \<Longrightarrow>
    Mine pads candidate UInt256_zero 0 0xffffffff (Some False) None None None (Inl e) \<Longrightarrow> RunInterval D pads None"
| ended: "BenchmarkCandidate = Inr candidate \<Longrightarrow>
    Mine pads candidate UInt256_zero 0 0xffffffff (Some False) None None None (Inr (result, candidate')) \<Longrightarrow>
    pr_status result \<noteq> Scanner.CANCELLED \<Longrightarrow>
    RunInterval D pads (Some (Inl (RuntimeError ''benchmark ended before timed cancellation'')))"
| measured: "BenchmarkCandidate = Inr candidate \<Longrightarrow>
    Mine pads candidate UInt256_zero 0 0xffffffff (Some False) None None None (Inr (result, candidate')) \<Longrightarrow>
    pr_status result = Scanner.CANCELLED \<Longrightarrow>
    RunInterval D pads (Some (Inr \<lparr>br_hashes = pr_hashes_checked result, br_elapsed_seconds = d_seconds D (finish - start)\<rparr>))"

section \<open>The program\<close>

definition bench_setup :: "string list \<Rightarrow> (u64 \<times> u64 \<times> bytes list) res" where
  "bench_setup argv =
    rbind (ParseWorkers (argv ! 1)) (\<lambda>workers.
    rbind (ParseSeconds (argv ! 2)) (\<lambda>seconds.
    rbind (ParallelCandidateMiner_new (unat workers)) (\<lambda>miner.
    ok (workers, seconds, miner))))"

definition line_end :: string where
  "line_end = [CHR 0x0A]"

definition bench_banner :: "u64 \<Rightarrow> u64 \<Rightarrow> bytes list \<Rightarrow> string" where
  "bench_banner workers seconds miner =
    ''MercaMiner MercaHash benchmark'' @ line_end @
    ''workers='' @ to_string (unat workers) @ line_end @
    ''scratchpad_mib='' @ to_string (unat (ScratchpadBytes miner div (1024 * 1024))) @ line_end @
    ''warmup_seconds=1'' @ line_end @
    ''measurement_seconds='' @ to_string (unat seconds) @ line_end"

text \<open>\<open>fixed6\<close> prints a \<open>double\<close> with six digits after the point.\<close>

definition bench_report :: "'d double_ops \<Rightarrow> ('d \<Rightarrow> string) \<Rightarrow> u64 \<Rightarrow> 'd BenchResult \<Rightarrow> string" where
  "bench_report D fixed6 workers result =
    (let hashes_per_second = d_div D (d_of_u64 D (br_hashes result)) (br_elapsed_seconds result);
         per_worker = d_div D hashes_per_second (d_of_u64 D workers)
     in ''hashes='' @ to_string (unat (br_hashes result)) @ line_end @
        ''elapsed_seconds='' @ fixed6 (br_elapsed_seconds result) @ line_end @
        ''hashes_per_second='' @ fixed6 hashes_per_second @ line_end @
        ''hashes_per_worker_second='' @ fixed6 per_worker @ line_end)"

definition bench_failed :: "exn \<Rightarrow> string" where
  "bench_failed e = ''MercaMiner benchmark failed: '' @ what_of e @ line_end"

text \<open>
  The possible outcomes: what was written to \<open>std::cout\<close> and \<open>std::cerr\<close>, and the exit code. The
  measurement finds the scratchpads as the warm-up left them.
\<close>

inductive Benchmark_main :: "'d double_ops \<Rightarrow> ('d \<Rightarrow> string) \<Rightarrow> string list \<Rightarrow> (string \<times> string \<times> int) option \<Rightarrow> bool" where
  usage: "length argv \<noteq> 3 \<Longrightarrow>
    Benchmark_main D fixed6 argv (Some ([], ''Usage: '' @ hd argv @ '' <worker-count> <seconds>'' @ line_end, 2))"
| bad_arguments: "length argv = 3 \<Longrightarrow> bench_setup argv = Inl e \<Longrightarrow>
    Benchmark_main D fixed6 argv (Some ([], bench_failed e, 1))"
| warmup_terminated: "length argv = 3 \<Longrightarrow> bench_setup argv = Inr (workers, seconds, miner) \<Longrightarrow>
    RunInterval D miner None \<Longrightarrow> Benchmark_main D fixed6 argv None"
| warmup_failed: "length argv = 3 \<Longrightarrow> bench_setup argv = Inr (workers, seconds, miner) \<Longrightarrow>
    RunInterval D miner (Some (Inl e)) \<Longrightarrow>
    Benchmark_main D fixed6 argv (Some (bench_banner workers seconds miner, bench_failed e, 1))"
| terminated: "length argv = 3 \<Longrightarrow> bench_setup argv = Inr (workers, seconds, miner) \<Longrightarrow>
    RunInterval D miner (Some (Inr warmup)) \<Longrightarrow> miner_ok pads \<Longrightarrow> length pads = length miner \<Longrightarrow>
    RunInterval D pads None \<Longrightarrow> Benchmark_main D fixed6 argv None"
| failed: "length argv = 3 \<Longrightarrow> bench_setup argv = Inr (workers, seconds, miner) \<Longrightarrow>
    RunInterval D miner (Some (Inr warmup)) \<Longrightarrow> miner_ok pads \<Longrightarrow> length pads = length miner \<Longrightarrow>
    RunInterval D pads (Some (Inl e)) \<Longrightarrow>
    Benchmark_main D fixed6 argv (Some (bench_banner workers seconds miner, bench_failed e, 1))"
| measured: "length argv = 3 \<Longrightarrow> bench_setup argv = Inr (workers, seconds, miner) \<Longrightarrow>
    RunInterval D miner (Some (Inr warmup)) \<Longrightarrow> miner_ok pads \<Longrightarrow> length pads = length miner \<Longrightarrow>
    RunInterval D pads (Some (Inr result)) \<Longrightarrow>
    Benchmark_main D fixed6 argv (Some (bench_banner workers seconds miner @ bench_report D fixed6 workers result, [], 0))"

inductive_cases RunIntervalE: "RunInterval D pads out"

section \<open>Properties\<close>

lemma BenchmarkCandidate_ok: "\<exists>c. BenchmarkCandidate = Inr c \<and> candidate_ok c"
proof -
  have "FromHexBE ''8e2308efb3a16b126e69444329cc0ed81bea0596e99db1032ccd750e7028f685'' \<noteq> None"
    "FromHexBE ''15fda1757d333bea6c267ba5fc24cd6d66ba0666e998b894e9d0e95d18125af1'' \<noteq> None"
    by code_simp+
  then show ?thesis
    by (auto simp: BenchmarkCandidate_def Parse256_def of_option_def Let_def candidate_ok_def)
qed

text \<open>An interval measures hashes of distinct nonces, or reports why not; it never ends the process.\<close>

lemma RunInterval_outcome:
  assumes "RunInterval D pads out" "miner_ok pads"
  shows "\<exists>r. out = Some r \<and> (case r of
      Inl e \<Rightarrow> e = RuntimeError ''benchmark ended before timed cancellation''
    | Inr result \<Rightarrow> unat (br_hashes result) \<le> 2 ^ 32 \<and> (\<exists>elapsed. br_elapsed_seconds result = d_seconds D elapsed))"
proof -
  obtain c where c: "BenchmarkCandidate = Inr c" "candidate_ok c" using BenchmarkCandidate_ok by blast
  have o: "\<exists>r candidate'. m = Inr (r, candidate') \<and> mine_outcome c UInt256_zero 0 (unat (0xffffffff :: u32)) r candidate'"
    if "Mine pads c UInt256_zero 0 0xffffffff (Some False) None None None m" for m
    using Mine_outcomes [OF assms(2) c(2) _ that] by simp
  have same: "candidate = c" if "BenchmarkCandidate = Inr candidate" for candidate
    using c(1) that by (metis sum.inject(2))
  show ?thesis using assms(1)
  proof (cases rule: RunInterval.cases)
    case (no_candidate e)
    with c(1) show ?thesis by (metis Inl_Inr_False)
  next
    case (terminated candidate e)
    from o [OF terminated(3) [unfolded same [OF terminated(2)]]] show ?thesis by simp
  next
    case (measured candidate result candidate' finish start)
    from o [OF measured(3) [unfolded same [OF measured(2)]]] measured(1,4) show ?thesis
      by (auto simp: mine_outcome_def Let_def)
  qed simp
qed

lemma bench_setup_Inr:
  assumes "bench_setup argv = Inr (workers, seconds, miner)"
  shows "miner_ok miner" "ParseWorkers (argv ! 1) = Inr workers" "ParseSeconds (argv ! 2) = Inr seconds"
    "1 \<le> unat seconds" "unat seconds \<le> 3600" "length miner = unat workers"
proof -
  show parts: "ParseWorkers (argv ! 1) = Inr workers" "ParseSeconds (argv ! 2) = Inr seconds" "length miner = unat workers"
    using assms by (auto simp: bench_setup_def ParallelCandidateMiner_new_def rbind_Inr_iff)
  have "seconds \<noteq> 0" "seconds \<le> 3600"
    using parts(2) by (auto simp: ParseSeconds_def Let_def rbind_Inr_iff not_less split: option.splits)
  then show "1 \<le> unat seconds" "unat seconds \<le> 3600"
    using unat_gt_0 [of seconds] by (simp_all add: word_le_nat_alt Suc_le_eq)
  have "unat workers \<noteq> 0" "miner = replicate (unat workers) NonceScanner_new"
    using assms by (auto simp: bench_setup_def ParallelCandidateMiner_new_def rbind_Inr_iff)
  then show "miner_ok miner"
    using unsigned_less [of workers] by (auto simp: miner_ok_def NonceScanner_new_def)
qed

text \<open>The benchmark always ends with an exit code, never by an exception while its timer runs. With 0 it
  has printed what it measured: hashes of at most \<open>2 ^ 32\<close> distinct nonces, counted over the time the
  clock gave, on the number of threads and for the 1 to 3600 seconds that were asked for. Otherwise
  it says why on the error stream and ends with 2 for a wrong number of arguments and with 1 else.\<close>

theorem Benchmark_measures:
  assumes "Benchmark_main D fixed6 argv out"
  shows "\<exists>cout cerr code. out = Some (cout, cerr, code) \<and>
    (if code = 0
     then \<exists>workers seconds miner result elapsed.
       ParseWorkers (argv ! 1) = Inr workers \<and> ParseSeconds (argv ! 2) = Inr seconds \<and>
       1 \<le> unat seconds \<and> unat seconds \<le> 3600 \<and> length miner = unat workers \<and> unat (br_hashes result) \<le> 2 ^ 32 \<and>
       br_elapsed_seconds result = d_seconds D elapsed \<and>
       cout = bench_banner workers seconds miner @ bench_report D fixed6 workers result \<and> cerr = []
     else cerr \<noteq> [] \<and> code = (if length argv = 3 then 1 else 2))"
  using assms
proof cases
  case (warmup_terminated workers seconds miner)
  from RunInterval_outcome [OF warmup_terminated(4) bench_setup_Inr(1) [OF warmup_terminated(3)]] show ?thesis by simp
next
  case (terminated workers seconds miner warmup pads)
  from RunInterval_outcome [OF terminated(7,5)] show ?thesis by simp
next
  case (measured workers seconds miner warmup pads result)
  from RunInterval_outcome [OF measured(7,5)] bench_setup_Inr [OF measured(3)] measured(1) show ?thesis by auto
qed (auto simp: bench_failed_def line_end_def)

definition sample_double :: "int double_ops" where
  "sample_double = \<lparr>d_zero = 0, d_of_u64 = uint, d_seconds = (\<lambda>t. t div 1000000000), d_le_zero = (\<lambda>x. x \<le> 0),
    d_div = (div), d_fixed2 = to_string_int\<rparr>"

lemma RunInterval_total:
  assumes "miner_ok pads"
  shows "\<exists>r. RunInterval D pads (Some r)"
proof -
  obtain c where c: "BenchmarkCandidate = Inr c" "candidate_ok c" using BenchmarkCandidate_ok by blast
  obtain m where m: "Mine pads c UInt256_zero 0 0xffffffff (Some False) None None None m"
    using Mine_total [OF assms c(2)] by (metis word_zero_le)
  obtain r c' where "m = Inr (r, c')" using Mine_outcomes [OF assms c(2) _ m] by auto
  with m c(1) RunInterval.ended RunInterval.measured show ?thesis by metis
qed

theorem Benchmark_measures_witness:
  "\<exists>out cout cerr code. Benchmark_main sample_double to_string_int [''bench'', ''4'', ''10''] out \<and>
    out = Some (cout, cerr, code)"
proof -
  let ?argv = "[''bench'', ''4'', ''10'']"
  have d: "is_digit CHR ''4''" "is_digit CHR ''1''" "is_digit CHR ''0''" by (simp_all add: is_digit_def less_eq_char_def)
  have "from_chars ''4'' = Some (4, [])" "from_chars ''10'' = Some (10, [])"
    by (simp_all add: from_chars_def d decimal_def)
  then have "ParseWorkers ''4'' = Inr 4" "ParseSeconds ''10'' = Inr 10"
    by (simp_all add: ParseWorkers_def ParseSeconds_def)
  then have s: "bench_setup ?argv = Inr (4, 10, replicate 4 NonceScanner_new)"
    by (simp add: bench_setup_def ParallelCandidateMiner_new_def)
  note ok = bench_setup_Inr(1) [OF s]
  obtain r where r: "RunInterval sample_double (replicate 4 NonceScanner_new) (Some r)"
    using RunInterval_total [OF ok] by blast
  have l: "length ?argv = 3" by simp
  obtain out where "Benchmark_main sample_double to_string_int ?argv out"
  proof (cases r)
    case (Inl e)
    from Benchmark_main.warmup_failed [OF l s r [unfolded Inl]] that show ?thesis by blast
  next
    case (Inr warmup)
    from Benchmark_main.measured [OF l s r [unfolded Inr] ok refl r [unfolded Inr]] that show ?thesis by blast
  qed
  with Benchmark_measures [OF this] show ?thesis by blast
qed

end
