(* ===== verification/Sha256D64.thy ===== *)
theory Sha256D64
  imports Sha256
begin

text \<open>
  The double SHA-256 of 64-byte blocks in \<open>src/crypto/sha256.cpp\<close>: \<open>TransformD64\<close>, unrolled for three
  compressions whose padding is folded into the round constants, the wrapper that builds it from any
  compression function, and \<open>SHA256D64\<close>, which hashes many blocks with routines for several
  blocks at a time where they are installed. The routines for vector instructions are not part of the
  repository; a pointer to one is an optional function. The code runs on a memory that starts
  where its pointers point.
\<close>

section \<open>\<open>TransformD64\<close>\<close>

text \<open>The three compressions, unrolled as in the source; the variables \<open>a\<close> to \<open>h\<close> after each of them.\<close>

definition D64_first :: "bytes \<Rightarrow> u32 list" where
  "D64_first inp =
    (let a = 0x6a09e667; b = 0xbb67ae85; c = 0x3c6ef372; d = 0xa54ff53a;
         e = 0x510e527f; f = 0x9b05688c; g = 0x1f83d9ab; h = 0x5be0cd19;
         w0 = ReadBE32 inp 0; (d, h) = Round a b c d e f g h (0x428a2f98 + w0);
         w1 = ReadBE32 inp 4; (c, g) = Round h a b c d e f g (0x71374491 + w1);
         w2 = ReadBE32 inp 8; (b, f) = Round g h a b c d e f (0xb5c0fbcf + w2);
         w3 = ReadBE32 inp 12; (a, e) = Round f g h a b c d e (0xe9b5dba5 + w3);
         w4 = ReadBE32 inp 16; (h, d) = Round e f g h a b c d (0x3956c25b + w4);
         w5 = ReadBE32 inp 20; (g, c) = Round d e f g h a b c (0x59f111f1 + w5);
         w6 = ReadBE32 inp 24; (f, b) = Round c d e f g h a b (0x923f82a4 + w6);
         w7 = ReadBE32 inp 28; (e, a) = Round b c d e f g h a (0xab1c5ed5 + w7);
         w8 = ReadBE32 inp 32; (d, h) = Round a b c d e f g h (0xd807aa98 + w8);
         w9 = ReadBE32 inp 36; (c, g) = Round h a b c d e f g (0x12835b01 + w9);
         w10 = ReadBE32 inp 40; (b, f) = Round g h a b c d e f (0x243185be + w10);
         w11 = ReadBE32 inp 44; (a, e) = Round f g h a b c d e (0x550c7dc3 + w11);
         w12 = ReadBE32 inp 48; (h, d) = Round e f g h a b c d (0x72be5d74 + w12);
         w13 = ReadBE32 inp 52; (g, c) = Round d e f g h a b c (0x80deb1fe + w13);
         w14 = ReadBE32 inp 56; (f, b) = Round c d e f g h a b (0x9bdc06a7 + w14);
         w15 = ReadBE32 inp 60; (e, a) = Round b c d e f g h a (0xc19bf174 + w15);
         w0 = w0 + (sigma1 w14 + w9 + sigma0 w1); (d, h) = Round a b c d e f g h (0xe49b69c1 + w0);
         w1 = w1 + (sigma1 w15 + w10 + sigma0 w2); (c, g) = Round h a b c d e f g (0xefbe4786 + w1);
         w2 = w2 + (sigma1 w0 + w11 + sigma0 w3); (b, f) = Round g h a b c d e f (0x0fc19dc6 + w2);
         w3 = w3 + (sigma1 w1 + w12 + sigma0 w4); (a, e) = Round f g h a b c d e (0x240ca1cc + w3);
         w4 = w4 + (sigma1 w2 + w13 + sigma0 w5); (h, d) = Round e f g h a b c d (0x2de92c6f + w4);
         w5 = w5 + (sigma1 w3 + w14 + sigma0 w6); (g, c) = Round d e f g h a b c (0x4a7484aa + w5);
         w6 = w6 + (sigma1 w4 + w15 + sigma0 w7); (f, b) = Round c d e f g h a b (0x5cb0a9dc + w6);
         w7 = w7 + (sigma1 w5 + w0 + sigma0 w8); (e, a) = Round b c d e f g h a (0x76f988da + w7);
         w8 = w8 + (sigma1 w6 + w1 + sigma0 w9); (d, h) = Round a b c d e f g h (0x983e5152 + w8);
         w9 = w9 + (sigma1 w7 + w2 + sigma0 w10); (c, g) = Round h a b c d e f g (0xa831c66d + w9);
         w10 = w10 + (sigma1 w8 + w3 + sigma0 w11); (b, f) = Round g h a b c d e f (0xb00327c8 + w10);
         w11 = w11 + (sigma1 w9 + w4 + sigma0 w12); (a, e) = Round f g h a b c d e (0xbf597fc7 + w11);
         w12 = w12 + (sigma1 w10 + w5 + sigma0 w13); (h, d) = Round e f g h a b c d (0xc6e00bf3 + w12);
         w13 = w13 + (sigma1 w11 + w6 + sigma0 w14); (g, c) = Round d e f g h a b c (0xd5a79147 + w13);
         w14 = w14 + (sigma1 w12 + w7 + sigma0 w15); (f, b) = Round c d e f g h a b (0x06ca6351 + w14);
         w15 = w15 + (sigma1 w13 + w8 + sigma0 w0); (e, a) = Round b c d e f g h a (0x14292967 + w15);
         w0 = w0 + (sigma1 w14 + w9 + sigma0 w1); (d, h) = Round a b c d e f g h (0x27b70a85 + w0);
         w1 = w1 + (sigma1 w15 + w10 + sigma0 w2); (c, g) = Round h a b c d e f g (0x2e1b2138 + w1);
         w2 = w2 + (sigma1 w0 + w11 + sigma0 w3); (b, f) = Round g h a b c d e f (0x4d2c6dfc + w2);
         w3 = w3 + (sigma1 w1 + w12 + sigma0 w4); (a, e) = Round f g h a b c d e (0x53380d13 + w3);
         w4 = w4 + (sigma1 w2 + w13 + sigma0 w5); (h, d) = Round e f g h a b c d (0x650a7354 + w4);
         w5 = w5 + (sigma1 w3 + w14 + sigma0 w6); (g, c) = Round d e f g h a b c (0x766a0abb + w5);
         w6 = w6 + (sigma1 w4 + w15 + sigma0 w7); (f, b) = Round c d e f g h a b (0x81c2c92e + w6);
         w7 = w7 + (sigma1 w5 + w0 + sigma0 w8); (e, a) = Round b c d e f g h a (0x92722c85 + w7);
         w8 = w8 + (sigma1 w6 + w1 + sigma0 w9); (d, h) = Round a b c d e f g h (0xa2bfe8a1 + w8);
         w9 = w9 + (sigma1 w7 + w2 + sigma0 w10); (c, g) = Round h a b c d e f g (0xa81a664b + w9);
         w10 = w10 + (sigma1 w8 + w3 + sigma0 w11); (b, f) = Round g h a b c d e f (0xc24b8b70 + w10);
         w11 = w11 + (sigma1 w9 + w4 + sigma0 w12); (a, e) = Round f g h a b c d e (0xc76c51a3 + w11);
         w12 = w12 + (sigma1 w10 + w5 + sigma0 w13); (h, d) = Round e f g h a b c d (0xd192e819 + w12);
         w13 = w13 + (sigma1 w11 + w6 + sigma0 w14); (g, c) = Round d e f g h a b c (0xd6990624 + w13);
         w14 = w14 + (sigma1 w12 + w7 + sigma0 w15); (f, b) = Round c d e f g h a b (0xf40e3585 + w14);
         w15 = w15 + (sigma1 w13 + w8 + sigma0 w0); (e, a) = Round b c d e f g h a (0x106aa070 + w15);
         w0 = w0 + (sigma1 w14 + w9 + sigma0 w1); (d, h) = Round a b c d e f g h (0x19a4c116 + w0);
         w1 = w1 + (sigma1 w15 + w10 + sigma0 w2); (c, g) = Round h a b c d e f g (0x1e376c08 + w1);
         w2 = w2 + (sigma1 w0 + w11 + sigma0 w3); (b, f) = Round g h a b c d e f (0x2748774c + w2);
         w3 = w3 + (sigma1 w1 + w12 + sigma0 w4); (a, e) = Round f g h a b c d e (0x34b0bcb5 + w3);
         w4 = w4 + (sigma1 w2 + w13 + sigma0 w5); (h, d) = Round e f g h a b c d (0x391c0cb3 + w4);
         w5 = w5 + (sigma1 w3 + w14 + sigma0 w6); (g, c) = Round d e f g h a b c (0x4ed8aa4a + w5);
         w6 = w6 + (sigma1 w4 + w15 + sigma0 w7); (f, b) = Round c d e f g h a b (0x5b9cca4f + w6);
         w7 = w7 + (sigma1 w5 + w0 + sigma0 w8); (e, a) = Round b c d e f g h a (0x682e6ff3 + w7);
         w8 = w8 + (sigma1 w6 + w1 + sigma0 w9); (d, h) = Round a b c d e f g h (0x748f82ee + w8);
         w9 = w9 + (sigma1 w7 + w2 + sigma0 w10); (c, g) = Round h a b c d e f g (0x78a5636f + w9);
         w10 = w10 + (sigma1 w8 + w3 + sigma0 w11); (b, f) = Round g h a b c d e f (0x84c87814 + w10);
         w11 = w11 + (sigma1 w9 + w4 + sigma0 w12); (a, e) = Round f g h a b c d e (0x8cc70208 + w11);
         w12 = w12 + (sigma1 w10 + w5 + sigma0 w13); (h, d) = Round e f g h a b c d (0x90befffa + w12);
         w13 = w13 + (sigma1 w11 + w6 + sigma0 w14); (g, c) = Round d e f g h a b c (0xa4506ceb + w13);
         (f, b) = Round c d e f g h a b (0xbef9a3f7 + (w14 + sigma1 w12 + w7 + sigma0 w15));
         (e, a) = Round b c d e f g h a (0xc67178f2 + (w15 + sigma1 w13 + w8 + sigma0 w0))
     in [a + 0x6a09e667, b + 0xbb67ae85, c + 0x3c6ef372, d + 0xa54ff53a,
       e + 0x510e527f, f + 0x9b05688c, g + 0x1f83d9ab, h + 0x5be0cd19])"

definition D64_second :: "u32 list \<Rightarrow> u32 list" where
  "D64_second t =
    (let a = t ! 0; b = t ! 1; c = t ! 2; d = t ! 3; e = t ! 4; f = t ! 5; g = t ! 6; h = t ! 7;
         (d, h) = Round a b c d e f g h 0xc28a2f98;
         (c, g) = Round h a b c d e f g 0x71374491;
         (b, f) = Round g h a b c d e f 0xb5c0fbcf;
         (a, e) = Round f g h a b c d e 0xe9b5dba5;
         (h, d) = Round e f g h a b c d 0x3956c25b;
         (g, c) = Round d e f g h a b c 0x59f111f1;
         (f, b) = Round c d e f g h a b 0x923f82a4;
         (e, a) = Round b c d e f g h a 0xab1c5ed5;
         (d, h) = Round a b c d e f g h 0xd807aa98;
         (c, g) = Round h a b c d e f g 0x12835b01;
         (b, f) = Round g h a b c d e f 0x243185be;
         (a, e) = Round f g h a b c d e 0x550c7dc3;
         (h, d) = Round e f g h a b c d 0x72be5d74;
         (g, c) = Round d e f g h a b c 0x80deb1fe;
         (f, b) = Round c d e f g h a b 0x9bdc06a7;
         (e, a) = Round b c d e f g h a 0xc19bf374;
         (d, h) = Round a b c d e f g h 0x649b69c1;
         (c, g) = Round h a b c d e f g 0xf0fe4786;
         (b, f) = Round g h a b c d e f 0x0fe1edc6;
         (a, e) = Round f g h a b c d e 0x240cf254;
         (h, d) = Round e f g h a b c d 0x4fe9346f;
         (g, c) = Round d e f g h a b c 0x6cc984be;
         (f, b) = Round c d e f g h a b 0x61b9411e;
         (e, a) = Round b c d e f g h a 0x16f988fa;
         (d, h) = Round a b c d e f g h 0xf2c65152;
         (c, g) = Round h a b c d e f g 0xa88e5a6d;
         (b, f) = Round g h a b c d e f 0xb019fc65;
         (a, e) = Round f g h a b c d e 0xb9d99ec7;
         (h, d) = Round e f g h a b c d 0x9a1231c3;
         (g, c) = Round d e f g h a b c 0xe70eeaa0;
         (f, b) = Round c d e f g h a b 0xfdb1232b;
         (e, a) = Round b c d e f g h a 0xc7353eb0;
         (d, h) = Round a b c d e f g h 0x3069bad5;
         (c, g) = Round h a b c d e f g 0xcb976d5f;
         (b, f) = Round g h a b c d e f 0x5a0f118f;
         (a, e) = Round f g h a b c d e 0xdc1eeefd;
         (h, d) = Round e f g h a b c d 0x0a35b689;
         (g, c) = Round d e f g h a b c 0xde0b7a04;
         (f, b) = Round c d e f g h a b 0x58f4ca9d;
         (e, a) = Round b c d e f g h a 0xe15d5b16;
         (d, h) = Round a b c d e f g h 0x007f3e86;
         (c, g) = Round h a b c d e f g 0x37088980;
         (b, f) = Round g h a b c d e f 0xa507ea32;
         (a, e) = Round f g h a b c d e 0x6fab9537;
         (h, d) = Round e f g h a b c d 0x17406110;
         (g, c) = Round d e f g h a b c 0x0d8cd6f1;
         (f, b) = Round c d e f g h a b 0xcdaa3b6d;
         (e, a) = Round b c d e f g h a 0xc0bbbe37;
         (d, h) = Round a b c d e f g h 0x83613bda;
         (c, g) = Round h a b c d e f g 0xdb48a363;
         (b, f) = Round g h a b c d e f 0x0b02e931;
         (a, e) = Round f g h a b c d e 0x6fd15ca7;
         (h, d) = Round e f g h a b c d 0x521afaca;
         (g, c) = Round d e f g h a b c 0x31338431;
         (f, b) = Round c d e f g h a b 0x6ed41a95;
         (e, a) = Round b c d e f g h a 0x6d437890;
         (d, h) = Round a b c d e f g h 0xc39c91f2;
         (c, g) = Round h a b c d e f g 0x9eccabbd;
         (b, f) = Round g h a b c d e f 0xb5c9a0e6;
         (a, e) = Round f g h a b c d e 0x532fb63c;
         (h, d) = Round e f g h a b c d 0xd2c741c6;
         (g, c) = Round d e f g h a b c 0x07237ea3;
         (f, b) = Round c d e f g h a b 0xa4954b68;
         (e, a) = Round b c d e f g h a 0x4c191d76
     in [t ! 0 + a, t ! 1 + b, t ! 2 + c, t ! 3 + d, t ! 4 + e, t ! 5 + f, t ! 6 + g, t ! 7 + h])"

definition D64_third :: "u32 list \<Rightarrow> u32 list" where
  "D64_third w =
    (let w0 = w ! 0; w1 = w ! 1; w2 = w ! 2; w3 = w ! 3; w4 = w ! 4; w5 = w ! 5; w6 = w ! 6; w7 = w ! 7;
         a = 0x6a09e667; b = 0xbb67ae85; c = 0x3c6ef372; d = 0xa54ff53a;
         e = 0x510e527f; f = 0x9b05688c; g = 0x1f83d9ab; h = 0x5be0cd19;
         (d, h) = Round a b c d e f g h (0x428a2f98 + w0);
         (c, g) = Round h a b c d e f g (0x71374491 + w1);
         (b, f) = Round g h a b c d e f (0xb5c0fbcf + w2);
         (a, e) = Round f g h a b c d e (0xe9b5dba5 + w3);
         (h, d) = Round e f g h a b c d (0x3956c25b + w4);
         (g, c) = Round d e f g h a b c (0x59f111f1 + w5);
         (f, b) = Round c d e f g h a b (0x923f82a4 + w6);
         (e, a) = Round b c d e f g h a (0xab1c5ed5 + w7);
         (d, h) = Round a b c d e f g h 0x5807aa98;
         (c, g) = Round h a b c d e f g 0x12835b01;
         (b, f) = Round g h a b c d e f 0x243185be;
         (a, e) = Round f g h a b c d e 0x550c7dc3;
         (h, d) = Round e f g h a b c d 0x72be5d74;
         (g, c) = Round d e f g h a b c 0x80deb1fe;
         (f, b) = Round c d e f g h a b 0x9bdc06a7;
         (e, a) = Round b c d e f g h a 0xc19bf274;
         w0 = w0 + (sigma0 w1); (d, h) = Round a b c d e f g h (0xe49b69c1 + w0);
         w1 = w1 + (0xa00000 + sigma0 w2); (c, g) = Round h a b c d e f g (0xefbe4786 + w1);
         w2 = w2 + (sigma1 w0 + sigma0 w3); (b, f) = Round g h a b c d e f (0x0fc19dc6 + w2);
         w3 = w3 + (sigma1 w1 + sigma0 w4); (a, e) = Round f g h a b c d e (0x240ca1cc + w3);
         w4 = w4 + (sigma1 w2 + sigma0 w5); (h, d) = Round e f g h a b c d (0x2de92c6f + w4);
         w5 = w5 + (sigma1 w3 + sigma0 w6); (g, c) = Round d e f g h a b c (0x4a7484aa + w5);
         w6 = w6 + (sigma1 w4 + 0x100 + sigma0 w7); (f, b) = Round c d e f g h a b (0x5cb0a9dc + w6);
         w7 = w7 + (sigma1 w5 + w0 + 0x11002000); (e, a) = Round b c d e f g h a (0x76f988da + w7);
         w8 = 0x80000000 + sigma1 w6 + w1; (d, h) = Round a b c d e f g h (0x983e5152 + w8);
         w9 = sigma1 w7 + w2; (c, g) = Round h a b c d e f g (0xa831c66d + w9);
         w10 = sigma1 w8 + w3; (b, f) = Round g h a b c d e f (0xb00327c8 + w10);
         w11 = sigma1 w9 + w4; (a, e) = Round f g h a b c d e (0xbf597fc7 + w11);
         w12 = sigma1 w10 + w5; (h, d) = Round e f g h a b c d (0xc6e00bf3 + w12);
         w13 = sigma1 w11 + w6; (g, c) = Round d e f g h a b c (0xd5a79147 + w13);
         w14 = sigma1 w12 + w7 + 0x400022; (f, b) = Round c d e f g h a b (0x06ca6351 + w14);
         w15 = 0x100 + sigma1 w13 + w8 + sigma0 w0; (e, a) = Round b c d e f g h a (0x14292967 + w15);
         w0 = w0 + (sigma1 w14 + w9 + sigma0 w1); (d, h) = Round a b c d e f g h (0x27b70a85 + w0);
         w1 = w1 + (sigma1 w15 + w10 + sigma0 w2); (c, g) = Round h a b c d e f g (0x2e1b2138 + w1);
         w2 = w2 + (sigma1 w0 + w11 + sigma0 w3); (b, f) = Round g h a b c d e f (0x4d2c6dfc + w2);
         w3 = w3 + (sigma1 w1 + w12 + sigma0 w4); (a, e) = Round f g h a b c d e (0x53380d13 + w3);
         w4 = w4 + (sigma1 w2 + w13 + sigma0 w5); (h, d) = Round e f g h a b c d (0x650a7354 + w4);
         w5 = w5 + (sigma1 w3 + w14 + sigma0 w6); (g, c) = Round d e f g h a b c (0x766a0abb + w5);
         w6 = w6 + (sigma1 w4 + w15 + sigma0 w7); (f, b) = Round c d e f g h a b (0x81c2c92e + w6);
         w7 = w7 + (sigma1 w5 + w0 + sigma0 w8); (e, a) = Round b c d e f g h a (0x92722c85 + w7);
         w8 = w8 + (sigma1 w6 + w1 + sigma0 w9); (d, h) = Round a b c d e f g h (0xa2bfe8a1 + w8);
         w9 = w9 + (sigma1 w7 + w2 + sigma0 w10); (c, g) = Round h a b c d e f g (0xa81a664b + w9);
         w10 = w10 + (sigma1 w8 + w3 + sigma0 w11); (b, f) = Round g h a b c d e f (0xc24b8b70 + w10);
         w11 = w11 + (sigma1 w9 + w4 + sigma0 w12); (a, e) = Round f g h a b c d e (0xc76c51a3 + w11);
         w12 = w12 + (sigma1 w10 + w5 + sigma0 w13); (h, d) = Round e f g h a b c d (0xd192e819 + w12);
         w13 = w13 + (sigma1 w11 + w6 + sigma0 w14); (g, c) = Round d e f g h a b c (0xd6990624 + w13);
         w14 = w14 + (sigma1 w12 + w7 + sigma0 w15); (f, b) = Round c d e f g h a b (0xf40e3585 + w14);
         w15 = w15 + (sigma1 w13 + w8 + sigma0 w0); (e, a) = Round b c d e f g h a (0x106aa070 + w15);
         w0 = w0 + (sigma1 w14 + w9 + sigma0 w1); (d, h) = Round a b c d e f g h (0x19a4c116 + w0);
         w1 = w1 + (sigma1 w15 + w10 + sigma0 w2); (c, g) = Round h a b c d e f g (0x1e376c08 + w1);
         w2 = w2 + (sigma1 w0 + w11 + sigma0 w3); (b, f) = Round g h a b c d e f (0x2748774c + w2);
         w3 = w3 + (sigma1 w1 + w12 + sigma0 w4); (a, e) = Round f g h a b c d e (0x34b0bcb5 + w3);
         w4 = w4 + (sigma1 w2 + w13 + sigma0 w5); (h, d) = Round e f g h a b c d (0x391c0cb3 + w4);
         w5 = w5 + (sigma1 w3 + w14 + sigma0 w6); (g, c) = Round d e f g h a b c (0x4ed8aa4a + w5);
         w6 = w6 + (sigma1 w4 + w15 + sigma0 w7); (f, b) = Round c d e f g h a b (0x5b9cca4f + w6);
         w7 = w7 + (sigma1 w5 + w0 + sigma0 w8); (e, a) = Round b c d e f g h a (0x682e6ff3 + w7);
         w8 = w8 + (sigma1 w6 + w1 + sigma0 w9); (d, h) = Round a b c d e f g h (0x748f82ee + w8);
         w9 = w9 + (sigma1 w7 + w2 + sigma0 w10); (c, g) = Round h a b c d e f g (0x78a5636f + w9);
         w10 = w10 + (sigma1 w8 + w3 + sigma0 w11); (b, f) = Round g h a b c d e f (0x84c87814 + w10);
         w11 = w11 + (sigma1 w9 + w4 + sigma0 w12); (a, e) = Round f g h a b c d e (0x8cc70208 + w11);
         w12 = w12 + (sigma1 w10 + w5 + sigma0 w13); (h, d) = Round e f g h a b c d (0x90befffa + w12);
         w13 = w13 + (sigma1 w11 + w6 + sigma0 w14); (g, c) = Round d e f g h a b c (0xa4506ceb + w13);
         (f, b) = Round c d e f g h a b (0xbef9a3f7 + (w14 + sigma1 w12 + w7 + sigma0 w15));
         (e, a) = Round b c d e f g h a (0xc67178f2 + (w15 + sigma1 w13 + w8 + sigma0 w0))
     in [a + 0x6a09e667, b + 0xbb67ae85, c + 0x3c6ef372, d + 0xa54ff53a,
       e + 0x510e527f, f + 0x9b05688c, g + 0x1f83d9ab, h + 0x5be0cd19])"

definition TransformD64 :: "bytes \<Rightarrow> bytes \<Rightarrow> bytes" where
  "TransformD64 out inp =
    (let v = D64_third (D64_second (D64_first inp));
         out = WriteBE32 out 0 (v ! 0);
         out = WriteBE32 out 4 (v ! 1);
         out = WriteBE32 out 8 (v ! 2);
         out = WriteBE32 out 12 (v ! 3);
         out = WriteBE32 out 16 (v ! 4);
         out = WriteBE32 out 20 (v ! 5);
         out = WriteBE32 out 24 (v ! 6)
     in WriteBE32 out 28 (v ! 7))"

text \<open>The wrapper for a compression function \<open>tr\<close>.\<close>

definition padding1 :: bytes where
  "padding1 = [0x80] @ replicate 61 0 @ [2, 0]"

definition TransformD64Wrapper :: "(u32 list \<Rightarrow> bytes \<Rightarrow> nat \<Rightarrow> u32 list) \<Rightarrow> bytes \<Rightarrow> bytes \<Rightarrow> bytes" where
  "TransformD64Wrapper tr out inp =
    (let buffer2 = replicate 32 0 @ [0x80] @ replicate 29 0 @ [1, 0];
         s = Initialize;
         s = tr s inp 1;
         s = tr s padding1 1;
         buffer2 = WriteBE32 buffer2 0 (s ! 0);
         buffer2 = WriteBE32 buffer2 4 (s ! 1);
         buffer2 = WriteBE32 buffer2 8 (s ! 2);
         buffer2 = WriteBE32 buffer2 12 (s ! 3);
         buffer2 = WriteBE32 buffer2 16 (s ! 4);
         buffer2 = WriteBE32 buffer2 20 (s ! 5);
         buffer2 = WriteBE32 buffer2 24 (s ! 6);
         buffer2 = WriteBE32 buffer2 28 (s ! 7);
         s = Initialize;
         s = tr s buffer2 1;
         out = WriteBE32 out 0 (s ! 0);
         out = WriteBE32 out 4 (s ! 1);
         out = WriteBE32 out 8 (s ! 2);
         out = WriteBE32 out 12 (s ! 3);
         out = WriteBE32 out 16 (s ! 4);
         out = WriteBE32 out 20 (s ! 5);
         out = WriteBE32 out 24 (s ! 6)
     in WriteBE32 out 28 (s ! 7))"

section \<open>The unrolled compressions\<close>

text \<open>A round whose key has the schedule word folded in.\<close>

lemma key_round:
  assumes "\<And>d h. F d h = add_working st (fold round_spec ks (h, a, b, c, d, e, f, g))"
  shows "(let (d, h) = Round a b c d e f g h k in F d h) =
    add_working st (fold round_spec (k # ks) (a, b, c, d, e, f, g, h))"
  using assms by (simp add: Round_eq_spec Let_def del: round_spec.simps split: prod.splits)

lemma folded_round:
  assumes "v = k + W" and "\<And>d h. F d h = add_working st (fold round_spec ks (h, a, b, c, d, e, f, g))"
  shows "(let (d, h) = Round a b c d e f g h v in F d h) =
    add_working st (fold round_spec ((k + W) # ks) (a, b, c, d, e, f, g, h))"
  using assms by (simp add: Round_eq_spec Let_def del: round_spec.simps split: prod.splits)

lemma Initialize_nth: "Initialize ! 0 = 0x6a09e667" "Initialize ! 1 = 0xbb67ae85" "Initialize ! 2 = 0x3c6ef372"
  "Initialize ! 3 = 0xa54ff53a" "Initialize ! 4 = 0x510e527f" "Initialize ! 5 = 0x9b05688c"
  "Initialize ! 6 = 0x1f83d9ab" "Initialize ! 7 = 0x5be0cd19"
  by (simp_all add: Initialize_def)

lemma D64_first_eq: "D64_first inp = compress_spec Initialize inp"
  unfolding D64_first_def compress_spec_def schedule_keys Initialize_nth
  apply (rule let_intro, rule let_intro, rule let_intro, rule let_intro)
  apply (rule let_intro, rule let_intro, rule let_intro, rule let_intro)
  apply (rule unrolled_round, rule schedule_read, simp, simp)+
  apply (rule unrolled_round, rule schedule_step, simp, simp, simp, simp)+
  apply (rule unrolled_last_round, rule schedule_step_inline, simp, simp, simp, simp)+
  apply (simp only: fold_simps id_apply add_working.simps Initialize_nth) apply (simp add: add.commute)
  done

text \<open>The schedule of a block whose words are known, as a list that evaluates.\<close>

definition expand_step :: "u32 list \<Rightarrow> nat \<Rightarrow> u32 list" where
  "expand_step ws t = ws @ [ws ! t + (sigma1 (ws ! (t + 14)) + ws ! (t + 9) + sigma0 (ws ! (t + 1)))]"

lemma expand_words: "foldl expand_step (map M [0..<16]) [0..<n] = map (schedule M) [0..<16 + n]"
proof (induction n)
  case (Suc n)
  have "16 + Suc n = Suc (16 + n)" by simp
  then have u: "[0..<16 + Suc n] = [0..<16 + n] @ [n + 16]" by (simp only: upt_Suc_append zero_le add.commute)
  show ?case
    unfolding u upt_Suc_append [OF le0] foldl_append Suc map_append
    by (simp add: expand_step_def schedule_next)
qed (simp add: schedule_low)

lemma upt_16: "[0..<16] = [0, 1, 2, 3, 4, 5, 6, 7, 8, 9, 10, 11, 12, 13, 14, 15]"
  by (simp add: upt_rec)

text \<open>The words of the block \<open>padding1\<close>, and the keys of its rounds.\<close>

definition padding_words :: "u32 list" where
  "padding_words = [0x80000000, 0, 0, 0, 0, 0, 0, 0, 0, 0, 0, 0, 0, 0, 0, 512]"

definition padding_keys :: "u32 list" where
  "padding_keys = [
    0xc28a2f98, 0x71374491, 0xb5c0fbcf, 0xe9b5dba5, 0x3956c25b, 0x59f111f1, 0x923f82a4, 0xab1c5ed5,
    0xd807aa98, 0x12835b01, 0x243185be, 0x550c7dc3, 0x72be5d74, 0x80deb1fe, 0x9bdc06a7, 0xc19bf374,
    0x649b69c1, 0xf0fe4786, 0x0fe1edc6, 0x240cf254, 0x4fe9346f, 0x6cc984be, 0x61b9411e, 0x16f988fa,
    0xf2c65152, 0xa88e5a6d, 0xb019fc65, 0xb9d99ec7, 0x9a1231c3, 0xe70eeaa0, 0xfdb1232b, 0xc7353eb0,
    0x3069bad5, 0xcb976d5f, 0x5a0f118f, 0xdc1eeefd, 0x0a35b689, 0xde0b7a04, 0x58f4ca9d, 0xe15d5b16,
    0x007f3e86, 0x37088980, 0xa507ea32, 0x6fab9537, 0x17406110, 0x0d8cd6f1, 0xcdaa3b6d, 0xc0bbbe37,
    0x83613bda, 0xdb48a363, 0x0b02e931, 0x6fd15ca7, 0x521afaca, 0x31338431, 0x6ed41a95, 0x6d437890,
    0xc39c91f2, 0x9eccabbd, 0xb5c9a0e6, 0x532fb63c, 0xd2c741c6, 0x07237ea3, 0xa4954b68, 0x4c191d76]"

lemma padding_keys: "map (\<lambda>t. K256 ! t + schedule (\<lambda>i. padding_words ! i) t) [0..<64] = padding_keys"
proof -
  have w: "map (\<lambda>i. padding_words ! i) [0..<16] = padding_words"
    by (rule nth_equalityI) (simp_all add: padding_words_def)
  have "map (schedule (\<lambda>i. padding_words ! i)) [0..<64] = foldl expand_step padding_words [0..<48]"
    using expand_words [of "\<lambda>i. padding_words ! i" 48] unfolding w by simp
  moreover have "map2 (+) K256 (foldl expand_step padding_words [0..<48]) = padding_keys" by code_simp
  moreover have "K256 = map (\<lambda>t. K256 ! t) [0..<64]"
  proof -
    have "length K256 = 64" by (simp add: K256_def)
    with map_nth [of K256] show ?thesis by metis
  qed
  ultimately show ?thesis by (metis (no_types) map2_map_map)
qed

lemma padding1_words: "i < 16 \<Longrightarrow> ReadBE32 padding1 (4 * i) = padding_words ! i"
proof -
  have "\<forall>i \<in> set [0..<16]. ReadBE32 padding1 (4 * i) = padding_words ! i" by code_simp
  then show "i < 16 \<Longrightarrow> ReadBE32 padding1 (4 * i) = padding_words ! i" by simp
qed

lemma compress_padding1: "compress_spec st padding1 = add_working st (fold round_spec padding_keys
    (st ! 0, st ! 1, st ! 2, st ! 3, st ! 4, st ! 5, st ! 6, st ! 7))"
proof -
  have "schedule (\<lambda>i. ReadBE32 padding1 (4 * i)) = schedule (\<lambda>i. padding_words ! i)"
    by (intro ext schedule_cong padding1_words)
  then show ?thesis by (simp only: compress_spec_def padding_keys)
qed

lemma D64_second_eq: "D64_second st = compress_spec st padding1"
  unfolding compress_padding1 D64_second_def padding_keys_def
  apply (rule let_intro, rule let_intro, rule let_intro, rule let_intro)
  apply (rule let_intro, rule let_intro, rule let_intro, rule let_intro)
  apply (rule key_round)+
  apply simp
  done

text \<open>The last block holds the eight words of the first digest and its padding.\<close>

definition final_word :: "u32 list \<Rightarrow> nat \<Rightarrow> u32" where
  "final_word w i = (if i < 8 then w ! i else if i = 8 then 0x80000000 else if i = 15 then 0x100 else 0)"

lemma final_low: "schedule (final_word w) 0 = w ! 0"
  "schedule (final_word w) (Suc 0) = w ! 1"
  "schedule (final_word w) 2 = w ! 2"
  "schedule (final_word w) 3 = w ! 3"
  "schedule (final_word w) 4 = w ! 4"
  "schedule (final_word w) 5 = w ! 5"
  "schedule (final_word w) 6 = w ! 6"
  "schedule (final_word w) 7 = w ! 7"
  "schedule (final_word w) 8 = 0x80000000"
  "schedule (final_word w) 9 = 0"
  "schedule (final_word w) 10 = 0"
  "schedule (final_word w) 11 = 0"
  "schedule (final_word w) 12 = 0"
  "schedule (final_word w) 13 = 0"
  "schedule (final_word w) 14 = 0"
  "schedule (final_word w) 15 = 0x100"
  by (simp_all add: schedule_low final_word_def)

lemma sigma_words: "sigma1 0 = 0" "sigma0 0 = 0" "sigma0 0x80000000 = 0x11002000" "sigma1 0x100 = 0xa00000"
  "sigma0 0x100 = 0x400022"
  by code_simp+

lemma final_16: "w ! 0 + sigma0 (w ! 1) = schedule (final_word w) 16"
  by (rule trans [OF _ schedule_step [of 14 0 9 1 16 "final_word w"]]) (simp_all add: final_low sigma_words add.assoc)

lemma final_17: "w ! 1 + (0xa00000 + sigma0 (w ! 2)) = schedule (final_word w) 17"
  by (rule trans [OF _ schedule_step [of 15 1 10 2 17 "final_word w"]]) (simp_all add: final_low sigma_words add.assoc)

lemma final_18: "w ! 2 + (sigma1 (schedule (final_word w) 16) + sigma0 (w ! 3)) = schedule (final_word w) 18"
  by (rule trans [OF _ schedule_step [of 16 2 11 3 18 "final_word w"]]) (simp_all add: final_low sigma_words add.assoc)

lemma final_19: "w ! 3 + (sigma1 (schedule (final_word w) 17) + sigma0 (w ! 4)) = schedule (final_word w) 19"
  by (rule trans [OF _ schedule_step [of 17 3 12 4 19 "final_word w"]]) (simp_all add: final_low sigma_words add.assoc)

lemma final_20: "w ! 4 + (sigma1 (schedule (final_word w) 18) + sigma0 (w ! 5)) = schedule (final_word w) 20"
  by (rule trans [OF _ schedule_step [of 18 4 13 5 20 "final_word w"]]) (simp_all add: final_low sigma_words add.assoc)

lemma final_21: "w ! 5 + (sigma1 (schedule (final_word w) 19) + sigma0 (w ! 6)) = schedule (final_word w) 21"
  by (rule trans [OF _ schedule_step [of 19 5 14 6 21 "final_word w"]]) (simp_all add: final_low sigma_words add.assoc)

lemma final_22: "w ! 6 + (sigma1 (schedule (final_word w) 20) + 0x100 + sigma0 (w ! 7)) = schedule (final_word w) 22"
  by (rule trans [OF _ schedule_step [of 20 6 15 7 22 "final_word w"]]) (simp_all add: final_low sigma_words add.assoc)

lemma final_23: "w ! 7 + (sigma1 (schedule (final_word w) 21) + schedule (final_word w) 16 + 0x11002000) = schedule (final_word w) 23"
  by (rule trans [OF _ schedule_step [of 21 7 16 8 23 "final_word w"]]) (simp_all add: final_low sigma_words add.assoc)

lemma final_24: "0x80000000 + sigma1 (schedule (final_word w) 22) + schedule (final_word w) 17 = schedule (final_word w) 24"
  by (rule trans [OF _ schedule_step [of 22 8 17 9 24 "final_word w"]]) (simp_all add: final_low sigma_words add.assoc)

lemma final_25: "sigma1 (schedule (final_word w) 23) + schedule (final_word w) 18 = schedule (final_word w) 25"
  by (rule trans [OF _ schedule_step [of 23 9 18 10 25 "final_word w"]]) (simp_all add: final_low sigma_words add.assoc)

lemma final_26: "sigma1 (schedule (final_word w) 24) + schedule (final_word w) 19 = schedule (final_word w) 26"
  by (rule trans [OF _ schedule_step [of 24 10 19 11 26 "final_word w"]]) (simp_all add: final_low sigma_words add.assoc)

lemma final_27: "sigma1 (schedule (final_word w) 25) + schedule (final_word w) 20 = schedule (final_word w) 27"
  by (rule trans [OF _ schedule_step [of 25 11 20 12 27 "final_word w"]]) (simp_all add: final_low sigma_words add.assoc)

lemma final_28: "sigma1 (schedule (final_word w) 26) + schedule (final_word w) 21 = schedule (final_word w) 28"
  by (rule trans [OF _ schedule_step [of 26 12 21 13 28 "final_word w"]]) (simp_all add: final_low sigma_words add.assoc)

lemma final_29: "sigma1 (schedule (final_word w) 27) + schedule (final_word w) 22 = schedule (final_word w) 29"
  by (rule trans [OF _ schedule_step [of 27 13 22 14 29 "final_word w"]]) (simp_all add: final_low sigma_words add.assoc)

lemma final_30: "sigma1 (schedule (final_word w) 28) + schedule (final_word w) 23 + 0x400022 = schedule (final_word w) 30"
  by (rule trans [OF _ schedule_step [of 28 14 23 15 30 "final_word w"]]) (simp_all add: final_low sigma_words add.assoc)

lemma final_31: "0x100 + sigma1 (schedule (final_word w) 29) + schedule (final_word w) 24 + sigma0 (schedule (final_word w) 16) = schedule (final_word w) 31"
  by (rule trans [OF _ schedule_step [of 29 15 24 16 31 "final_word w"]]) (simp_all add: final_low sigma_words add.assoc)

lemmas final_digest_words = final_low(1-8) [symmetric, unfolded One_nat_def [symmetric]]

lemma D64_third_eq: "D64_third w = add_working Initialize
    (fold round_spec (map (\<lambda>t. K256 ! t + schedule (final_word w) t) [0..<64])
      (Initialize ! 0, Initialize ! 1, Initialize ! 2, Initialize ! 3, Initialize ! 4, Initialize ! 5, Initialize ! 6, Initialize ! 7))"
  unfolding D64_third_def schedule_keys Initialize_nth
  apply (rule let_intro, rule let_intro, rule let_intro, rule let_intro)
  apply (rule let_intro, rule let_intro, rule let_intro, rule let_intro)
  apply (rule let_intro, rule let_intro, rule let_intro, rule let_intro)
  apply (rule let_intro, rule let_intro, rule let_intro, rule let_intro)
  apply (rule unrolled_last_round, rule final_digest_words(1))
  apply (rule unrolled_last_round, rule final_digest_words(2))
  apply (rule unrolled_last_round, rule final_digest_words(3))
  apply (rule unrolled_last_round, rule final_digest_words(4))
  apply (rule unrolled_last_round, rule final_digest_words(5))
  apply (rule unrolled_last_round, rule final_digest_words(6))
  apply (rule unrolled_last_round, rule final_digest_words(7))
  apply (rule unrolled_last_round, rule final_digest_words(8))
  apply (rule folded_round, simp add: final_low)+
  apply (rule unrolled_round, rule final_16)
  apply (rule unrolled_round, rule final_17)
  apply (rule unrolled_round, rule final_18)
  apply (rule unrolled_round, rule final_19)
  apply (rule unrolled_round, rule final_20)
  apply (rule unrolled_round, rule final_21)
  apply (rule unrolled_round, rule final_22)
  apply (rule unrolled_round, rule final_23)
  apply (rule unrolled_round, rule final_24)
  apply (rule unrolled_round, rule final_25)
  apply (rule unrolled_round, rule final_26)
  apply (rule unrolled_round, rule final_27)
  apply (rule unrolled_round, rule final_28)
  apply (rule unrolled_round, rule final_29)
  apply (rule unrolled_round, rule final_30)
  apply (rule unrolled_round, rule final_31)
  apply (rule unrolled_round, rule schedule_step, simp, simp, simp, simp)+
  apply (rule unrolled_last_round, rule schedule_step_inline, simp, simp, simp, simp)+
  apply (simp only: fold_simps id_apply add_working.simps Initialize_nth)
  apply (simp add: add.commute)
  done

section \<open>Double SHA-256 of a block\<close>

definition digest_words :: "u32 list \<Rightarrow> bytes" where
  "digest_words = enc_array (\<lambda>x. rev (le_bytes 4 x))"

lemma length_digest_words: "length (digest_words xs) = 4 * length xs"
  by (simp add: digest_words_def be32.length_enc_array)

definition padding2 :: bytes where
  "padding2 = [0x80] @ replicate 29 0 @ [1, 0]"

lemma sha256_of_block: "length m = 64 \<Longrightarrow> sha256_spec m = digest_words (compress_spec (compress_spec Initialize m) padding1)"
proof -
  assume m: "length m = 64"
  have "0x80 # replicate 55 0 @ rev (le_bytes 8 (512 :: u64)) = padding1" by code_simp
  then have p: "sha256_pad m = m @ padding1" using m by (simp add: sha256_pad_def)
  have l: "length padding1 = 64" by (simp add: padding1_def)
  show ?thesis
    using m l by (simp add: sha256_spec_def digest_words_def p absorb_blocks_step)
qed

lemma sha256_of_digest: "length m = 32 \<Longrightarrow> sha256_spec m = digest_words (compress_spec Initialize (m @ padding2))"
proof -
  assume m: "length m = 32"
  have "0x80 # replicate 23 0 @ rev (le_bytes 8 (256 :: u64)) = padding2" by code_simp
  then have p: "sha256_pad m = m @ padding2" using m by (simp add: sha256_pad_def)
  have l: "length padding2 = 32" by (simp add: padding2_def)
  show ?thesis
    using m l by (simp add: sha256_spec_def digest_words_def p absorb_blocks_step)
qed

lemma length_compress [simp]: "length (compress_spec st chunk) = 8"
  using length_Transform_block [of st chunk] by (simp only: Transform_block_eq_spec)

lemma padding2_words:
  assumes "i < 16" "8 \<le> i"
  shows "ReadBE32 padding2 (4 * (i - 8)) = final_word w i"
proof -
  have "\<forall>i \<in> set [8..<16]. ReadBE32 padding2 (4 * (i - 8)) = (if i = 8 then 0x80000000 else if i = 15 then 0x100 else 0)"
    by code_simp
  then have "ReadBE32 padding2 (4 * (i - 8)) = (if i = 8 then 0x80000000 else if i = 15 then 0x100 else 0)"
    by (rule bspec) (use assms in \<open>simp only: set_upt atLeastLessThan_iff simp_thms\<close>)
  then show ?thesis using assms by (simp add: final_word_def)
qed

lemma final_block_words:
  assumes "length w = 8" "i < 16"
  shows "ReadBE32 (digest_words w @ padding2) (4 * i) = final_word w i"
proof (cases "i < 8")
  case True
  have l: "length (digest_words w) = 32" using assms(1) by (simp add: length_digest_words)
  have "slice (4 * i) 4 (digest_words w @ padding2) = slice (i * 4) 4 (digest_words w)"
    using True l by (simp add: slice_def mult.commute)
  also have "\<dots> = rev (le_bytes 4 (w ! i))"
    using True assms(1) unfolding digest_words_def by (intro be32.slice_enc_array) simp_all
  finally show ?thesis
    using True by (simp add: ReadBE32_def final_word_def le_word_le_bytes_id)
next
  case False
  have l: "length (digest_words w) = 32" using assms(1) by (simp add: length_digest_words)
  have "slice (4 * i) 4 (digest_words w @ padding2) = slice (4 * (i - 8)) 4 padding2"
    using False l by (simp add: slice_append_right diff_mult_distrib2)
  then show ?thesis using padding2_words [of i w] assms(2) False by (simp add: ReadBE32_def)
qed

lemma D64_third_compress: "length w = 8 \<Longrightarrow> D64_third w = compress_spec Initialize (digest_words w @ padding2)"
proof -
  assume "length w = 8"
  then have "schedule (final_word w) = schedule (\<lambda>i. ReadBE32 (digest_words w @ padding2) (4 * i))"
    by (intro ext schedule_cong) (simp add: final_block_words)
  then show ?thesis by (simp only: D64_third_eq compress_spec_def)
qed

definition double_sha256 :: "bytes \<Rightarrow> bytes" where
  "double_sha256 m = bytes_of (DoubleSha256 m)"

lemma double_sha256_block:
  "length m = 64 \<Longrightarrow> double_sha256 m = digest_words (compress_spec Initialize
    (digest_words (compress_spec (compress_spec Initialize m) padding1) @ padding2))"
  by (simp add: double_sha256_def DoubleSha256_spec sha256_of_block sha256_of_digest length_digest_words)

lemma compress_take: "compress_spec st (take 64 chunk) = compress_spec st chunk"
  using Transform_block_take [of st chunk] by (simp only: Transform_block_eq_spec)

lemma WriteBE32_digest:
  assumes "length xs = 8" "32 \<le> length out"
  shows "WriteBE32 (WriteBE32 (WriteBE32 (WriteBE32 (WriteBE32 (WriteBE32 (WriteBE32 (WriteBE32 out
    0 (xs ! 0)) 4 (xs ! 1)) 8 (xs ! 2)) 12 (xs ! 3)) 16 (xs ! 4)) 20 (xs ! 5)) 24 (xs ! 6)) 28 (xs ! 7) =
    digest_words xs @ drop 32 out"
proof -
  have u: "[0..<8] = [0, 1, 2, 3, 4, 5, 6, 7]" by (simp add: upt_rec)
  have "fold (\<lambda>i. splice (i * 4) (rev (le_bytes 4 (xs ! i)))) [0..<8] out = digest_words xs @ drop 32 out"
    using be32.fold_write [of 8 xs out] assms by (simp add: digest_words_def)
  then show ?thesis by (simp only: u WriteBE32_def fold_simps) simp
qed

text \<open>What a routine for \<open>n\<close> blocks has to compute.\<close>

definition hashes_blocks :: "nat \<Rightarrow> (bytes \<Rightarrow> bytes \<Rightarrow> bytes) \<Rightarrow> bool" where
  "hashes_blocks n f \<longleftrightarrow> (\<forall>out inp. 32 * n \<le> length out \<longrightarrow> 64 * n \<le> length inp \<longrightarrow>
    f out inp = concat (map (\<lambda>i. double_sha256 (slice (64 * i) 64 inp)) [0..<n]) @ drop (32 * n) out)"

lemma TransformD64_hashes: "hashes_blocks 1 TransformD64"
proof -
  have "TransformD64 out inp = double_sha256 (slice 0 64 inp) @ drop 32 out"
    if l: "32 \<le> length out" "64 \<le> length inp" for out inp
  proof -
    let ?v = "D64_third (D64_second (D64_first inp))"
    have v: "?v = compress_spec Initialize (digest_words (compress_spec (compress_spec Initialize inp) padding1) @ padding2)"
      by (simp add: D64_first_eq D64_second_eq D64_third_compress)
    have "TransformD64 out inp = digest_words ?v @ drop 32 out"
      unfolding TransformD64_def Let_def by (rule WriteBE32_digest) (simp_all add: v l)
    then show ?thesis
      using l double_sha256_block [of "slice 0 64 inp"] by (simp add: v slice_def compress_take)
  qed
  then show ?thesis by (simp add: hashes_blocks_def)
qed

lemma TransformD64Wrapper_hashes:
  assumes "\<And>st chunk. tr st chunk 1 = Transform st chunk 1"
  shows "hashes_blocks 1 (TransformD64Wrapper tr)"
proof -
  have tr: "tr st chunk 1 = compress_spec st chunk" for st chunk
    using assms by (simp add: Transform_block_eq_spec)
  have "TransformD64Wrapper tr out inp = double_sha256 (slice 0 64 inp) @ drop 32 out"
    if l: "32 \<le> length out" "64 \<le> length inp" for out inp
  proof -
    let ?s = "compress_spec (compress_spec Initialize inp) padding1"
    have d: "drop 32 (replicate 32 0 @ [0x80] @ replicate 29 0 @ [1, 0]) = padding2" by (simp add: padding2_def)
    have b: "32 \<le> length (replicate 32 (0 :: byte) @ [0x80] @ replicate 29 0 @ [1, 0])" by simp
    have "TransformD64Wrapper tr out inp = digest_words (compress_spec Initialize (digest_words ?s @ padding2)) @ drop 32 out"
      unfolding TransformD64Wrapper_def Let_def tr WriteBE32_digest [OF length_compress b] d
      by (rule WriteBE32_digest) (simp_all add: l)
    then show ?thesis
      using l double_sha256_block [of "slice 0 64 inp"] by (simp add: slice_def compress_take)
  qed
  then show ?thesis by (simp add: hashes_blocks_def)
qed

section \<open>Many blocks\<close>

record d64_routines =
  TransformD64_8way :: "(bytes \<Rightarrow> bytes \<Rightarrow> bytes) option"
  TransformD64_4way :: "(bytes \<Rightarrow> bytes \<Rightarrow> bytes) option"
  TransformD64_2way :: "(bytes \<Rightarrow> bytes \<Rightarrow> bytes) option"
  TransformD64_one :: "bytes \<Rightarrow> bytes \<Rightarrow> bytes"

text \<open>
  The loop \<open>while (blocks >= n)\<close> with a routine for \<open>n\<close> blocks, and what follows it. The positive width
  of a routine is a constant of the source.
\<close>

function D64_while :: "nat \<Rightarrow> (bytes \<Rightarrow> bytes \<Rightarrow> bytes) \<Rightarrow> (bytes \<Rightarrow> bytes \<Rightarrow> nat \<Rightarrow> bytes) \<Rightarrow> bytes \<Rightarrow> bytes \<Rightarrow> nat \<Rightarrow> bytes" where
  "D64_while n f next_loop out inp blocks =
    (if 0 < n \<and> n \<le> blocks then
       let out = f out inp
       in take (32 * n) out @ D64_while n f next_loop (drop (32 * n) out) (drop (64 * n) inp) (blocks - n)
     else next_loop out inp blocks)"
  by pat_completeness auto
termination
  by (relation "measure (\<lambda>(n, f, next_loop, out, inp, blocks). blocks)") auto

declare D64_while.simps [simp del]

definition D64_if :: "nat \<Rightarrow> (bytes \<Rightarrow> bytes \<Rightarrow> bytes) option \<Rightarrow> (bytes \<Rightarrow> bytes \<Rightarrow> nat \<Rightarrow> bytes) \<Rightarrow> bytes \<Rightarrow> bytes \<Rightarrow> nat \<Rightarrow> bytes" where
  "D64_if n routine next_loop = (case routine of None \<Rightarrow> next_loop | Some f \<Rightarrow> D64_while n f next_loop)"

definition SHA256D64 :: "d64_routines \<Rightarrow> bytes \<Rightarrow> bytes \<Rightarrow> nat \<Rightarrow> bytes" where
  "SHA256D64 R =
    D64_if 8 (TransformD64_8way R) (D64_if 4 (TransformD64_4way R) (D64_if 2 (TransformD64_2way R)
      (D64_while 1 (TransformD64_one R) (\<lambda>out inp blocks. out))))"

definition d64_ok :: "d64_routines \<Rightarrow> bool" where
  "d64_ok R \<longleftrightarrow> pred_option (hashes_blocks 8) (TransformD64_8way R) \<and> pred_option (hashes_blocks 4) (TransformD64_4way R) \<and>
    pred_option (hashes_blocks 2) (TransformD64_2way R) \<and> hashes_blocks 1 (TransformD64_one R)"

definition portable_routines :: d64_routines where
  "portable_routines = \<lparr>TransformD64_8way = None, TransformD64_4way = None, TransformD64_2way = None,
    TransformD64_one = TransformD64\<rparr>"

text \<open>A loop finishes the blocks: it hashes all of them in order and leaves the rest of the memory.\<close>

definition finishes :: "(nat \<Rightarrow> bool) \<Rightarrow> (bytes \<Rightarrow> bytes \<Rightarrow> nat \<Rightarrow> bytes) \<Rightarrow> bool" where
  "finishes P loop \<longleftrightarrow> (\<forall>out inp blocks. P blocks \<longrightarrow> 32 * blocks \<le> length out \<longrightarrow> 64 * blocks \<le> length inp \<longrightarrow>
    loop out inp blocks = concat (map (\<lambda>i. double_sha256 (slice (64 * i) 64 inp)) [0..<blocks]) @ drop (32 * blocks) out)"

lemma length_double_blocks:
  "length (concat (map (\<lambda>i. double_sha256 (slice (64 * i) 64 inp)) [0..<n])) = 32 * n"
  by (induction n) (simp_all add: double_sha256_def DoubleSha256_spec)

lemma double_blocks_split:
  "concat (map (\<lambda>i. double_sha256 (slice (64 * i) 64 inp)) [0..<n + m]) =
    concat (map (\<lambda>i. double_sha256 (slice (64 * i) 64 inp)) [0..<n]) @
    concat (map (\<lambda>i. double_sha256 (slice (64 * i) 64 (drop (64 * n) inp))) [0..<m])"
proof -
  have u: "[0..<n + m] = [0..<n] @ map (\<lambda>i. i + n) [0..<m]"
    using upt_add_eq_append [of 0 n m] map_add_upt [of n m] by (simp add: add.commute)
  have "slice (64 * (i + n)) 64 inp = slice (64 * i) 64 (drop (64 * n) inp)" for i
    by (simp add: slice_def add.commute distrib_left)
  then show ?thesis by (simp add: u comp_def)
qed

lemma D64_while_finishes:
  assumes "0 < n" "hashes_blocks n f" "finishes (\<lambda>blocks. blocks < n) next_loop"
  shows "finishes (\<lambda>_. True) (D64_while n f next_loop)"
proof -
  have "D64_while n f next_loop out inp blocks =
      concat (map (\<lambda>i. double_sha256 (slice (64 * i) 64 inp)) [0..<blocks]) @ drop (32 * blocks) out"
    if "32 * blocks \<le> length out" "64 * blocks \<le> length inp" for out inp blocks
    using that
  proof (induction blocks arbitrary: out inp rule: less_induct)
    case (less blocks)
    show ?case
    proof (cases "n \<le> blocks")
      case True
      let ?hashes = "concat (map (\<lambda>i. double_sha256 (slice (64 * i) 64 inp)) [0..<n])"
      have f: "f out inp = ?hashes @ drop (32 * n) out"
        using assms(2) less.prems True unfolding hashes_blocks_def by simp
      have "D64_while n f next_loop out inp blocks =
          ?hashes @ D64_while n f next_loop (drop (32 * n) out) (drop (64 * n) inp) (blocks - n)"
        using True assms(1) by (simp add: D64_while.simps [of n f next_loop out inp blocks] f length_double_blocks Let_def)
      also have "D64_while n f next_loop (drop (32 * n) out) (drop (64 * n) inp) (blocks - n) =
          concat (map (\<lambda>i. double_sha256 (slice (64 * i) 64 (drop (64 * n) inp))) [0..<blocks - n]) @ drop (32 * blocks) out"
        using less.IH [of "blocks - n" "drop (32 * n) out" "drop (64 * n) inp"] less.prems True assms(1)
        by (simp add: diff_mult_distrib2)
      finally show ?thesis using double_blocks_split [of inp n "blocks - n"] True by simp
    next
      case False
      then show ?thesis using assms(3) less.prems
        by (simp add: D64_while.simps [of n f next_loop out inp blocks] finishes_def)
    qed
  qed
  then show ?thesis by (simp add: finishes_def)
qed

lemma finishes_weaken: "finishes (\<lambda>_. True) loop \<Longrightarrow> finishes P loop"
  by (simp add: finishes_def)

lemma D64_if_finishes:
  assumes "0 < n" "pred_option (hashes_blocks n) routine" "finishes (\<lambda>_. True) next_loop"
  shows "finishes (\<lambda>_. True) (D64_if n routine next_loop)"
  using assms D64_while_finishes finishes_weaken by (cases routine) (auto simp: D64_if_def)

text \<open>C23: Whichever routines for 2, 4 or 8 blocks at a time are installed, provided each computes the double
  SHA-256 of its blocks, \<open>SHA256D64\<close> writes the double SHA-256 of every 64-byte block, in order, and
  no other byte. The portable routine, three unrolled compressions with the padding folded into the
  round constants, and the wrapper over a compression function are such routines.\<close>

theorem SHA256D64_hashes_blocks:
  assumes "d64_ok R" "32 * blocks \<le> length out" "64 * blocks \<le> length inp"
  shows "SHA256D64 R out inp blocks =
      concat (map (\<lambda>i. bytes_of (DoubleSha256 (slice (64 * i) 64 inp))) [0..<blocks]) @ drop (32 * blocks) out \<and>
    hashes_blocks 1 TransformD64 \<and> hashes_blocks 1 (TransformD64Wrapper Transform)"
proof -
  have "finishes (\<lambda>blocks. blocks < 1) (\<lambda>out inp blocks. out)" by (simp add: finishes_def)
  then have "finishes (\<lambda>_. True) (SHA256D64 R)"
    unfolding SHA256D64_def using assms(1)
    by (intro D64_if_finishes D64_while_finishes) (simp_all add: d64_ok_def)
  moreover have "hashes_blocks 1 (TransformD64Wrapper Transform)" by (rule TransformD64Wrapper_hashes) (rule refl)
  ultimately show ?thesis
    using assms TransformD64_hashes by (simp add: finishes_def d64_ok_def double_sha256_def)
qed

theorem SHA256D64_hashes_blocks_witness:
  "SHA256D64 portable_routines (replicate 96 7) (replicate 128 5) 2 =
    concat (replicate 2 (bytes_of (DoubleSha256 (replicate 64 5)))) @ replicate 32 7"
proof -
  have "d64_ok portable_routines" using TransformD64_hashes by (simp add: d64_ok_def portable_routines_def)
  from SHA256D64_hashes_blocks [OF this, of 2 "replicate 96 7" "replicate 128 5"] show ?thesis
    by (simp add: upt_rec slice_def numeral_2_eq_2)
qed

end
