(* ===== verification/Sha256Eval.thy ===== *)
theory Sha256Eval
  imports Sha256 
begin

text \<open>
  Evaluation of the SHA-256 compression on concrete blocks: words as lists of 32 bits, least
  significant first, on which every operation of the compression is a recursion over constructors.
  Each of them is proved to compute the word operation, and the whole to compute \<open>compress_spec\<close>.
\<close>

section \<open>Words as bit lists\<close>

definition wb :: "bool list \<Rightarrow> u32" where
  "wb = horner_sum of_bool 2"

primrec num_bits :: "nat \<Rightarrow> int \<Rightarrow> bool list" where
  "num_bits 0 x = []"
| "num_bits (Suc n) x = odd x # num_bits n (x div 2)"

definition word_bits :: "u32 \<Rightarrow> bool list" where
  "word_bits w = num_bits 32 (uint w)"

fun xors :: "bool list \<Rightarrow> bool list \<Rightarrow> bool list" where
  "xors (x # xs) (y # ys) = (x \<noteq> y) # xors xs ys"
| "xors _ _ = []"

fun chs :: "bool list \<Rightarrow> bool list \<Rightarrow> bool list \<Rightarrow> bool list" where
  "chs (x # xs) (y # ys) (z # zs) = (if x then y else z) # chs xs ys zs"
| "chs _ _ _ = []"

fun majs :: "bool list \<Rightarrow> bool list \<Rightarrow> bool list \<Rightarrow> bool list" where
  "majs (x # xs) (y # ys) (z # zs) = (if x then y \<or> z else y \<and> z) # majs xs ys zs"
| "majs _ _ _ = []"

fun adds :: "bool \<Rightarrow> bool list \<Rightarrow> bool list \<Rightarrow> bool list" where
  "adds c (x # xs) (y # ys) = (if x then (if y then c # adds True xs ys else (\<not> c) # adds c xs ys)
     else (if y then (\<not> c) # adds c xs ys else c # adds False xs ys))"
| "adds _ _ _ = []"

definition rots :: "nat \<Rightarrow> bool list \<Rightarrow> bool list" where
  "rots n x = drop n x @ take n x"

definition shifts :: "nat \<Rightarrow> bool list \<Rightarrow> bool list" where
  "shifts n x = drop n x @ replicate n False"

section \<open>The compression\<close>

definition next_bits :: "bool list list \<Rightarrow> bool list" where
  "next_bits ws =
    (let w2 = ws ! 1; w15 = ws ! 14
     in adds False (adds False (adds False (xors (rots 17 w2) (xors (rots 19 w2) (shifts 10 w2))) (ws ! 6))
       (xors (rots 7 w15) (xors (rots 18 w15) (shifts 3 w15)))) (ws ! 15))"

primrec sched_bits :: "nat \<Rightarrow> bool list list \<Rightarrow> bool list list" where
  "sched_bits 0 ws = ws"
| "sched_bits (Suc n) ws = sched_bits n (next_bits ws # ws)"

fun round_bits :: "bool list \<Rightarrow> bool list list \<Rightarrow> bool list list" where
  "round_bits k [a, b, c, d, e, f, g, h] =
    (let t1 = adds False (adds False (adds False h (xors (rots 6 e) (xors (rots 11 e) (rots 25 e)))) (chs e f g)) k;
         t2 = adds False (xors (rots 2 a) (xors (rots 13 a) (rots 22 a))) (majs a b c)
     in [adds False t1 t2, a, b, c, adds False d t1, e, f, g])"
| "round_bits _ _ = []"

definition key_bits :: "bool list list \<Rightarrow> bool list list \<Rightarrow> bool list list" where
  "key_bits keys st = map2 (adds False) st (fold round_bits keys st)"

definition compress_bits :: "bool list list \<Rightarrow> bool list list \<Rightarrow> bool list list" where
  "compress_bits ms st = key_bits (map2 (adds False) (map word_bits K256) (rev (sched_bits 48 (rev ms)))) st"

section \<open>Correctness\<close>

definition rep :: "bool list \<Rightarrow> u32 \<Rightarrow> bool" where
  "rep xs w \<longleftrightarrow> length xs = 32 \<and> wb xs = w"

lemma wb_Nil [simp]: "wb [] = 0"
  by (simp add: wb_def)

lemma wb_Cons: "wb (x # xs) = of_bool x + 2 * wb xs"
  by (simp add: wb_def)

lemma bit_wb: "bit (wb xs) n \<longleftrightarrow> n < 32 \<and> n < length xs \<and> xs ! n"
  by (auto simp: wb_def bit_horner_sum_bit_word_iff)

lemma rep_iff: "rep xs w \<longleftrightarrow> length xs = 32 \<and> (\<forall>n < 32. bit w n = xs ! n)"
proof -
  have "wb xs = w \<longleftrightarrow> (\<forall>n < 32. bit (wb xs) n = bit w n)" by (auto intro: bit_word_eqI)
  then show ?thesis by (auto simp: rep_def bit_wb)
qed

lemma num_bits: "length (num_bits n x) = n \<and> (\<forall>i < n. num_bits n x ! i = bit x i)"
  by (induction n arbitrary: x) (auto simp: nth_Cons bit_0 bit_Suc split: nat.splits)

lemma word_bits_rep: "rep (word_bits w) w"
  using num_bits [of 32 "uint w"] by (simp add: rep_iff word_bits_def bit_uint_iff)

lemma xors_nth: "length (xors x y) = min (length x) (length y) \<and> (\<forall>i < min (length x) (length y). xors x y ! i = (x ! i \<noteq> y ! i))"
  by (induction x y rule: xors.induct) (auto simp: nth_Cons split: nat.splits)

lemma chs_nth: "length (chs x y z) = min (length x) (min (length y) (length z)) \<and>
    (\<forall>i < min (length x) (min (length y) (length z)). chs x y z ! i = (if x ! i then y ! i else z ! i))"
  by (induction x y z rule: chs.induct) (auto simp: nth_Cons split: nat.splits)

lemma majs_nth: "length (majs x y z) = min (length x) (min (length y) (length z)) \<and>
    (\<forall>i < min (length x) (min (length y) (length z)). majs x y z ! i = (if x ! i then y ! i \<or> z ! i else y ! i \<and> z ! i))"
  by (induction x y z rule: majs.induct) (auto simp: nth_Cons split: nat.splits)

lemma rep_xors: "rep x a \<Longrightarrow> rep y b \<Longrightarrow> rep (xors x y) (a XOR b)"
  using xors_nth [of x y] by (simp add: rep_iff bit_xor_iff)

lemma rep_chs: "rep x a \<Longrightarrow> rep y b \<Longrightarrow> rep z c \<Longrightarrow> rep (chs x y z) (ch_spec a b c)"
  using chs_nth [of x y z] by (auto simp: rep_iff ch_spec_def bit_simps)

lemma rep_majs: "rep x a \<Longrightarrow> rep y b \<Longrightarrow> rep z c \<Longrightarrow> rep (majs x y z) (maj_spec a b c)"
  using majs_nth [of x y z] by (auto simp: rep_iff maj_spec_def bit_simps)

lemma rep_shifts: "rep x a \<Longrightarrow> n \<le> 32 \<Longrightarrow> rep (shifts n x) (drop_bit n a)"
  by (auto simp: rep_iff shifts_def bit_drop_bit_eq nth_append add.commute dest: bit_imp_le_length)

lemma rep_rots: "rep x a \<Longrightarrow> n < 32 \<Longrightarrow> rep (rots n x) (word_rotr n a)"
  by (auto simp: rep_iff rots_def bit_word_rotr_iff nth_append add.commute le_mod_geq not_less)

lemma carry_step:
  fixes x :: u32
  assumes "x + y + c = q + 2 * d" "a + b + d = r + p * k"
  shows "x + 2 * a + (y + 2 * b) + c = q + 2 * r + 2 * p * k"
proof -
  have "x + 2 * a + (y + 2 * b) + c = (x + y + c) + 2 * (a + b)" by (simp add: algebra_simps)
  also have "\<dots> = q + 2 * (a + b + d)" by (simp only: assms(1)) (simp add: algebra_simps)
  also have "\<dots> = q + 2 * r + 2 * p * k" by (simp only: assms(2)) (simp add: algebra_simps)
  finally show ?thesis .
qed

lemma adds_sum: "length x = length y \<Longrightarrow>
    length (adds c x y) = length x \<and> (\<exists>k. wb x + wb y + of_bool c = wb (adds c x y) + 2 ^ length x * k)"
proof (induction x y arbitrary: c rule: list_induct2')
  case (4 x xs y ys)
  have l: "length xs = length ys" using 4 by simp
  have step: "\<exists>k. of_bool x + 2 * wb xs + (of_bool y + 2 * wb ys) + of_bool c =
      of_bool q + 2 * wb (adds d xs ys) + 2 * 2 ^ length xs * k"
    if "of_bool x + of_bool y + of_bool c = (of_bool q + 2 * of_bool d :: u32)" for q d
  proof -
    obtain k where "wb xs + wb ys + of_bool d = wb (adds d xs ys) + 2 ^ length xs * k" using 4(1) [OF l] by blast
    from carry_step [OF that this] show ?thesis by blast
  qed
  have "\<exists>q d. adds c (x # xs) (y # ys) = q # adds d xs ys \<and> of_bool x + of_bool y + of_bool c = (of_bool q + 2 * of_bool d :: u32)"
    by (cases x; cases y; cases c) auto
  then obtain q d where "adds c (x # xs) (y # ys) = q # adds d xs ys"
    and "of_bool x + of_bool y + of_bool c = (of_bool q + 2 * of_bool d :: u32)" by blast
  with step [OF this(2)] 4(1) [OF l] show ?case by (simp add: wb_Cons)
qed auto

lemma rep_adds: "rep x a \<Longrightarrow> rep y b \<Longrightarrow> rep (adds False x y) (a + b)"
proof -
  assume r: "rep x a" "rep y b"
  have z: "(4294967296 :: u32) = 0" by simp
  obtain k where "length (adds False x y) = 32" "wb x + wb y + 0 = wb (adds False x y) + 2 ^ 32 * k"
    using adds_sum [of x y False] r unfolding rep_def by (metis of_bool_eq(1))
  then show ?thesis using r by (simp add: rep_def) (simp add: z)
qed

lemmas rep_ops = rep_xors rep_chs rep_majs rep_shifts rep_rots rep_adds

lemma rep_round:
  assumes "list_all2 rep xs [a, b, c, d, e, f, g, h]" "rep k w"
  shows "\<exists>a' b' c' d' e' f' g' h'. round_spec w (a, b, c, d, e, f, g, h) = (a', b', c', d', e', f', g', h') \<and>
    list_all2 rep (round_bits k xs) [a', b', c', d', e', f', g', h']"
  using assms by (auto simp: list_all2_Cons2 Let_def intro!: rep_ops)

fun working_list :: "working \<Rightarrow> u32 list" where
  "working_list (a, b, c, d, e, f, g, h) = [a, b, c, d, e, f, g, h]"

lemma rep_rounds:
  "list_all2 rep ks ws \<Longrightarrow> list_all2 rep xs (working_list p) \<Longrightarrow>
    list_all2 rep (fold round_bits ks xs) (working_list (fold round_spec ws p))"
proof (induction ks ws arbitrary: xs p rule: list_all2_induct)
  case (Cons k ks w ws)
  obtain a b c d e f g h where p: "p = (a, b, c, d, e, f, g, h)" by (cases p rule: working_list.cases)
  have "list_all2 rep (round_bits k xs) (working_list (round_spec w p))"
    using rep_round [of xs a b c d e f g h k w] Cons by (auto simp: p)
  from Cons.IH [OF this] show ?case by simp
qed simp

lemma rep_map2_adds: "list_all2 rep xs us \<Longrightarrow> list_all2 rep ys vs \<Longrightarrow> list_all2 rep (map2 (adds False) xs ys) (map2 (+) us vs)"
  by (auto simp: list_all2_conv_all_nth intro: rep_adds)

lemma rep_words: "list_all2 rep (map word_bits ws) ws"
  by (simp add: list_all2_conv_all_nth word_bits_rep)

lemma add_working_map2: "length st = 8 \<Longrightarrow> add_working st p = map2 (+) st (working_list p)"
  by (cases p rule: working_list.cases) (auto simp: numeral_eq_Suc length_Suc_conv)

lemma rep_keys:
  assumes "list_all2 rep ks ws" "list_all2 rep xs st" "length st = 8"
  shows "list_all2 rep (key_bits ks xs)
    (add_working st (fold round_spec ws (st ! 0, st ! 1, st ! 2, st ! 3, st ! 4, st ! 5, st ! 6, st ! 7)))"
proof -
  have "working_list (st ! 0, st ! 1, st ! 2, st ! 3, st ! 4, st ! 5, st ! 6, st ! 7) = st"
    using assms(3) by (auto simp: numeral_eq_Suc length_Suc_conv)
  then show ?thesis
    unfolding add_working_map2 [OF assms(3)] key_bits_def
    using assms by (intro rep_map2_adds rep_rounds) simp_all
qed

lemma rep_next:
  assumes "list_all2 rep ws (rev (map (schedule M) [0..<t]))" "16 \<le> t"
  shows "rep (next_bits ws) (schedule M t)"
proof -
  have w: "rep (ws ! i) (schedule M (t - Suc i))" if "i < 16" for i
    using list_all2_nthD2 [OF assms(1), of i] assms(2) that by (simp add: rev_nth)
  show ?thesis
    using w [of 1] w [of 6] w [of 14] w [of 15] assms(2)
    unfolding next_bits_def Let_def schedule.simps [of M t] by (auto intro!: rep_ops simp: numeral_eq_Suc)
qed

lemma rep_sched:
  "list_all2 rep ws (rev (map (schedule M) [0..<t])) \<Longrightarrow> 16 \<le> t \<Longrightarrow>
    list_all2 rep (sched_bits n ws) (rev (map (schedule M) [0..<t + n]))"
proof (induction n arbitrary: ws t)
  case (Suc n)
  have "list_all2 rep (next_bits ws # ws) (rev (map (schedule M) [0..<Suc t]))"
    using Suc.prems rep_next [OF Suc.prems] by simp
  from Suc.IH [OF this] Suc.prems show ?case by simp
qed simp

lemma K256_upt: "K256 = map (\<lambda>t. K256 ! t) [0..<64]"
proof -
  have "length K256 = 64" by (simp add: K256_def)
  with map_nth [of K256] show ?thesis by metis
qed

theorem compress_bits_rep:
  assumes "list_all2 rep ms (map (\<lambda>i. M i) [0..<16])" "list_all2 rep xs st" "length st = 8"
  shows "list_all2 rep (compress_bits ms xs)
    (add_working st (fold round_spec (map (\<lambda>t. K256 ! t + schedule M t) [0..<64])
      (st ! 0, st ! 1, st ! 2, st ! 3, st ! 4, st ! 5, st ! 6, st ! 7)))"
proof -
  have low: "map (schedule M) [0..<16] = map M [0..<16]" by (rule map_cong) (simp_all add: schedule_low)
  have "list_all2 rep (rev ms) (rev (map (schedule M) [0..<16]))" unfolding low using assms(1) by simp
  from rep_sched [OF this order_refl, of 48]
  have "list_all2 rep (rev (sched_bits 48 (rev ms))) (map (schedule M) [0..<16 + 48])"
    by (subst (asm) list_all2_rev [symmetric]) (simp only: rev_rev_ident)
  moreover have "16 + 48 = (64 :: nat)" by simp
  ultimately have "list_all2 rep (rev (sched_bits 48 (rev ms))) (map (schedule M) [0..<64])" by metis
  from rep_map2_adds [OF rep_words this, of K256]
  have "list_all2 rep (map2 (adds False) (map word_bits K256) (rev (sched_bits 48 (rev ms))))
      (map (\<lambda>t. K256 ! t + schedule M t) [0..<64])"
    by (subst (asm) (2) K256_upt) (simp add: map2_map_map)
  from rep_keys [OF this assms(2,3)] show ?thesis by (simp only: compress_bits_def)
qed

lemma rep_unique: "list_all2 rep xs ws \<Longrightarrow> list_all2 rep xs vs \<Longrightarrow> ws = vs"
  by (auto simp: list_all2_conv_all_nth rep_def intro: nth_equalityI)

lemma rep_words_eq: "list_all2 rep (map word_bits vs) ws \<Longrightarrow> ws = vs"
  using rep_unique rep_words by blast

section \<open>Text as message words\<close>

fun char_bits :: "char \<Rightarrow> bool list" where
  "char_bits (Char b0 b1 b2 b3 b4 b5 b6 b7) = [b0, b1, b2, b3, b4, b5, b6, b7]"

fun text_bits :: "string \<Rightarrow> bool list list" where
  "text_bits (a # b # c # d # cs) = (char_bits d @ char_bits c @ char_bits b @ char_bits a) # text_bits cs"
| "text_bits _ = []"

lemma length_char_bits [simp]: "length (char_bits c) = 8"
  by (cases c) simp

lemma bit_of_char: "n < 8 \<Longrightarrow> bit (of_char c :: 8 word) n = char_bits c ! n"
  by (cases c) (simp only: of_char_Char char_bits.simps bit_horner_sum_bit_word_iff, simp)

lemma rep_chars:
  "rep (char_bits d @ char_bits c @ char_bits b @ char_bits a) (le_word [of_char d, of_char c, of_char b, of_char a])"
proof -
  have "bit (le_word [of_char d, of_char c, of_char b, of_char a] :: u32) n =
      (char_bits d @ char_bits c @ char_bits b @ char_bits a) ! n" if "n < 32" for n
  proof -
    have m: "n mod 8 < 8" by simp
    consider "n < 8" | "8 \<le> n" "n < 16" | "16 \<le> n" "n < 24" | "24 \<le> n" by linarith
    then show ?thesis
    proof cases
      case 1
      then show ?thesis unfolding bit_le_word by (simp add: bit_of_char nth_append)
    next
      case 2
      then have "n div 8 = 1" "n mod 8 = n - 8" "n - 8 < 8" by (auto simp: div_nat_eqI mod_if)
      with 2 show ?thesis unfolding bit_le_word by (simp add: bit_of_char nth_append)
    next
      case 3
      then have "n div 8 = 2" "n mod 8 = n - 16" "n - 16 < 8" "\<not> n - 8 < 8" by (auto simp: div_nat_eqI mod_if)
      with 3 show ?thesis unfolding bit_le_word by (simp add: bit_of_char nth_append)
    next
      case 4
      with that have "n div 8 = 3" "n mod 8 = n - 24" "\<not> n - 8 < 8" "\<not> n - 16 < 8" by (auto simp: div_nat_eqI mod_if)
      with 4 that show ?thesis unfolding bit_le_word by (simp add: bit_of_char nth_append)
    qed
  qed
  then show ?thesis by (simp add: rep_iff)
qed

lemma ReadBE32_Cons: "ReadBE32 (a # b # c # d # bs) (4 * Suc i) = ReadBE32 bs (4 * i)"
proof -
  have "4 * Suc i = Suc (Suc (Suc (Suc (4 * i))))" by simp
  then show ?thesis by (simp only: ReadBE32_def slice_def drop_Suc_Cons)
qed

lemma rep_text: "length t = 4 * n \<Longrightarrow> list_all2 rep (text_bits t) (map (\<lambda>i. ReadBE32 (map of_char t @ rest) (4 * i)) [0..<n])"
proof (induction t arbitrary: n rule: text_bits.induct)
  case (1 a b c d cs)
  then obtain m where m: "n = Suc m" "length cs = 4 * m" by (cases n) auto
  have u: "[0..<Suc m] = 0 # map Suc [0..<m]" by (simp only: map_Suc_upt upt_rec [of 0 "Suc m"]) simp
  have "ReadBE32 (of_char a # of_char b # of_char c # of_char d # map of_char cs @ rest) (4 * 0) =
      le_word [of_char d, of_char c, of_char b, of_char a]"
    by (simp add: ReadBE32_def slice_def del: le_word.simps)
  with 1(1) [OF m(2)] rep_chars [of d c b a] show ?case
    unfolding m(1) u
    by (simp only: text_bits.simps list.map map_map comp_def append_Cons ReadBE32_Cons list_all2_Cons simp_thms)
qed simp_all

text \<open>One evaluated block of text.\<close>

theorem compress_text:
  assumes "compress_bits (text_bits t) (map word_bits st) = map word_bits st'" "length t = 64" "length st = 8"
  shows "compress_spec st (map of_char t @ rest) = st'"
proof -
  have "list_all2 rep (text_bits t) (map (\<lambda>i. ReadBE32 (map of_char t @ rest) (4 * i)) [0..<16])"
    using assms(2) by (intro rep_text) simp
  from compress_bits_rep [OF this rep_words assms(3)] show ?thesis
    unfolding compress_spec_def assms(1) by (rule rep_words_eq)
qed

end
