(* ===== verification/Sha256SelfTest.thy ===== *)
theory Sha256SelfTest
  imports Sha256D64 Sha256Eval
begin

text \<open>
  \<open>SelfTest\<close> and \<open>SHA256AutoDetect\<close> of \<open>src/crypto/sha256.cpp\<close>. The repository is built with
  \<open>DISABLE_OPTIMIZED_SHA256\<close> (\<open>CMakeLists.txt\<close>), so that the detection of CPU features is not compiled:
  \<open>SHA256AutoDetect\<close> installs the portable routines and asserts their self-test. The test vectors are
  the ones of the source; they are evaluated on the bit lists of \<open>Sha256Eval\<close>.
\<close>

section \<open>The self-test\<close>

definition self_test_init :: "u32 list" where
  "self_test_init = [0x6a09e667, 0xbb67ae85, 0x3c6ef372, 0xa54ff53a, 0x510e527f, 0x9b05688c, 0x1f83d9ab, 0x5be0cd19]"

definition self_test_text :: string where
  "self_test_text =
    ''Lorem ipsum dolor sit amet, consectetur adipiscing elit, sed do '' @
    ''eiusmod tempor incididunt ut labore et dolore magna aliqua. Et m'' @
    ''olestie ac feugiat sed lectus vestibulum mattis ullamcorper. Mor'' @
    ''bi blandit cursus risus at ultrices mi tempus imperdiet nulla. N'' @
    ''unc congue nisi vita suscipit tellus mauris. Imperdiet proin fer'' @
    ''mentum leo vel orci. Massa tempor nec feugiat nisl pretium fusce'' @
    '' id velit. Telus in metus vulputate eu scelerisque felis. Mi tem'' @
    ''pus imperdiet nulla malesuada pellentesque. Tristique magna sit.''"

text \<open>The array of 641 bytes: a dash, the text, and the zeros that fill it.\<close>

definition self_test_data :: bytes where
  "self_test_data = map of_char (CHR 0x2D # self_test_text) @ replicate 128 0"

definition self_test_result :: "u32 list list" where
  "self_test_result = [
    [0x6a09e667, 0xbb67ae85, 0x3c6ef372, 0xa54ff53a,
     0x510e527f, 0x9b05688c, 0x1f83d9ab, 0x5be0cd19],
    [0x91f8ec6b, 0x4da10fe3, 0x1c9c292c, 0x45e18185,
     0x435cc111, 0x3ca26f09, 0xeb954cae, 0x402a7069],
    [0xcabea5ac, 0x374fb97c, 0x182ad996, 0x7bd69cbf,
     0x450ff900, 0xc1d2be8a, 0x6a41d505, 0xe6212dc3],
    [0xbcff09d6, 0x3e76f36e, 0x3ecb2501, 0x78866e97,
     0xe1c1e2fd, 0x32f4eaff, 0x8aa6c4e5, 0xdfc024bc],
    [0xa08c5d94, 0x0a862f93, 0x6b7f2f40, 0x8f9fae76,
     0x6d40439f, 0x79dcee0c, 0x3e39ff3a, 0xdc3bdbb1],
    [0x216a0895, 0x9f1a3662, 0xe99946f9, 0x87ba4364,
     0x0fb5db2c, 0x12bed3d3, 0x6689c0c7, 0x292f1b04],
    [0xca3067f8, 0xbc8c2656, 0x37cb7e0d, 0x9b6b8b0f,
     0x46dc380b, 0xf1287f57, 0xc42e4b23, 0x3fefe94d],
    [0x3e4c4039, 0xbb6fca8c, 0x6f27d2f7, 0x301e44a4,
     0x8352ba14, 0x5769ce37, 0x48a1155f, 0xc0e1c4c6],
    [0xfe2fa9dd, 0x69d0862b, 0x1ae0db23, 0x471f9244,
     0xf55c0145, 0xc30f9c3b, 0x40a84ea0, 0x5b8a266c]]"

definition result_d64 :: bytes where
  "result_d64 = [
    0x09, 0x3a, 0xc4, 0xd0, 0x0f, 0xf7, 0x57, 0xe1, 0x72, 0x85, 0x79, 0x42, 0xfe, 0xe7, 0xe0, 0xa0,
    0xfc, 0x52, 0xd7, 0xdb, 0x07, 0x63, 0x45, 0xfb, 0x53, 0x14, 0x7d, 0x17, 0x22, 0x86, 0xf0, 0x52,
    0x48, 0xb6, 0x11, 0x9e, 0x6e, 0x48, 0x81, 0x6d, 0xcc, 0x57, 0x1f, 0xb2, 0x97, 0xa8, 0xd5, 0x25,
    0x9b, 0x82, 0xaa, 0x89, 0xe2, 0xfd, 0x2d, 0x56, 0xe8, 0x28, 0x83, 0x0b, 0xe2, 0xfa, 0x53, 0xb7,
    0xd6, 0x6b, 0x07, 0x85, 0x83, 0xb0, 0x10, 0xa2, 0xf5, 0x51, 0x3c, 0xf9, 0x60, 0x03, 0xab, 0x45,
    0x6c, 0x15, 0x6e, 0xef, 0xb5, 0xac, 0x3e, 0x6c, 0xdf, 0xb4, 0x92, 0x22, 0x2d, 0xce, 0xbf, 0x3e,
    0xe9, 0xe5, 0xf6, 0x29, 0x0e, 0x01, 0x4f, 0xd2, 0xd4, 0x45, 0x65, 0xb3, 0xbb, 0xf2, 0x4c, 0x16,
    0x37, 0x50, 0x3c, 0x6e, 0x49, 0x8c, 0x5a, 0x89, 0x2b, 0x1b, 0xab, 0xc4, 0x37, 0xd1, 0x46, 0xe9,
    0x3d, 0x0e, 0x85, 0xa2, 0x50, 0x73, 0xa1, 0x5e, 0x54, 0x37, 0xd7, 0x94, 0x17, 0x56, 0xc2, 0xd8,
    0xe5, 0x9f, 0xed, 0x4e, 0xae, 0x15, 0x42, 0x06, 0x0d, 0x74, 0x74, 0x5e, 0x24, 0x30, 0xce, 0xd1,
    0x9e, 0x50, 0xa3, 0x9a, 0xb8, 0xf0, 0x4a, 0x57, 0x69, 0x78, 0x67, 0x12, 0x84, 0x58, 0xbe, 0xc7,
    0x36, 0xaa, 0xee, 0x7c, 0x64, 0xa3, 0x76, 0xec, 0xff, 0x55, 0x41, 0x00, 0x2a, 0x44, 0x68, 0x4d,
    0xb6, 0x53, 0x9e, 0x1c, 0x95, 0xb7, 0xca, 0xdc, 0x7f, 0x7d, 0x74, 0x27, 0x5c, 0x8e, 0xa6, 0x84,
    0xb5, 0xac, 0x87, 0xa9, 0xf3, 0xff, 0x75, 0xf2, 0x34, 0xcd, 0x1a, 0x3b, 0x82, 0x2c, 0x2b, 0x4e,
    0x6a, 0x46, 0x30, 0xa6, 0x89, 0x86, 0x23, 0xac, 0xf8, 0xa5, 0x15, 0xe9, 0x0a, 0xaa, 0x1e, 0x9a,
    0xd7, 0x93, 0x6b, 0x28, 0xe4, 0x3b, 0xfd, 0x59, 0xc6, 0xed, 0x7c, 0x5f, 0xa5, 0x41, 0xcb, 0x51]"

text \<open>\<open>out\<close> is the memory of the uninitialised arrays of this name.\<close>

definition SelfTest :: "(u32 list \<Rightarrow> bytes \<Rightarrow> nat \<Rightarrow> u32 list) \<Rightarrow> d64_routines \<Rightarrow> bytes \<Rightarrow> bool" where
  "SelfTest tr R out =
    (list_all (\<lambda>i. tr self_test_init (drop 1 self_test_data) i = self_test_result ! i) [0..<9] \<and>
     TransformD64_one R (take 32 out) (drop 1 self_test_data) = take 32 result_d64 \<and>
     pred_option (\<lambda>f. f (take 64 out) (drop 1 self_test_data) = take 64 result_d64) (TransformD64_2way R) \<and>
     pred_option (\<lambda>f. f (take 128 out) (drop 1 self_test_data) = take 128 result_d64) (TransformD64_4way R) \<and>
     pred_option (\<lambda>f. f (take 256 out) (drop 1 self_test_data) = result_d64) (TransformD64_8way R))"

text \<open>What the function installs before the detection, which is not compiled.\<close>

definition autodetect_start :: "string \<times> (u32 list \<Rightarrow> bytes \<Rightarrow> nat \<Rightarrow> u32 list) \<times> d64_routines" where
  "autodetect_start = (''standard'', Transform, portable_routines)"

text \<open>The result is \<open>None\<close> when the assertion fails. The argument only selects among the vector routines.\<close>

definition SHA256AutoDetect :: "8 word \<Rightarrow> bytes \<Rightarrow> (string \<times> (u32 list \<Rightarrow> bytes \<Rightarrow> nat \<Rightarrow> u32 list) \<times> d64_routines) option" where
  "SHA256AutoDetect use_implementation out =
    (case autodetect_start of (ret, tr, R) \<Rightarrow> if SelfTest tr R out then Some (ret, tr, R) else None)"

section \<open>The test vectors\<close>

lemma self_test_block_1:
  "compress_bits (text_bits ''Lorem ipsum dolor sit amet, consectetur adipiscing elit, sed do '')
    (map word_bits [0x6a09e667, 0xbb67ae85, 0x3c6ef372, 0xa54ff53a,
      0x510e527f, 0x9b05688c, 0x1f83d9ab, 0x5be0cd19]) =
    map word_bits
     [0x91f8ec6b, 0x4da10fe3, 0x1c9c292c, 0x45e18185,
      0x435cc111, 0x3ca26f09, 0xeb954cae, 0x402a7069]"
  by code_simp

lemma self_test_block_2:
  "compress_bits (text_bits ''eiusmod tempor incididunt ut labore et dolore magna aliqua. Et m'')
    (map word_bits [0x91f8ec6b, 0x4da10fe3, 0x1c9c292c, 0x45e18185,
      0x435cc111, 0x3ca26f09, 0xeb954cae, 0x402a7069]) =
    map word_bits
     [0xcabea5ac, 0x374fb97c, 0x182ad996, 0x7bd69cbf,
      0x450ff900, 0xc1d2be8a, 0x6a41d505, 0xe6212dc3]"
  by code_simp

lemma self_test_block_3:
  "compress_bits (text_bits ''olestie ac feugiat sed lectus vestibulum mattis ullamcorper. Mor'')
    (map word_bits [0xcabea5ac, 0x374fb97c, 0x182ad996, 0x7bd69cbf,
      0x450ff900, 0xc1d2be8a, 0x6a41d505, 0xe6212dc3]) =
    map word_bits
     [0xbcff09d6, 0x3e76f36e, 0x3ecb2501, 0x78866e97,
      0xe1c1e2fd, 0x32f4eaff, 0x8aa6c4e5, 0xdfc024bc]"
  by code_simp

lemma self_test_block_4:
  "compress_bits (text_bits ''bi blandit cursus risus at ultrices mi tempus imperdiet nulla. N'')
    (map word_bits [0xbcff09d6, 0x3e76f36e, 0x3ecb2501, 0x78866e97,
      0xe1c1e2fd, 0x32f4eaff, 0x8aa6c4e5, 0xdfc024bc]) =
    map word_bits
     [0xa08c5d94, 0x0a862f93, 0x6b7f2f40, 0x8f9fae76,
      0x6d40439f, 0x79dcee0c, 0x3e39ff3a, 0xdc3bdbb1]"
  by code_simp

lemma self_test_block_5:
  "compress_bits (text_bits ''unc congue nisi vita suscipit tellus mauris. Imperdiet proin fer'')
    (map word_bits [0xa08c5d94, 0x0a862f93, 0x6b7f2f40, 0x8f9fae76,
      0x6d40439f, 0x79dcee0c, 0x3e39ff3a, 0xdc3bdbb1]) =
    map word_bits
     [0x216a0895, 0x9f1a3662, 0xe99946f9, 0x87ba4364,
      0x0fb5db2c, 0x12bed3d3, 0x6689c0c7, 0x292f1b04]"
  by code_simp

lemma self_test_block_6:
  "compress_bits (text_bits ''mentum leo vel orci. Massa tempor nec feugiat nisl pretium fusce'')
    (map word_bits [0x216a0895, 0x9f1a3662, 0xe99946f9, 0x87ba4364,
      0x0fb5db2c, 0x12bed3d3, 0x6689c0c7, 0x292f1b04]) =
    map word_bits
     [0xca3067f8, 0xbc8c2656, 0x37cb7e0d, 0x9b6b8b0f,
      0x46dc380b, 0xf1287f57, 0xc42e4b23, 0x3fefe94d]"
  by code_simp

lemma self_test_block_7:
  "compress_bits (text_bits '' id velit. Telus in metus vulputate eu scelerisque felis. Mi tem'')
    (map word_bits [0xca3067f8, 0xbc8c2656, 0x37cb7e0d, 0x9b6b8b0f,
      0x46dc380b, 0xf1287f57, 0xc42e4b23, 0x3fefe94d]) =
    map word_bits
     [0x3e4c4039, 0xbb6fca8c, 0x6f27d2f7, 0x301e44a4,
      0x8352ba14, 0x5769ce37, 0x48a1155f, 0xc0e1c4c6]"
  by code_simp

lemma self_test_block_8:
  "compress_bits (text_bits ''pus imperdiet nulla malesuada pellentesque. Tristique magna sit.'')
    (map word_bits [0x3e4c4039, 0xbb6fca8c, 0x6f27d2f7, 0x301e44a4,
      0x8352ba14, 0x5769ce37, 0x48a1155f, 0xc0e1c4c6]) =
    map word_bits
     [0xfe2fa9dd, 0x69d0862b, 0x1ae0db23, 0x471f9244,
      0xf55c0145, 0xc30f9c3b, 0x40a84ea0, 0x5b8a266c]"
  by code_simp

lemma self_test_second:
  "key_bits (map word_bits padding_keys)
    (map word_bits [0x91f8ec6b, 0x4da10fe3, 0x1c9c292c, 0x45e18185,
      0x435cc111, 0x3ca26f09, 0xeb954cae, 0x402a7069]) =
    map word_bits
     [0x95c968b2, 0x6baa56f8, 0xd305cc1b, 0xace23064,
      0x56e98e9d, 0x186ecb9f, 0x1b4de180, 0x8c6f1346]"
  by code_simp

lemma self_test_third:
  "compress_bits (map word_bits [0x95c968b2, 0x6baa56f8, 0xd305cc1b, 0xace23064,
      0x56e98e9d, 0x186ecb9f, 0x1b4de180, 0x8c6f1346, 0x80000000, 0, 0, 0, 0, 0, 0, 256])
    (map word_bits [0x6a09e667, 0xbb67ae85, 0x3c6ef372, 0xa54ff53a,
      0x510e527f, 0x9b05688c, 0x1f83d9ab, 0x5be0cd19]) =
    map word_bits
     [0x093ac4d0, 0x0ff757e1, 0x72857942, 0xfee7e0a0,
      0xfc52d7db, 0x076345fb, 0x53147d17, 0x2286f052]"
  by code_simp

lemmas self_test_blocks = compress_text [OF self_test_block_1] compress_text [OF self_test_block_2]
  compress_text [OF self_test_block_3] compress_text [OF self_test_block_4] compress_text [OF self_test_block_5]
  compress_text [OF self_test_block_6] compress_text [OF self_test_block_7] compress_text [OF self_test_block_8]

lemma Transform_text: "length t = 64 \<Longrightarrow>
    Transform st (map of_char t @ rest) (Suc n) = Transform (compress_spec st (map of_char t @ rest)) rest n"
  by (simp add: Transform_block_eq_spec)

lemma self_test_tail: "drop 1 self_test_data =
    map of_char ''Lorem ipsum dolor sit amet, consectetur adipiscing elit, sed do '' @
    map of_char ''eiusmod tempor incididunt ut labore et dolore magna aliqua. Et m'' @
    map of_char ''olestie ac feugiat sed lectus vestibulum mattis ullamcorper. Mor'' @
    map of_char ''bi blandit cursus risus at ultrices mi tempus imperdiet nulla. N'' @
    map of_char ''unc congue nisi vita suscipit tellus mauris. Imperdiet proin fer'' @
    map of_char ''mentum leo vel orci. Massa tempor nec feugiat nisl pretium fusce'' @
    map of_char '' id velit. Telus in metus vulputate eu scelerisque felis. Mi tem'' @
    map of_char ''pus imperdiet nulla malesuada pellentesque. Tristique magna sit.'' @ replicate 128 0"
  unfolding self_test_data_def self_test_text_def map_append append_assoc by (simp only: list.map append_Cons drop_Suc_Cons One_nat_def drop_0 map_append append_assoc)

lemma upt_9: "[0..<9] = [0, Suc 0, Suc (Suc 0), Suc (Suc (Suc 0)), Suc (Suc (Suc (Suc 0))), Suc (Suc (Suc (Suc (Suc 0)))),
    Suc (Suc (Suc (Suc (Suc (Suc 0))))), Suc (Suc (Suc (Suc (Suc (Suc (Suc 0)))))), Suc (Suc (Suc (Suc (Suc (Suc (Suc (Suc 0)))))))]"
  by (simp add: upt_rec)

lemma self_test_transform:
  "list_all (\<lambda>i. Transform self_test_init (drop 1 self_test_data) i = self_test_result ! i) [0..<9]"
proof -
  show ?thesis
    unfolding self_test_tail self_test_init_def upt_9 list.pred_inject self_test_result_def nth_Cons_Suc nth_Cons_0
    by (simp add: Transform_text self_test_blocks del: Transform.simps(2) list.map)
qed

lemma self_test_digest:
  "double_sha256 (map of_char ''Lorem ipsum dolor sit amet, consectetur adipiscing elit, sed do '') = take 32 result_d64"
proof -
  let ?t = "''Lorem ipsum dolor sit amet, consectetur adipiscing elit, sed do ''"
  let ?c1 = "[0x91f8ec6b, 0x4da10fe3, 0x1c9c292c, 0x45e18185,
      0x435cc111, 0x3ca26f09, 0xeb954cae, 0x402a7069]"
  let ?c2 = "[0x95c968b2, 0x6baa56f8, 0xd305cc1b, 0xace23064,
      0x56e98e9d, 0x186ecb9f, 0x1b4de180, 0x8c6f1346]"
  let ?c3 = "[0x093ac4d0, 0x0ff757e1, 0x72857942, 0xfee7e0a0,
      0xfc52d7db, 0x076345fb, 0x53147d17, 0x2286f052]"
  have 1: "compress_spec Initialize (map of_char ?t) = ?c1"
    using compress_text [OF self_test_block_1, of "[]"] by (simp add: Initialize_def del: list.map)
  have l: "length ?c1 = 8" by simp
  from rep_keys [OF rep_words rep_words l, of padding_keys] have 2: "compress_spec ?c1 padding1 = ?c2"
    unfolding compress_padding1 [of ?c1] self_test_second by (rule rep_words_eq)
  have "map (final_word ?c2) [0..<16] = ?c2 @ [0x80000000, 0, 0, 0, 0, 0, 0, 256]"
    by (simp add: upt_16 final_word_def)
  then have "list_all2 rep (map word_bits (?c2 @ [0x80000000, 0, 0, 0, 0, 0, 0, 256])) (map (final_word ?c2) [0..<16])"
    by (metis rep_words)
  from compress_bits_rep [OF this rep_words, of Initialize] have 3: "D64_third ?c2 = ?c3"
    unfolding D64_third_eq Initialize_def append_Cons append_Nil self_test_third by (simp add: rep_words_eq)
  have "compress_spec Initialize (digest_words ?c2 @ padding2) = ?c3"
    using D64_third_compress [of ?c2] 3 by simp
  moreover have "digest_words ?c3 = take 32 result_d64" by code_simp
  ultimately show ?thesis using double_sha256_block [of "map of_char ?t"] by (simp only: 1 2) simp
qed

lemma self_test_d64:
  assumes "32 \<le> length out"
  shows "TransformD64 (take 32 out) (drop 1 self_test_data) = take 32 result_d64"
proof -
  have s: "slice 0 64 (drop 1 self_test_data) = map of_char ''Lorem ipsum dolor sit amet, consectetur adipiscing elit, sed do ''"
    unfolding self_test_tail by (rule slice_0_append) simp
  have "64 \<le> length (drop 1 self_test_data)" by (simp add: self_test_data_def)
  then have "TransformD64 (take 32 out) (drop 1 self_test_data) = double_sha256 (slice 0 64 (drop 1 self_test_data)) @ []"
    using TransformD64_hashes assms unfolding hashes_blocks_def by simp
  then show ?thesis unfolding s self_test_digest by simp
qed

section \<open>Property\<close>

text \<open>The self-test accepts the portable routines: from the initial state they give the published
  states after one to eight blocks of the test text and the published double hash of its first block.
  So \<open>SHA256AutoDetect\<close> never fails its assertion in this build, whichever implementation is asked
  for; it reports \<open>standard\<close> and installs routines with which \<open>SHA256D64\<close> computes double SHA-256.\<close>

theorem SHA256AutoDetect_standard:
  assumes "32 \<le> length out"
  shows "SHA256AutoDetect use_implementation out = Some (''standard'', Transform, portable_routines) \<and>
    d64_ok portable_routines"
proof -
  have "SelfTest Transform portable_routines out"
    using self_test_transform self_test_d64 [OF assms] by (simp add: SelfTest_def portable_routines_def)
  then show ?thesis
    using TransformD64_hashes by (simp add: SHA256AutoDetect_def autodetect_start_def d64_ok_def portable_routines_def)
qed

theorem SHA256AutoDetect_standard_witness:
  "\<exists>tr R. SHA256AutoDetect 7 (replicate 256 0) = Some (''standard'', tr, R) \<and> d64_ok R"
  using SHA256AutoDetect_standard [of "replicate 256 0" 7] by simp

end
