(* ===== verification/Spec2Isabelle.thy ===== *)
theory Spec2Isabelle
  imports Program NodeProbe Benchmark Sha256SelfTest
begin

text \<open>
  A model of MercaMiner, the CPU miner of the Mercatura network, in the order in which it works:
  it reads its configuration, waits for its node, polls it over JSON-RPC for a block template, builds
  block candidates from it, searches their nonces for a MercaHash below the target with several
  threads, submits the solved block, and stops at a block limit or a signal.

  Theories and sources (all under \<open>src/\<close>):

  \<^item> \<open>Prelude\<close>: machine words, the result monad for the exceptions of the program, arrays and
    little-endian codecs. \<open>Codec\<close>: \<open>crypto/common.h\<close>, \<open>serialization.cpp\<close>; the codec interface is
    the locale \<open>byte_codec\<close>, extended to arrays by \<open>array_codec\<close>.
  \<^item> \<open>UInt256\<close>: \<open>uint256.cpp\<close>, 256-bit values as a linear order. \<open>Target\<close>: \<open>target.cpp\<close>.
  \<^item> \<open>Absorb\<close>: the interface of a buffered hasher, the locale \<open>buffered_hasher\<close>, interpreted for the
    SHA-3 classes in \<open>Sha3\<close> (\<open>crypto/sha3.cpp\<close>) and for SHA-256 in \<open>Sha256\<close>
    (\<open>crypto/sha256.cpp\<close>, \<open>hash256.cpp\<close>). \<open>Sha256D64\<close>: the unrolled double hash of 64-byte blocks
    and \<open>SHA256D64\<close> of the same file, with the routines for vector instructions as parameters.
    \<open>Sha256Eval\<close> evaluates compressions on lists of bits, on which \<open>Sha256SelfTest\<close> checks the test
    vectors of \<open>SelfTest\<close>, so that \<open>SHA256AutoDetect\<close> passes its assertion.
  \<^item> \<open>MercaHash\<close>: \<open>crypto/mercahash.cpp\<close>, the memory-hard hash on its scratchpad of bytes; assertion
    failures are \<open>None\<close>. \<open>MercaHashRefine\<close>: its specification on a list of lines and the refinement.
  \<^item> \<open>Header\<close>, \<open>Merkle\<close>, \<open>Coinbase\<close>: \<open>header.cpp\<close>, \<open>merkle.cpp\<close>, \<open>coinbase.cpp\<close>.
  \<^item> \<open>Json\<close>: the JSON library as a record of operations. \<open>Gbt\<close>: \<open>gbt.cpp\<close>, the template parser.
  \<^item> \<open>BlockBuilder\<close>: \<open>block_builder.cpp\<close>. \<open>MiningJob\<close>: \<open>mining_job.cpp\<close>.
  \<^item> \<open>Scanner\<close>: \<open>scanner.cpp\<close>, the search of a nonce range; its loop ends because the distance to the
    last nonce decreases. \<open>CandidateMiner\<close>: \<open>candidate_miner.cpp\<close>.
  \<^item> \<open>NoncePartition\<close>, \<open>ParallelMiner\<close>: \<open>parallel_miner.cpp\<close>. The threads are a step relation on
    the worker states and the flags they share; the theorems hold of every interleaving.
    \<open>HashCounter\<close>: the counter \<open>live_hashes\<close> that the threads increment while they scan.
  \<^item> \<open>Effects\<close>: actions on the state of the process, with the world outside as a parameter, and loops
    that may run for ever as \<open>partial_function\<close>; the locale \<open>retry\<close> is a loop that repeats a failing
    round, interpreted for the start and for the submission.
    \<open>Rpc\<close>: \<open>rpc.cpp\<close> over libcurl, a record of operations; the locale \<open>rpc_service\<close> is what the
    users of the client rely on. \<open>RpcConnection\<close>: \<open>rpc_connection.cpp\<close>.
  \<^item> \<open>Network\<close>: \<open>network.cpp\<close>. \<open>PayoutAddress\<close>: \<open>payout_address.cpp\<close>. \<open>Longpoll\<close>: \<open>longpoll.cpp\<close>,
    the watcher thread as the history of its stores.
  \<^item> \<open>MinerConfig\<close>: \<open>miner_config.cpp\<close>, the configuration file and the command line.
    \<open>RuntimeReporter\<close>: \<open>runtime_reporter.cpp\<close>, the counters of a session and the thread that prints
    them; the clock, the sleep and the arithmetic of \<open>double\<close> are parameters.
  \<^item> \<open>Submission\<close>, \<open>MineLoop\<close>, \<open>Program\<close>: \<open>mine_loop.cpp\<close>. \<open>Submission\<close> has the queries to the node,
    the start that waits for it and the submission that is repeated until it has answered. \<open>MineLoop\<close>
    is the loop of \<open>main\<close> as a labelled step relation over the places where the program can be: the
    watcher enters as a history of its stores, the threads of the miner as the outcomes of \<open>Mine\<close>
    under any interleaving, and the world may change between any two steps. \<open>Program\<close> has the
    arguments, the shutdown signal and \<open>main\<close> up to its exit code.
  \<^item> \<open>Exceptions\<close>: which exceptions can leave the operations of \<open>main\<close>.
  \<^item> \<open>MineOnce\<close>, \<open>NodeProbe\<close>: \<open>mine_once.cpp\<close> and \<open>node_probe.cpp\<close>, from the arguments to the exit code.
  \<^item> \<open>Benchmark\<close>: \<open>benchmark.cpp\<close>, hashes counted until a timer thread cancels the miner.
  \<^item> \<open>SampleNode\<close>, \<open>MineSession\<close>: a concrete node on which a whole session is evaluated, and the
    theorems on the loop. The sample session shows that their hypotheses can hold.

  What the theorems show, from the top: the program mines only for the payee that its node vouched for
  and submits only solved blocks of current templates (\<open>Program\<close>, \<open>MineSession\<close>); its counters and
  exit codes tell the truth; the threads find a solution when there is one, and end; a candidate is
  the block of its template; parsers accept valid input only; the hashes are those of their
  specifications, over any split of the message.

  Not modelled: \<open>compat/\<close> and \<open>span.h\<close> (platform shims), the choice of SIMD variants of SHA-256 by CPU
  features (the build defines \<open>DISABLE_OPTIMIZED_SHA256\<close>), the arithmetic of \<open>double\<close>, memory
  exhaustion. Libcurl, the JSON library, the file system, the clock and the output streams are
  parameters.
\<close>

end
